theory Spec2Isabelle
  imports Main "HOL-Library.Word" "HOL-Library.Signed_Division"
begin

section \<open>The packet queues of the TSP server (queue.c)\<close>

text \<open>
  queue.c keeps two ring queues in file-level variables, one filled from the tunnel
  device and one from the UDP socket. Each queue has a producer thread (enqueue or
  drop) and a consumer thread (block, then dequeue). The model below follows the file
  function by function. Calls into the operating system and into the rest of the server
  (read, recvfrom, the pthread calls, tspslog, exit, the packet processors) are recorded
  as events in a trace, and what the operating system answers is taken from lists of
  pending answers.
\<close>

subsection \<open>Constants\<close>

text \<open>\<^verbatim>\<open>enum { QUEUE_SIZE = 32 }\<close>, and the values of errno.h and stdlib.h on Linux.\<close>

definition QUEUE_SIZE :: int where "QUEUE_SIZE = 32"
definition EINTR :: int where "EINTR = 4"
definition EAGAIN :: int where "EAGAIN = 11"
definition ETIMEDOUT :: int where "ETIMEDOUT = 110"
definition EXIT_FAILURE :: int where "EXIT_FAILURE = 1"

subsection \<open>Data\<close>

type_synonym byte = "8 word"

record sockaddr_in =
  sin_family :: "16 word"
  sin_port :: "16 word"
  sin_addr :: "32 word"

record timespec =
  tv_sec :: int
  tv_nsec :: int

text \<open>The two mutex and condition variable pairs: lock_tunqueue with cond_tunqueue,
  lock_sockqueue with cond_sockqueue.\<close>

datatype qid = TunQ | SockQ

datatype event =
    MutexLock qid
  | MutexUnlock qid
  | CondSignal qid
  | CondTimedwait qid timespec int
  | ReadTun int
  | RecvfromSock int
  | Tspslog string
  | Exit int
  | ProcessTunPacket "byte list" int
  | ProcessSockPacket sockaddr_in "byte list" int

text \<open>
  One answer of the operating system to read or recvfrom: the value returned, the value
  errno has when the call returned -1, the bytes the call put at the start of the
  buffer, and the sender address recvfrom stored (if it stored one).
\<close>

record io_result =
  io_ret :: int
  io_errno :: int
  io_data :: "byte list"
  io_from :: "sockaddr_in option"

text \<open>
  The file-level variables of queue.c (lines 36 to 47), the static buffers of drop_tun
  and drop_sock, errno, the pending answers of the two file descriptors and the trace.
  A buffer of MTU bytes is a list of that length; MTU comes from tsps.h and is the
  parameter of \<open>init_state\<close>.
\<close>

record state =
  queue_tun :: "byte list list"
  queue_sock :: "byte list list"
  length_tun :: "int list"
  length_sock :: "int list"
  client_addr :: "sockaddr_in list"
  freeptr_tun :: int
  curptr_tun :: int
  freeptr_sock :: int
  curptr_sock :: int
  lock_tunqueue :: bool
  lock_sockqueue :: bool
  dummy_tun :: "byte list"
  dummy_sock :: "byte list"
  errno :: int
  tun_in :: "io_result list"
  sock_in :: "io_result list"
  trace :: "event list"

definition zero_addr :: sockaddr_in where
  "zero_addr = \<lparr>sin_family = 0, sin_port = 0, sin_addr = 0\<rparr>"

text \<open>Static storage starts zeroed; freeptr starts at 0 and curptr at -1 (lines 41, 42).\<close>

definition init_state :: "nat \<Rightarrow> io_result list \<Rightarrow> io_result list \<Rightarrow> state" where
  "init_state mtu tin sin =
     \<lparr>queue_tun = replicate (nat QUEUE_SIZE) (replicate mtu 0),
      queue_sock = replicate (nat QUEUE_SIZE) (replicate mtu 0),
      length_tun = replicate (nat QUEUE_SIZE) 0,
      length_sock = replicate (nat QUEUE_SIZE) 0,
      client_addr = replicate (nat QUEUE_SIZE) zero_addr,
      freeptr_tun = 0, curptr_tun = -1,
      freeptr_sock = 0, curptr_sock = -1,
      lock_tunqueue = False, lock_sockqueue = False,
      dummy_tun = replicate mtu 0, dummy_sock = replicate mtu 0,
      errno = 0, tun_in = tin, sock_in = sin, trace = []\<rparr>"

text \<open>
  How a call ends: it returns a value, the process exits, the call does not come back
  (it waits for a mutex another thread holds, or for an answer the environment never
  gives), or it indexes an array outside its bounds.
\<close>

datatype 'a outcome = Returned 'a state | Exited state | Blocked state | Fault state

fun and_then :: "'a outcome \<Rightarrow> ('a \<Rightarrow> state \<Rightarrow> 'b outcome) \<Rightarrow> 'b outcome" where
  "and_then (Returned a s) k = k a s"
| "and_then (Exited s) k = Exited s"
| "and_then (Blocked s) k = Blocked s"
| "and_then (Fault s) k = Fault s"

fun is_Returned :: "'a outcome \<Rightarrow> bool" where
  "is_Returned (Returned a s) = True"
| "is_Returned (Exited s) = False"
| "is_Returned (Blocked s) = False"
| "is_Returned (Fault s) = False"

fun is_Exited :: "'a outcome \<Rightarrow> bool" where
  "is_Exited (Returned a s) = False"
| "is_Exited (Exited s) = True"
| "is_Exited (Blocked s) = False"
| "is_Exited (Fault s) = False"

fun final_state :: "'a outcome \<Rightarrow> state" where
  "final_state (Returned a s) = s"
| "final_state (Exited s) = s"
| "final_state (Blocked s) = s"
| "final_state (Fault s) = s"

subsection \<open>The calls queue.c makes\<close>

definition emit :: "event list \<Rightarrow> state \<Rightarrow> state" where
  "emit es s = s\<lparr>trace := trace s @ es\<rparr>"

fun mutex_held :: "qid \<Rightarrow> state \<Rightarrow> bool" where
  "mutex_held TunQ s = lock_tunqueue s"
| "mutex_held SockQ s = lock_sockqueue s"

fun set_mutex :: "qid \<Rightarrow> bool \<Rightarrow> state \<Rightarrow> state" where
  "set_mutex TunQ b s = s\<lparr>lock_tunqueue := b\<rparr>"
| "set_mutex SockQ b s = s\<lparr>lock_sockqueue := b\<rparr>"

text \<open>A mutex that is held makes the caller wait: \<open>None\<close>.\<close>

definition pthread_mutex_lock :: "qid \<Rightarrow> state \<Rightarrow> state option" where
  "pthread_mutex_lock q s =
     (if mutex_held q s then None else Some (emit [MutexLock q] (set_mutex q True s)))"

definition pthread_mutex_unlock :: "qid \<Rightarrow> state \<Rightarrow> state" where
  "pthread_mutex_unlock q s = emit [MutexUnlock q] (set_mutex q False s)"

definition pthread_cond_signal :: "qid \<Rightarrow> state \<Rightarrow> state" where
  "pthread_cond_signal q s = emit [CondSignal q] s"

definition tspslog :: "string \<Rightarrow> state \<Rightarrow> state" where
  "tspslog msg s = emit [Tspslog msg] s"

definition exit_process :: "int \<Rightarrow> state \<Rightarrow> 'a outcome" where
  "exit_process code s = Exited (emit [Exit code] s)"

text \<open>A system call stores at most as many bytes as the buffer has.\<close>

definition store_buf :: "byte list \<Rightarrow> byte list \<Rightarrow> byte list" where
  "store_buf buf bytes = take (length buf) bytes @ drop (length bytes) buf"

definition set_errno :: "io_result \<Rightarrow> state \<Rightarrow> state" where
  "set_errno r s = (if io_ret r = -1 then s\<lparr>errno := io_errno r\<rparr> else s)"

text \<open>The arrays have QUEUE_SIZE elements. (C's \<open>%\<close> truncates towards zero: below it
  is \<open>smod\<close>, not \<open>mod\<close>, so a negative cursor would give a negative index.)\<close>

definition in_array :: "int \<Rightarrow> bool" where
  "in_array i = (0 \<le> i \<and> i < QUEUE_SIZE)"

subsection \<open>queue_tun_isfull, queue_sock_isfull (lines 49 to 65)\<close>

definition queue_tun_isfull :: "state \<Rightarrow> int outcome" where
  "queue_tun_isfull s =
     (case pthread_mutex_lock TunQ s of
        None \<Rightarrow> Blocked s
      | Some s1 \<Rightarrow>
          let rt = of_bool (freeptr_tun s1 = curptr_tun s1)
          in Returned rt (pthread_mutex_unlock TunQ s1))"

definition queue_sock_isfull :: "state \<Rightarrow> int outcome" where
  "queue_sock_isfull s =
     (case pthread_mutex_lock SockQ s of
        None \<Rightarrow> Blocked s
      | Some s1 \<Rightarrow>
          let rt = of_bool (freeptr_sock s1 = curptr_sock s1)
          in Returned rt (pthread_mutex_unlock SockQ s1))"

subsection \<open>The emptiness tests (lines 67 to 93)\<close>

text \<open>\<open>queue_tun_isempty_nolock\<close> is the source's \<^verbatim>\<open>_queue_tun_isempty\<close>, and likewise
  for the socket queue.\<close>

definition queue_tun_isempty_nolock :: "state \<Rightarrow> int" where
  "queue_tun_isempty_nolock s =
     of_bool (((curptr_tun s + 1) smod QUEUE_SIZE) = freeptr_tun s)"

definition queue_sock_isempty_nolock :: "state \<Rightarrow> int" where
  "queue_sock_isempty_nolock s =
     of_bool (((curptr_sock s + 1) smod QUEUE_SIZE) = freeptr_sock s)"

definition queue_tun_isempty :: "state \<Rightarrow> int outcome" where
  "queue_tun_isempty s =
     (case pthread_mutex_lock TunQ s of
        None \<Rightarrow> Blocked s
      | Some s1 \<Rightarrow>
          let rt = queue_tun_isempty_nolock s1
          in Returned rt (pthread_mutex_unlock TunQ s1))"

definition queue_sock_isempty :: "state \<Rightarrow> int outcome" where
  "queue_sock_isempty s =
     (case pthread_mutex_lock SockQ s of
        None \<Rightarrow> Blocked s
      | Some s1 \<Rightarrow>
          let rt = queue_sock_isempty_nolock s1
          in Returned rt (pthread_mutex_unlock SockQ s1))"

subsection \<open>enqueue_tun (lines 95 to 118)\<close>

text \<open>
  Lines 100 to 105, run with lock_tunqueue held: the full test, then
  \<^verbatim>\<open>ptr = (freeptr_tun++) % QUEUE_SIZE; freeptr_tun %= QUEUE_SIZE;\<close>.
  The result is the slot reserved, or \<open>None\<close> when the function returns at line 102.
\<close>

definition enqueue_tun_locked :: "state \<Rightarrow> int option \<times> state" where
  "enqueue_tun_locked s1 =
     (if freeptr_tun s1 = curptr_tun s1 then (None, s1)
      else
        let ptr = freeptr_tun s1 smod QUEUE_SIZE;
            s2 = s1\<lparr>freeptr_tun := freeptr_tun s1 + 1\<rparr>;
            s3 = s2\<lparr>freeptr_tun := freeptr_tun s2 smod QUEUE_SIZE\<rparr>
        in (Some ptr, s3))"

text \<open>Lines 99 to 106: the locked part between lock and unlock.\<close>

definition enqueue_tun_reserve :: "state \<Rightarrow> int option outcome" where
  "enqueue_tun_reserve s =
     (case pthread_mutex_lock TunQ s of
        None \<Rightarrow> Blocked s
      | Some s1 \<Rightarrow>
          (case enqueue_tun_locked s1 of
             (r, s3) \<Rightarrow> Returned r (pthread_mutex_unlock TunQ s3)))"

text \<open>
  One \<^verbatim>\<open>length_tun[ptr] = read(server.tunfd, queue_tun[ptr], MTU)\<close> (line 109)
  with the answer \<open>r\<close>.
\<close>

definition read_into_tun_slot :: "nat \<Rightarrow> io_result \<Rightarrow> state \<Rightarrow> state" where
  "read_into_tun_slot p r s =
     emit [ReadTun (io_ret r)]
       ((set_errno r s)
          \<lparr>queue_tun := (queue_tun s)[p := store_buf (queue_tun s ! p) (io_data r)],
           length_tun := (length_tun s)[p := io_ret r],
           tun_in := tl (tun_in s)\<rparr>)"

text \<open>The do-while loop of lines 108 to 115, over the pending answers of the tunnel.\<close>

fun enqueue_tun_loop :: "nat \<Rightarrow> io_result list \<Rightarrow> state \<Rightarrow> unit outcome" where
  "enqueue_tun_loop p [] s = Blocked s"
| "enqueue_tun_loop p (r # rs) s =
     (let s1 = read_into_tun_slot p r s
      in if length_tun s1 ! p = -1 \<and> errno s1 \<noteq> EAGAIN \<and> errno s1 \<noteq> EINTR
         then exit_process EXIT_FAILURE (tspslog ''Read error'' s1)
         else if length_tun s1 ! p \<le> 0 then enqueue_tun_loop p rs s1
         else Returned () s1)"

definition enqueue_tun_fill :: "int \<Rightarrow> state \<Rightarrow> unit outcome" where
  "enqueue_tun_fill ptr s =
     (if in_array ptr then enqueue_tun_loop (nat ptr) (tun_in s) s else Fault s)"

definition enqueue_tun_signal :: "state \<Rightarrow> unit outcome" where
  "enqueue_tun_signal s = Returned () (pthread_cond_signal TunQ s)"

definition enqueue_tun :: "state \<Rightarrow> unit outcome" where
  "enqueue_tun s =
     and_then (enqueue_tun_reserve s) (\<lambda>r s1.
       case r of
         None \<Rightarrow> Returned () s1
       | Some ptr \<Rightarrow>
           and_then (enqueue_tun_fill ptr s1) (\<lambda>_ s2. enqueue_tun_signal s2))"

subsection \<open>enqueue_sock (lines 120 to 146)\<close>

definition enqueue_sock_locked :: "state \<Rightarrow> int option \<times> state" where
  "enqueue_sock_locked s1 =
     (if freeptr_sock s1 = curptr_sock s1 then (None, s1)
      else
        let ptr = freeptr_sock s1 smod QUEUE_SIZE;
            s2 = s1\<lparr>freeptr_sock := freeptr_sock s1 + 1\<rparr>;
            s3 = s2\<lparr>freeptr_sock := freeptr_sock s2 smod QUEUE_SIZE\<rparr>
        in (Some ptr, s3))"

definition enqueue_sock_reserve :: "state \<Rightarrow> int option outcome" where
  "enqueue_sock_reserve s =
     (case pthread_mutex_lock SockQ s of
        None \<Rightarrow> Blocked s
      | Some s1 \<Rightarrow>
          (case enqueue_sock_locked s1 of
             (r, s3) \<Rightarrow> Returned r (pthread_mutex_unlock SockQ s3)))"

text \<open>
  One \<^verbatim>\<open>length_sock[ptr] = recvfrom(server.sockfd, queue_sock[ptr], MTU, 0,
  &client_addr[ptr], &socklen)\<close> (lines 135 to 137) with the answer \<open>r\<close>.
\<close>

definition recvfrom_into_sock_slot :: "nat \<Rightarrow> io_result \<Rightarrow> state \<Rightarrow> state" where
  "recvfrom_into_sock_slot p r s =
     emit [RecvfromSock (io_ret r)]
       ((set_errno r s)
          \<lparr>queue_sock := (queue_sock s)[p := store_buf (queue_sock s ! p) (io_data r)],
           length_sock := (length_sock s)[p := io_ret r],
           client_addr :=
             (case io_from r of
                None \<Rightarrow> client_addr s
              | Some a \<Rightarrow> (client_addr s)[p := a]),
           sock_in := tl (sock_in s)\<rparr>)"

fun enqueue_sock_loop :: "nat \<Rightarrow> io_result list \<Rightarrow> state \<Rightarrow> unit outcome" where
  "enqueue_sock_loop p [] s = Blocked s"
| "enqueue_sock_loop p (r # rs) s =
     (let s1 = recvfrom_into_sock_slot p r s
      in if length_sock s1 ! p = -1 \<and> errno s1 \<noteq> EAGAIN \<and> errno s1 \<noteq> EINTR
         then exit_process EXIT_FAILURE (tspslog ''Recvfrom error'' s1)
         else if length_sock s1 ! p \<le> 0 then enqueue_sock_loop p rs s1
         else Returned () s1)"

definition enqueue_sock_fill :: "int \<Rightarrow> state \<Rightarrow> unit outcome" where
  "enqueue_sock_fill ptr s =
     (if in_array ptr then enqueue_sock_loop (nat ptr) (sock_in s) s else Fault s)"

definition enqueue_sock_signal :: "state \<Rightarrow> unit outcome" where
  "enqueue_sock_signal s = Returned () (pthread_cond_signal SockQ s)"

definition enqueue_sock :: "state \<Rightarrow> unit outcome" where
  "enqueue_sock s =
     and_then (enqueue_sock_reserve s) (\<lambda>r s1.
       case r of
         None \<Rightarrow> Returned () s1
       | Some ptr \<Rightarrow>
           and_then (enqueue_sock_fill ptr s1) (\<lambda>_ s2. enqueue_sock_signal s2))"

subsection \<open>drop_tun, drop_sock (lines 148 to 176)\<close>

text \<open>One \<^verbatim>\<open>length = read(server.tunfd, dummy, MTU)\<close> (line 154); the value of the
  local \<^verbatim>\<open>length\<close> is the answer's \<open>io_ret\<close>.\<close>

definition read_into_dummy_tun :: "io_result \<Rightarrow> state \<Rightarrow> state" where
  "read_into_dummy_tun r s =
     emit [ReadTun (io_ret r)]
       ((set_errno r s)
          \<lparr>dummy_tun := store_buf (dummy_tun s) (io_data r),
           tun_in := tl (tun_in s)\<rparr>)"

fun drop_tun_loop :: "io_result list \<Rightarrow> state \<Rightarrow> unit outcome" where
  "drop_tun_loop [] s = Blocked s"
| "drop_tun_loop (r # rs) s =
     (let s1 = read_into_dummy_tun r s; len = io_ret r
      in if len = -1 \<and> errno s1 \<noteq> EAGAIN \<and> errno s1 \<noteq> EINTR
         then exit_process EXIT_FAILURE (tspslog ''Read error'' s1)
         else if len \<le> 0 then drop_tun_loop rs s1
         else Returned () s1)"

definition drop_tun :: "state \<Rightarrow> unit outcome" where
  "drop_tun s = drop_tun_loop (tun_in s) s"

text \<open>One \<^verbatim>\<open>length = recvfrom(server.sockfd, dummy, MTU, 0, NULL, NULL)\<close> (line 169):
  no sender address is stored.\<close>

definition recvfrom_into_dummy_sock :: "io_result \<Rightarrow> state \<Rightarrow> state" where
  "recvfrom_into_dummy_sock r s =
     emit [RecvfromSock (io_ret r)]
       ((set_errno r s)
          \<lparr>dummy_sock := store_buf (dummy_sock s) (io_data r),
           sock_in := tl (sock_in s)\<rparr>)"

fun drop_sock_loop :: "io_result list \<Rightarrow> state \<Rightarrow> unit outcome" where
  "drop_sock_loop [] s = Blocked s"
| "drop_sock_loop (r # rs) s =
     (let s1 = recvfrom_into_dummy_sock r s; len = io_ret r
      in if len = -1 \<and> errno s1 \<noteq> EAGAIN \<and> errno s1 \<noteq> EINTR
         then exit_process EXIT_FAILURE (tspslog ''Read error'' s1)
         else if len \<le> 0 then drop_sock_loop rs s1
         else Returned () s1)"

definition drop_sock :: "state \<Rightarrow> unit outcome" where
  "drop_sock s = drop_sock_loop (sock_in s) s"

subsection \<open>dequeue_tun, dequeue_sock (lines 178 to 208)\<close>

text \<open>
  Lines 183 to 188, run with the lock held: the emptiness test, then
  \<^verbatim>\<open>ptr = (++curptr_tun) % QUEUE_SIZE; curptr_tun %= QUEUE_SIZE;\<close>.
\<close>

definition dequeue_tun_locked :: "state \<Rightarrow> int option \<times> state" where
  "dequeue_tun_locked s1 =
     (if queue_tun_isempty_nolock s1 \<noteq> 0 then (None, s1)
      else
        let s2 = s1\<lparr>curptr_tun := curptr_tun s1 + 1\<rparr>;
            ptr = curptr_tun s2 smod QUEUE_SIZE;
            s3 = s2\<lparr>curptr_tun := curptr_tun s2 smod QUEUE_SIZE\<rparr>
        in (Some ptr, s3))"

definition dequeue_tun_claim :: "state \<Rightarrow> int option outcome" where
  "dequeue_tun_claim s =
     (case pthread_mutex_lock TunQ s of
        None \<Rightarrow> Blocked s
      | Some s1 \<Rightarrow>
          (case dequeue_tun_locked s1 of
             (r, s3) \<Rightarrow> Returned r (pthread_mutex_unlock TunQ s3)))"

text \<open>Line 191. What process_tun_packet does with the packet is outside queue.c: the
  call is recorded with the buffer's bytes and the length it is given.\<close>

definition dequeue_tun_process :: "int \<Rightarrow> state \<Rightarrow> unit outcome" where
  "dequeue_tun_process ptr s =
     (if in_array ptr
      then Returned ()
             (emit [ProcessTunPacket (queue_tun s ! nat ptr) (length_tun s ! nat ptr)] s)
      else Fault s)"

definition dequeue_tun :: "state \<Rightarrow> unit outcome" where
  "dequeue_tun s =
     and_then (dequeue_tun_claim s) (\<lambda>r s1.
       case r of
         None \<Rightarrow> Returned () s1
       | Some ptr \<Rightarrow> dequeue_tun_process ptr s1)"

definition dequeue_sock_locked :: "state \<Rightarrow> int option \<times> state" where
  "dequeue_sock_locked s1 =
     (if queue_sock_isempty_nolock s1 \<noteq> 0 then (None, s1)
      else
        let s2 = s1\<lparr>curptr_sock := curptr_sock s1 + 1\<rparr>;
            ptr = curptr_sock s2 smod QUEUE_SIZE;
            s3 = s2\<lparr>curptr_sock := curptr_sock s2 smod QUEUE_SIZE\<rparr>
        in (Some ptr, s3))"

definition dequeue_sock_claim :: "state \<Rightarrow> int option outcome" where
  "dequeue_sock_claim s =
     (case pthread_mutex_lock SockQ s of
        None \<Rightarrow> Blocked s
      | Some s1 \<Rightarrow>
          (case dequeue_sock_locked s1 of
             (r, s3) \<Rightarrow> Returned r (pthread_mutex_unlock SockQ s3)))"

definition dequeue_sock_process :: "int \<Rightarrow> state \<Rightarrow> unit outcome" where
  "dequeue_sock_process ptr s =
     (if in_array ptr
      then Returned ()
             (emit [ProcessSockPacket (client_addr s ! nat ptr) (queue_sock s ! nat ptr)
                      (length_sock s ! nat ptr)] s)
      else Fault s)"

definition dequeue_sock :: "state \<Rightarrow> unit outcome" where
  "dequeue_sock s =
     and_then (dequeue_sock_claim s) (\<lambda>r s1.
       case r of
         None \<Rightarrow> Returned () s1
       | Some ptr \<Rightarrow> dequeue_sock_process ptr s1)"

subsection \<open>block_on_tun_empty, block_on_sock_empty (lines 210 to 244)\<close>

text \<open>
  One answer to the pair clock_gettime, pthread_cond_timedwait: the time read, the value
  timedwait returns, and what the other threads did to the state while the caller slept
  with the mutex released.
\<close>

record wait_result =
  w_now :: timespec
  w_rc :: int
  w_during :: "state \<Rightarrow> state"

text \<open>pthread_cond_timedwait releases the mutex, sleeps, and holds the mutex again when
  it returns, whatever it returns.\<close>

definition pthread_cond_timedwait :: "qid \<Rightarrow> timespec \<Rightarrow> wait_result \<Rightarrow> state \<Rightarrow> state" where
  "pthread_cond_timedwait q ts w s =
     emit [CondTimedwait q ts (w_rc w)]
       (set_mutex q True (w_during w (set_mutex q False s)))"

text \<open>The while loop of lines 216 to 224, entered with the mutex held. When the answers
  run out the caller is asleep in pthread_cond_timedwait, the mutex released.\<close>

fun block_on_tun_empty_loop :: "wait_result list \<Rightarrow> state \<Rightarrow> unit outcome" where
  "block_on_tun_empty_loop [] s =
     (if queue_tun_isempty_nolock s \<noteq> 0 then Blocked (set_mutex TunQ False s)
      else Returned () (pthread_mutex_unlock TunQ s))"
| "block_on_tun_empty_loop (w # ws) s =
     (if queue_tun_isempty_nolock s \<noteq> 0 then
        let ts = w_now w;
            ts = ts\<lparr>tv_sec := tv_sec ts + 1\<rparr>;
            s1 = pthread_cond_timedwait TunQ ts w s;
            rc = w_rc w
        in if rc \<noteq> 0 \<and> rc \<noteq> ETIMEDOUT
           then exit_process 1 (tspslog ''Conditional wait error'' s1)
           else block_on_tun_empty_loop ws s1
      else Returned () (pthread_mutex_unlock TunQ s))"

definition block_on_tun_empty :: "wait_result list \<Rightarrow> state \<Rightarrow> unit outcome" where
  "block_on_tun_empty ws s =
     (case pthread_mutex_lock TunQ s of
        None \<Rightarrow> Blocked s
      | Some s1 \<Rightarrow> block_on_tun_empty_loop ws s1)"

fun block_on_sock_empty_loop :: "wait_result list \<Rightarrow> state \<Rightarrow> unit outcome" where
  "block_on_sock_empty_loop [] s =
     (if queue_sock_isempty_nolock s \<noteq> 0 then Blocked (set_mutex SockQ False s)
      else Returned () (pthread_mutex_unlock SockQ s))"
| "block_on_sock_empty_loop (w # ws) s =
     (if queue_sock_isempty_nolock s \<noteq> 0 then
        let ts = w_now w;
            ts = ts\<lparr>tv_sec := tv_sec ts + 1\<rparr>;
            s1 = pthread_cond_timedwait SockQ ts w s;
            rc = w_rc w
        in if rc \<noteq> 0 \<and> rc \<noteq> ETIMEDOUT
           then exit_process 1 (tspslog ''Conditional wait error'' s1)
           else block_on_sock_empty_loop ws s1
      else Returned () (pthread_mutex_unlock SockQ s))"

definition block_on_sock_empty :: "wait_result list \<Rightarrow> state \<Rightarrow> unit outcome" where
  "block_on_sock_empty ws s =
     (case pthread_mutex_lock SockQ s of
        None \<Rightarrow> Blocked s
      | Some s1 \<Rightarrow> block_on_sock_empty_loop ws s1)"

subsection \<open>Running the two threads of the tunnel queue\<close>

text \<open>
  The producer thread of the tunnel queue calls enqueue_tun, the consumer thread calls
  block_on_tun_empty and dequeue_tun. Where a thread does not hold the mutex the other
  thread can overtake it, so a call is cut where it releases the mutex:
  enqueue_tun into lines 99 to 106, the loop of lines 108 to 115, and line 117;
  dequeue_tun into lines 182 to 189 and line 191. Each thread remembers where it is
  and its local \<^verbatim>\<open>ptr\<close>.
\<close>

datatype producer_pc = P_idle | P_reserved int | P_filled

datatype consumer_pc = C_idle | C_claimed int

datatype step =
    ProducerReserve | ProducerFill | ProducerSignal
  | ConsumerWait | ConsumerClaim | ConsumerProcess

type_synonym config = "state \<times> producer_pc \<times> consumer_pc"

text \<open>A step that is not the thread's next one, or whose call does not return, is not
  taken: \<open>None\<close>. ConsumerWait is block_on_tun_empty returning without having to sleep.\<close>

fun tun_step :: "step \<Rightarrow> config \<Rightarrow> config option" where
  "tun_step ProducerReserve (s, P_idle, c) =
     (case enqueue_tun_reserve s of
        Returned None s1 \<Rightarrow> Some (s1, P_idle, c)
      | Returned (Some ptr) s1 \<Rightarrow> Some (s1, P_reserved ptr, c)
      | _ \<Rightarrow> None)"
| "tun_step ProducerFill (s, P_reserved ptr, c) =
     (case enqueue_tun_fill ptr s of
        Returned _ s1 \<Rightarrow> Some (s1, P_filled, c)
      | _ \<Rightarrow> None)"
| "tun_step ProducerSignal (s, P_filled, c) =
     (case enqueue_tun_signal s of
        Returned _ s1 \<Rightarrow> Some (s1, P_idle, c)
      | _ \<Rightarrow> None)"
| "tun_step ConsumerWait (s, p, C_idle) =
     (case block_on_tun_empty [] s of
        Returned _ s1 \<Rightarrow> Some (s1, p, C_idle)
      | _ \<Rightarrow> None)"
| "tun_step ConsumerClaim (s, p, C_idle) =
     (case dequeue_tun_claim s of
        Returned None s1 \<Rightarrow> Some (s1, p, C_idle)
      | Returned (Some ptr) s1 \<Rightarrow> Some (s1, p, C_claimed ptr)
      | _ \<Rightarrow> None)"
| "tun_step ConsumerProcess (s, p, C_claimed ptr) =
     (case dequeue_tun_process ptr s of
        Returned _ s1 \<Rightarrow> Some (s1, p, C_idle)
      | _ \<Rightarrow> None)"
| "tun_step _ _ = None"

fun tun_run :: "step list \<Rightarrow> config \<Rightarrow> config option" where
  "tun_run [] cfg = Some cfg"
| "tun_run (a # as) cfg =
     (case tun_step a cfg of None \<Rightarrow> None | Some cfg' \<Rightarrow> tun_run as cfg')"

text \<open>The packets handed to process_tun_packet in the order of the trace, and the
  trace without its mutex events.\<close>

fun delivered_tun :: "event list \<Rightarrow> (byte list \<times> int) list" where
  "delivered_tun [] = []"
| "delivered_tun (ProcessTunPacket b n # es) = (b, n) # delivered_tun es"
| "delivered_tun (e # es) = delivered_tun es"

fun io_events :: "event list \<Rightarrow> event list" where
  "io_events [] = []"
| "io_events (MutexLock q # es) = io_events es"
| "io_events (MutexUnlock q # es) = io_events es"
| "io_events (e # es) = e # io_events es"

text \<open>The same call made \<open>n\<close> times by one thread, stopping at a call that does not
  return.\<close>

fun repeat_call :: "nat \<Rightarrow> (state \<Rightarrow> unit outcome) \<Rightarrow> state \<Rightarrow> unit outcome" where
  "repeat_call 0 f s = Returned () s"
| "repeat_call (Suc n) f s = and_then (f s) (\<lambda>_. repeat_call n f)"

text \<open>A packet of one byte, as read or recvfrom delivers it.\<close>

definition packet :: "nat \<Rightarrow> io_result" where
  "packet k = \<lparr>io_ret = 1, io_errno = 0, io_data = [of_nat k], io_from = None\<rparr>"

subsection \<open>Well-formed states\<close>

text \<open>
  The cursors stay within -1 (curptr only, before the first dequeue) and QUEUE_SIZE - 1,
  so no C integer overflows and no index leaves its array; the arrays keep their
  QUEUE_SIZE elements.
\<close>

definition wf_state :: "state \<Rightarrow> bool" where
  "wf_state s =
     (0 \<le> freeptr_tun s \<and> freeptr_tun s < QUEUE_SIZE \<and>
      -1 \<le> curptr_tun s \<and> curptr_tun s < QUEUE_SIZE \<and>
      0 \<le> freeptr_sock s \<and> freeptr_sock s < QUEUE_SIZE \<and>
      -1 \<le> curptr_sock s \<and> curptr_sock s < QUEUE_SIZE \<and>
      length (queue_tun s) = nat QUEUE_SIZE \<and>
      length (queue_sock s) = nat QUEUE_SIZE \<and>
      length (length_tun s) = nat QUEUE_SIZE \<and>
      length (length_sock s) = nat QUEUE_SIZE \<and>
      length (client_addr s) = nat QUEUE_SIZE)"

text \<open>What belongs to the two queues: cursors, slot payloads, lengths, sender addresses.\<close>

definition queues_of ::
  "state \<Rightarrow> (byte list list \<times> int list \<times> int \<times> int) \<times>
            (byte list list \<times> int list \<times> sockaddr_in list \<times> int \<times> int)" where
  "queues_of s =
     ((queue_tun s, length_tun s, freeptr_tun s, curptr_tun s),
      (queue_sock s, length_sock s, client_addr s, freeptr_sock s, curptr_sock s))"

text \<open>
  Between the states \<open>s\<close> and \<open>t\<close> nothing of the two queues has changed but slot
  \<open>p\<close> of the tunnel queue (of the socket queue): its payload, its length and, for
  the socket, its sender address.
\<close>

definition only_tun_slot_changed :: "nat \<Rightarrow> state \<Rightarrow> state \<Rightarrow> bool" where
  "only_tun_slot_changed p s t =
     (freeptr_tun t = freeptr_tun s \<and> curptr_tun t = curptr_tun s \<and>
      freeptr_sock t = freeptr_sock s \<and> curptr_sock t = curptr_sock s \<and>
      queue_sock t = queue_sock s \<and> length_sock t = length_sock s \<and>
      client_addr t = client_addr s \<and>
      (\<forall>i. i \<noteq> p \<longrightarrow>
         queue_tun t ! i = queue_tun s ! i \<and> length_tun t ! i = length_tun s ! i))"

definition only_sock_slot_changed :: "nat \<Rightarrow> state \<Rightarrow> state \<Rightarrow> bool" where
  "only_sock_slot_changed p s t =
     (freeptr_tun t = freeptr_tun s \<and> curptr_tun t = curptr_tun s \<and>
      freeptr_sock t = freeptr_sock s \<and> curptr_sock t = curptr_sock s \<and>
      queue_tun t = queue_tun s \<and> length_tun t = length_tun s \<and>
      (\<forall>i. i \<noteq> p \<longrightarrow>
         queue_sock t ! i = queue_sock s ! i \<and> length_sock t ! i = length_sock s ! i \<and>
         client_addr t ! i = client_addr s ! i))"

text \<open>One packet pending on each descriptor, the socket's with a sender address.\<close>

definition sender :: sockaddr_in where
  "sender = \<lparr>sin_family = 2, sin_port = 3653, sin_addr = 1\<rparr>"

definition arrival_state :: state where
  "arrival_state =
     init_state 2 [packet 7]
       [\<lparr>io_ret = 2, io_errno = 0, io_data = [8, 9], io_from = Some sender\<rparr>]"

text \<open>A condition observed under a queue's lock: take the mutex, evaluate the condition,
  release the mutex, return the condition as a C truth value.\<close>

definition observed_under_lock :: "qid \<Rightarrow> (state \<Rightarrow> bool) \<Rightarrow> state \<Rightarrow> int outcome" where
  "observed_under_lock q cond s =
     (case pthread_mutex_lock q s of
        None \<Rightarrow> Blocked s
      | Some s1 \<Rightarrow> Returned (of_bool (cond s1)) (pthread_mutex_unlock q s1))"

subsection \<open>Answers of read and recvfrom\<close>

text \<open>The fatal answers (-1 with an errno that is neither EAGAIN nor EINTR), the
  transient ones (zero or negative and not fatal), and the first answer in a list that
  is not transient.\<close>

definition fatal :: "io_result \<Rightarrow> bool" where
  "fatal r = (io_ret r = -1 \<and> io_errno r \<noteq> EAGAIN \<and> io_errno r \<noteq> EINTR)"

definition transient :: "io_result \<Rightarrow> bool" where
  "transient r = (io_ret r \<le> 0 \<and> \<not> fatal r)"

definition decisive :: "io_result list \<Rightarrow> io_result option" where
  "decisive rs = List.find (\<lambda>r. \<not> transient r) rs"

definition retried :: "io_result list \<Rightarrow> io_result list" where
  "retried rs = takeWhile transient rs"

text \<open>The answers a read loop takes off the descriptor: the transient ones and the
  first that is not. What a buffer holds after the calls that got these answers, the
  sender address after them, and the length recorded last.\<close>

definition answers_used :: "io_result list \<Rightarrow> io_result list" where
  "answers_used rs = retried rs @ (case decisive rs of None \<Rightarrow> [] | Some r \<Rightarrow> [r])"

definition stored_bytes :: "byte list \<Rightarrow> io_result list \<Rightarrow> byte list" where
  "stored_bytes buf rs = foldl store_buf buf (map io_data rs)"

definition stored_addr :: "sockaddr_in \<Rightarrow> io_result list \<Rightarrow> sockaddr_in" where
  "stored_addr a rs = foldl (\<lambda>a r. case io_from r of None \<Rightarrow> a | Some b \<Rightarrow> b) a rs"

definition stored_length :: "int \<Rightarrow> io_result list \<Rightarrow> int" where
  "stored_length n rs = foldl (\<lambda>n r. io_ret r) n rs"

definition first_is_fatal :: "io_result list \<Rightarrow> bool" where
  "first_is_fatal rs = (case decisive rs of None \<Rightarrow> False | Some r \<Rightarrow> fatal r)"

definition first_is_packet :: "io_result list \<Rightarrow> bool" where
  "first_is_packet rs = (case decisive rs of None \<Rightarrow> False | Some r \<Rightarrow> 0 < io_ret r)"

text \<open>
  What a read loop is expected to do with the pending answers \<open>rs\<close>: one call for
  each transient answer, then one call for the first answer that is not transient; if
  that answer is fatal, one log message and the exit, in this order and nothing between.
\<close>

definition read_loop_trace :: "(int \<Rightarrow> event) \<Rightarrow> string \<Rightarrow> io_result list \<Rightarrow> event list" where
  "read_loop_trace call msg rs =
     map (\<lambda>r. call (io_ret r)) (retried rs) @
     (case decisive rs of
        None \<Rightarrow> []
      | Some r \<Rightarrow>
          call (io_ret r) #
          (if fatal r then [Tspslog msg, Exit EXIT_FAILURE] else []))"

subsection \<open>Example states\<close>

text \<open>The tunnel queue full (both cursors at slot 3), the socket queue as at start.\<close>

definition tun_full_state :: state where
  "tun_full_state = (init_state 2 [] [])\<lparr>freeptr_tun := 3, curptr_tun := 3\<rparr>"

text \<open>The socket queue full, the tunnel queue as at start.\<close>

definition sock_full_state :: state where
  "sock_full_state = (init_state 2 [] [])\<lparr>freeptr_sock := 5, curptr_sock := 5\<rparr>"

text \<open>One slot of the socket queue reserved (slot 0), the tunnel queue empty.\<close>

definition sock_one_state :: state where
  "sock_one_state = (init_state 2 [] [])\<lparr>freeptr_sock := 1\<rparr>"

text \<open>One packet pending on each descriptor, both queues as at start.\<close>

definition pending_state :: state where
  "pending_state = init_state 2 [packet 7] [packet 9]"

text \<open>Answers used in examples: would-block, interrupted, end of file, and an I/O error
  (EIO is 5).\<close>

definition eagain_answer :: io_result where
  "eagain_answer = \<lparr>io_ret = -1, io_errno = EAGAIN, io_data = [], io_from = None\<rparr>"

definition eintr_answer :: io_result where
  "eintr_answer = \<lparr>io_ret = -1, io_errno = EINTR, io_data = [], io_from = None\<rparr>"

definition zero_answer :: io_result where
  "zero_answer = \<lparr>io_ret = 0, io_errno = 0, io_data = [], io_from = None\<rparr>"

definition eio_answer :: io_result where
  "eio_answer = \<lparr>io_ret = -1, io_errno = 5, io_data = [], io_from = None\<rparr>"

text \<open>The tunnel answers would-block, end of file, then an I/O error; the socket answers
  interrupted, then a packet.\<close>

definition retry_state :: state where
  "retry_state =
     init_state 2 [eagain_answer, zero_answer, eio_answer] [eintr_answer, packet 9]"

subsection \<open>Waits\<close>

text \<open>
  The wait a consumer is expected to issue for the answer \<open>w\<close>: a timed wait whose
  deadline is one second after the clock reading. A wait is in order when it returns 0
  or ETIMEDOUT. The other threads leave a queue alone during a wait when they move none
  of its cursors and add nothing to the trace.
\<close>

definition wait_event :: "qid \<Rightarrow> wait_result \<Rightarrow> event" where
  "wait_event q w = CondTimedwait q ((w_now w)\<lparr>tv_sec := tv_sec (w_now w) + 1\<rparr>) (w_rc w)"

definition wait_ok :: "wait_result \<Rightarrow> bool" where
  "wait_ok w = (w_rc w = 0 \<or> w_rc w = ETIMEDOUT)"

definition leaves_alone :: "wait_result \<Rightarrow> bool" where
  "leaves_alone w =
     (\<forall>t. freeptr_tun (w_during w t) = freeptr_tun t \<and>
          curptr_tun (w_during w t) = curptr_tun t \<and>
          freeptr_sock (w_during w t) = freeptr_sock t \<and>
          curptr_sock (w_during w t) = curptr_sock t \<and>
          trace (w_during w t) = trace t)"

text \<open>A wait that runs into its deadline with nothing done meanwhile, and a wait during
  which the producer of the tunnel queue (of the socket queue) reserves slot 0.\<close>

definition timeout_wait :: wait_result where
  "timeout_wait =
     \<lparr>w_now = \<lparr>tv_sec = 100, tv_nsec = 0\<rparr>, w_rc = ETIMEDOUT, w_during = (\<lambda>t. t)\<rparr>"

definition tun_arrival_wait :: wait_result where
  "tun_arrival_wait =
     \<lparr>w_now = \<lparr>tv_sec = 100, tv_nsec = 0\<rparr>, w_rc = 0,
      w_during = (\<lambda>t. t\<lparr>freeptr_tun := 1\<rparr>)\<rparr>"

definition sock_arrival_wait :: wait_result where
  "sock_arrival_wait =
     \<lparr>w_now = \<lparr>tv_sec = 100, tv_nsec = 0\<rparr>, w_rc = 0,
      w_during = (\<lambda>t. t\<lparr>freeptr_sock := 1\<rparr>)\<rparr>"

text \<open>
  The state after the waits \<open>ws\<close> have been made one after the other, each with a
  deadline one second after its clock reading. A caller gets through the waits
  \<open>ws\<close> when it finds the queue empty before each of them and each returns 0 or
  ETIMEDOUT.
\<close>

fun waits_done :: "qid \<Rightarrow> wait_result list \<Rightarrow> state \<Rightarrow> state" where
  "waits_done q [] s = s"
| "waits_done q (w # ws) s =
     waits_done q ws
       (pthread_cond_timedwait q ((w_now w)\<lparr>tv_sec := tv_sec (w_now w) + 1\<rparr>) w s)"

fun waits_through_tun :: "wait_result list \<Rightarrow> state \<Rightarrow> bool" where
  "waits_through_tun [] s = True"
| "waits_through_tun (w # ws) s =
     (queue_tun_isempty_nolock s \<noteq> 0 \<and> wait_ok w \<and>
      waits_through_tun ws (waits_done TunQ [w] s))"

fun waits_through_sock :: "wait_result list \<Rightarrow> state \<Rightarrow> bool" where
  "waits_through_sock [] s = True"
| "waits_through_sock (w # ws) s =
     (queue_sock_isempty_nolock s \<noteq> 0 \<and> wait_ok w \<and>
      waits_through_sock ws (waits_done SockQ [w] s))"

text \<open>A wait that fails (EINVAL is 22).\<close>

definition failed_wait :: wait_result where
  "failed_wait =
     \<lparr>w_now = \<lparr>tv_sec = 100, tv_nsec = 0\<rparr>, w_rc = 22, w_during = (\<lambda>t. t)\<rparr>"

subsection \<open>Example runs\<close>

fun returned_value :: "'a outcome \<Rightarrow> 'a option" where
  "returned_value (Returned a s) = Some a"
| "returned_value (Exited s) = None"
| "returned_value (Blocked s) = None"
| "returned_value (Fault s) = None"

text \<open>Buffers of one byte, and the packets 1 to 33 pending on the tunnel.\<close>

definition burst_state :: state where
  "burst_state = init_state 1 (map packet [1..<34]) []"

text \<open>One packet pending on the tunnel.\<close>

definition single_state :: state where
  "single_state = init_state 1 [packet 5] []"

text \<open>
  The producer reserves a slot and is overtaken before its read: the consumer finds the
  queue not empty, claims the slot and processes it; only then the producer reads.
\<close>

definition overtaken :: "step list" where
  "overtaken =
     [ProducerReserve, ConsumerWait, ConsumerClaim, ConsumerProcess,
      ProducerFill, ProducerSignal]"

text \<open>A packet enqueued and dequeued with no overtaking.\<close>

definition in_turn :: "step list" where
  "in_turn =
     [ProducerReserve, ProducerFill, ProducerSignal,
      ConsumerWait, ConsumerClaim, ConsumerProcess]"

text \<open>Thirty-two packets pass in turn, so that the ring has been used once around; the
  producer is overtaken on the thirty-third.\<close>

definition lap_then_overtaken :: "step list" where
  "lap_then_overtaken = concat (replicate 32 in_turn) @ overtaken"

section \<open>Properties\<close>

subsection \<open>Basic facts\<close>

lemmas prim_defs = emit_def pthread_mutex_lock_def pthread_mutex_unlock_def
  pthread_cond_signal_def tspslog_def exit_process_def

lemma smod_nonneg: "0 \<le> a \<Longrightarrow> a smod QUEUE_SIZE = a mod QUEUE_SIZE"
  by (simp add: signed_modulo_int_def QUEUE_SIZE_def sgn_if)

lemma mod_ge_minus_one: "-1 \<le> (a::int) mod 32"
  using pos_mod_sign [of 32 a] by linarith

lemma in_array_mod: "in_array (a mod QUEUE_SIZE)"
  by (simp add: in_array_def QUEUE_SIZE_def)

lemma wf_init: "wf_state (init_state mtu tin sin)"
  by (simp add: wf_state_def init_state_def QUEUE_SIZE_def)

text \<open>The example states and answers.\<close>

lemma tun_full_state_facts:
  "wf_state tun_full_state" "\<not> lock_tunqueue tun_full_state" "\<not> lock_sockqueue tun_full_state"
  "freeptr_tun tun_full_state = 3" "curptr_tun tun_full_state = 3"
  "freeptr_sock tun_full_state = 0" "curptr_sock tun_full_state = -1"
  by (simp_all add: tun_full_state_def wf_state_def init_state_def QUEUE_SIZE_def)

lemma sock_full_state_facts:
  "wf_state sock_full_state" "\<not> lock_tunqueue sock_full_state" "\<not> lock_sockqueue sock_full_state"
  "freeptr_tun sock_full_state = 0" "curptr_tun sock_full_state = -1"
  "freeptr_sock sock_full_state = 5" "curptr_sock sock_full_state = 5"
  by (simp_all add: sock_full_state_def wf_state_def init_state_def QUEUE_SIZE_def)

lemma sock_one_state_facts:
  "wf_state sock_one_state" "\<not> lock_tunqueue sock_one_state" "\<not> lock_sockqueue sock_one_state"
  "freeptr_tun sock_one_state = 0" "curptr_tun sock_one_state = -1"
  "freeptr_sock sock_one_state = 1" "curptr_sock sock_one_state = -1"
  "queue_sock sock_one_state ! 0 = [0, 0]" "length_sock sock_one_state ! 0 = 0"
  "client_addr sock_one_state ! 0 = zero_addr"
  by (simp_all add: sock_one_state_def wf_state_def init_state_def QUEUE_SIZE_def
      numeral_2_eq_2)

lemma pending_state_facts:
  "wf_state pending_state" "\<not> lock_tunqueue pending_state" "\<not> lock_sockqueue pending_state"
  "tun_in pending_state = [packet 7]" "sock_in pending_state = [packet 9]"
  "freeptr_tun pending_state = 0" "curptr_tun pending_state = -1"
  "freeptr_sock pending_state = 0" "curptr_sock pending_state = -1"
  by (simp_all add: pending_state_def wf_state_def init_state_def QUEUE_SIZE_def)

lemma retry_state_facts:
  "wf_state retry_state" "\<not> lock_tunqueue retry_state" "\<not> lock_sockqueue retry_state"
  "tun_in retry_state = [eagain_answer, zero_answer, eio_answer]"
  "sock_in retry_state = [eintr_answer, packet 9]"
  "freeptr_tun retry_state = 0" "curptr_tun retry_state = -1"
  "freeptr_sock retry_state = 0" "curptr_sock retry_state = -1"
  "trace retry_state = []"
  by (simp_all add: retry_state_def wf_state_def init_state_def QUEUE_SIZE_def)

lemma start_state_facts:
  "\<not> lock_tunqueue (init_state 2 [] [])" "\<not> lock_sockqueue (init_state 2 [] [])"
  "queue_tun_isempty_nolock (init_state 2 [] []) \<noteq> 0"
  "queue_sock_isempty_nolock (init_state 2 [] []) \<noteq> 0"
  "trace (init_state 2 [] []) = []"
  by (simp_all add: init_state_def queue_tun_isempty_nolock_def queue_sock_isempty_nolock_def
      signed_modulo_int_def QUEUE_SIZE_def)

lemma arrival_state_facts:
  "wf_state arrival_state" "\<not> lock_tunqueue arrival_state" "\<not> lock_sockqueue arrival_state"
  "freeptr_tun arrival_state = 0" "curptr_tun arrival_state = -1"
  "freeptr_sock arrival_state = 0" "curptr_sock arrival_state = -1"
  "tun_in arrival_state = [packet 7]"
  "sock_in arrival_state =
     [\<lparr>io_ret = 2, io_errno = 0, io_data = [8, 9], io_from = Some sender\<rparr>]"
  "queue_tun arrival_state ! 0 = [0, 0]" "queue_sock arrival_state ! 0 = [0, 0]"
  by (simp_all add: arrival_state_def wf_state_def init_state_def QUEUE_SIZE_def
      numeral_2_eq_2)

lemma io_ret_packet [simp]: "io_ret (packet k) = 1"
  by (simp add: packet_def)

lemma example_answers:
  "transient eagain_answer" "transient eintr_answer" "transient zero_answer"
  "\<not> transient eio_answer" "fatal eio_answer"
  "\<not> transient (packet k)" "\<not> fatal (packet k)"
  "io_ret eagain_answer = -1" "io_ret eintr_answer = -1" "io_ret zero_answer = 0"
  "io_ret eio_answer = -1"
  by (simp_all add: transient_def fatal_def eagain_answer_def eintr_answer_def zero_answer_def
      eio_answer_def packet_def EAGAIN_def EINTR_def)

lemma example_waits:
  "wait_ok timeout_wait" "leaves_alone timeout_wait"
  "wait_ok tun_arrival_wait" "wait_ok sock_arrival_wait"
  "queue_tun_isempty_nolock
     (w_during tun_arrival_wait (emit [MutexLock TunQ] (init_state 2 [] []))) = 0"
  "queue_sock_isempty_nolock
     (w_during sock_arrival_wait (emit [MutexLock SockQ] (init_state 2 [] []))) = 0"
  "wait_event TunQ timeout_wait = CondTimedwait TunQ \<lparr>tv_sec = 101, tv_nsec = 0\<rparr> ETIMEDOUT"
  by (simp_all add: wait_ok_def leaves_alone_def timeout_wait_def tun_arrival_wait_def
      sock_arrival_wait_def init_state_def emit_def queue_tun_isempty_nolock_def
      queue_sock_isempty_nolock_def signed_modulo_int_def QUEUE_SIZE_def wait_event_def)

lemma example_wait_runs:
  "waits_through_tun [timeout_wait, tun_arrival_wait]
     (emit [MutexLock TunQ] (set_mutex TunQ True (init_state 2 [] [])))"
  "queue_tun_isempty_nolock
     (waits_done TunQ [timeout_wait, tun_arrival_wait]
        (emit [MutexLock TunQ] (set_mutex TunQ True (init_state 2 [] [])))) = 0"
  "waits_through_sock [timeout_wait, sock_arrival_wait]
     (emit [MutexLock SockQ] (set_mutex SockQ True (init_state 2 [] [])))"
  "queue_sock_isempty_nolock
     (waits_done SockQ [timeout_wait, sock_arrival_wait]
        (emit [MutexLock SockQ] (set_mutex SockQ True (init_state 2 [] [])))) = 0"
  "waits_through_tun [timeout_wait]
     (emit [MutexLock TunQ] (set_mutex TunQ True (init_state 2 [] [])))"
  "queue_tun_isempty_nolock
     (waits_done TunQ [timeout_wait]
        (emit [MutexLock TunQ] (set_mutex TunQ True (init_state 2 [] [])))) \<noteq> 0"
  "\<not> wait_ok failed_wait"
  by (simp_all add: timeout_wait_def tun_arrival_wait_def sock_arrival_wait_def failed_wait_def
      wait_ok_def ETIMEDOUT_def pthread_cond_timedwait_def emit_def init_state_def
      queue_tun_isempty_nolock_def queue_sock_isempty_nolock_def signed_modulo_int_def
      QUEUE_SIZE_def)

lemma example_wait_traces:
  "trace (pthread_mutex_unlock TunQ
     (waits_done TunQ [timeout_wait, tun_arrival_wait]
        (emit [MutexLock TunQ] (set_mutex TunQ True (init_state 2 [] []))))) =
     [MutexLock TunQ,
      CondTimedwait TunQ \<lparr>tv_sec = 101, tv_nsec = 0\<rparr> ETIMEDOUT,
      CondTimedwait TunQ \<lparr>tv_sec = 101, tv_nsec = 0\<rparr> 0,
      MutexUnlock TunQ]"
  "trace (emit [Tspslog ''Conditional wait error'', Exit 1]
     (waits_done TunQ ([timeout_wait] @ [failed_wait])
        (emit [MutexLock TunQ] (set_mutex TunQ True (init_state 2 [] []))))) =
     [MutexLock TunQ,
      CondTimedwait TunQ \<lparr>tv_sec = 101, tv_nsec = 0\<rparr> ETIMEDOUT,
      CondTimedwait TunQ \<lparr>tv_sec = 101, tv_nsec = 0\<rparr> 22,
      Tspslog ''Conditional wait error'', Exit 1]"
  by (simp_all add: timeout_wait_def tun_arrival_wait_def failed_wait_def
      pthread_cond_timedwait_def pthread_mutex_unlock_def emit_def init_state_def)

subsection \<open>Well-formed states stay well-formed\<close>

text \<open>Every operation keeps states well-formed, however it ends, so the hypothesis
  \<open>wf_state\<close> of the theorems below holds of every state the program reaches from
  \<open>init_state\<close> through these operations.\<close>

lemma wf_frame:
  "wf_state (emit es s) = wf_state s"
  "wf_state (set_mutex q b s) = wf_state s"
  "wf_state (pthread_mutex_unlock q s) = wf_state s"
  "wf_state (pthread_cond_signal q s) = wf_state s"
  "wf_state (tspslog msg s) = wf_state s"
  "wf_state (set_errno r s) = wf_state s"
  by (cases q; simp add: wf_state_def emit_def pthread_mutex_unlock_def
      pthread_cond_signal_def tspslog_def set_errno_def)+

lemma wf_lock: "pthread_mutex_lock q s = Some s1 \<Longrightarrow> wf_state s1 = wf_state s"
  by (auto simp: pthread_mutex_lock_def wf_frame split: if_splits)

lemma wf_and_then:
  assumes "wf_state (final_state x)"
    and "\<And>a s. x = Returned a s \<Longrightarrow> wf_state s \<Longrightarrow> wf_state (final_state (k a s))"
  shows "wf_state (final_state (and_then x k))"
  using assms by (cases x) simp_all

lemma wf_read_slot_tun: "wf_state s \<Longrightarrow> wf_state (read_into_tun_slot p r s)"
  by (simp add: read_into_tun_slot_def wf_frame)
     (simp add: wf_state_def set_errno_def)

lemma wf_recv_slot_sock: "wf_state s \<Longrightarrow> wf_state (recvfrom_into_sock_slot p r s)"
  by (simp add: recvfrom_into_sock_slot_def wf_frame)
     (simp add: wf_state_def set_errno_def split: option.split)

lemma wf_read_dummy_tun: "wf_state s \<Longrightarrow> wf_state (read_into_dummy_tun r s)"
  by (simp add: read_into_dummy_tun_def wf_frame)
     (simp add: wf_state_def set_errno_def)

lemma wf_recv_dummy_sock: "wf_state s \<Longrightarrow> wf_state (recvfrom_into_dummy_sock r s)"
  by (simp add: recvfrom_into_dummy_sock_def wf_frame)
     (simp add: wf_state_def set_errno_def)

lemma wf_enqueue_tun_loop:
  "wf_state s \<Longrightarrow> wf_state (final_state (enqueue_tun_loop p rs s))"
  by (induction rs arbitrary: s)
     (simp_all add: Let_def exit_process_def wf_frame wf_read_slot_tun)

lemma wf_enqueue_sock_loop:
  "wf_state s \<Longrightarrow> wf_state (final_state (enqueue_sock_loop p rs s))"
  by (induction rs arbitrary: s)
     (simp_all add: Let_def exit_process_def wf_frame wf_recv_slot_sock)

lemma wf_drop_tun_loop:
  "wf_state s \<Longrightarrow> wf_state (final_state (drop_tun_loop rs s))"
  by (induction rs arbitrary: s)
     (simp_all add: Let_def exit_process_def wf_frame wf_read_dummy_tun)

lemma wf_drop_sock_loop:
  "wf_state s \<Longrightarrow> wf_state (final_state (drop_sock_loop rs s))"
  by (induction rs arbitrary: s)
     (simp_all add: Let_def exit_process_def wf_frame wf_recv_dummy_sock)

lemma wf_enqueue_tun_locked:
  "wf_state s \<Longrightarrow> wf_state (snd (enqueue_tun_locked s))"
  by (simp add: enqueue_tun_locked_def Let_def wf_state_def smod_nonneg)

lemma wf_enqueue_sock_locked:
  "wf_state s \<Longrightarrow> wf_state (snd (enqueue_sock_locked s))"
  by (simp add: enqueue_sock_locked_def Let_def wf_state_def smod_nonneg)

lemma wf_dequeue_tun_locked:
  "wf_state s \<Longrightarrow> wf_state (snd (dequeue_tun_locked s))"
  by (simp add: dequeue_tun_locked_def Let_def wf_state_def smod_nonneg)
     (simp add: QUEUE_SIZE_def mod_ge_minus_one)

lemma wf_dequeue_sock_locked:
  "wf_state s \<Longrightarrow> wf_state (snd (dequeue_sock_locked s))"
  by (simp add: dequeue_sock_locked_def Let_def wf_state_def smod_nonneg)
     (simp add: QUEUE_SIZE_def mod_ge_minus_one)

lemma wf_enqueue_tun_reserve:
  "wf_state s \<Longrightarrow> wf_state (final_state (enqueue_tun_reserve s))"
  using wf_enqueue_tun_locked wf_lock
  by (fastforce simp: enqueue_tun_reserve_def wf_frame split: option.split prod.split)

lemma wf_enqueue_sock_reserve:
  "wf_state s \<Longrightarrow> wf_state (final_state (enqueue_sock_reserve s))"
  using wf_enqueue_sock_locked wf_lock
  by (fastforce simp: enqueue_sock_reserve_def wf_frame split: option.split prod.split)

lemma wf_dequeue_tun_claim:
  "wf_state s \<Longrightarrow> wf_state (final_state (dequeue_tun_claim s))"
  using wf_dequeue_tun_locked wf_lock
  by (fastforce simp: dequeue_tun_claim_def wf_frame split: option.split prod.split)

lemma wf_dequeue_sock_claim:
  "wf_state s \<Longrightarrow> wf_state (final_state (dequeue_sock_claim s))"
  using wf_dequeue_sock_locked wf_lock
  by (fastforce simp: dequeue_sock_claim_def wf_frame split: option.split prod.split)

lemma wf_state_preserved:
  assumes "wf_state s"
  shows "wf_state (final_state (enqueue_tun s))"
    and "wf_state (final_state (enqueue_sock s))"
    and "wf_state (final_state (drop_tun s))"
    and "wf_state (final_state (drop_sock s))"
    and "wf_state (final_state (dequeue_tun s))"
    and "wf_state (final_state (dequeue_sock s))"
proof -
  show "wf_state (final_state (enqueue_tun s))"
    unfolding enqueue_tun_def
  proof (rule wf_and_then [OF wf_enqueue_tun_reserve [OF assms]])
    fix a s1
    assume "enqueue_tun_reserve s = Returned a s1" and w: "wf_state s1"
    show "wf_state (final_state (case a of None \<Rightarrow> Returned () s1
              | Some ptr \<Rightarrow> and_then (enqueue_tun_fill ptr s1) (\<lambda>_. enqueue_tun_signal)))"
    proof (cases a)
      case None
      then show ?thesis using w by simp
    next
      case (Some ptr)
      have "wf_state (final_state (enqueue_tun_fill ptr s1))"
        using w by (simp add: enqueue_tun_fill_def wf_enqueue_tun_loop)
      then show ?thesis
        unfolding Some option.case
        by (rule wf_and_then) (simp add: enqueue_tun_signal_def wf_frame)
    qed
  qed
  show "wf_state (final_state (enqueue_sock s))"
    unfolding enqueue_sock_def
  proof (rule wf_and_then [OF wf_enqueue_sock_reserve [OF assms]])
    fix a s1
    assume "enqueue_sock_reserve s = Returned a s1" and w: "wf_state s1"
    show "wf_state (final_state (case a of None \<Rightarrow> Returned () s1
              | Some ptr \<Rightarrow> and_then (enqueue_sock_fill ptr s1) (\<lambda>_. enqueue_sock_signal)))"
    proof (cases a)
      case None
      then show ?thesis using w by simp
    next
      case (Some ptr)
      have "wf_state (final_state (enqueue_sock_fill ptr s1))"
        using w by (simp add: enqueue_sock_fill_def wf_enqueue_sock_loop)
      then show ?thesis
        unfolding Some option.case
        by (rule wf_and_then) (simp add: enqueue_sock_signal_def wf_frame)
    qed
  qed
  show "wf_state (final_state (drop_tun s))"
    unfolding drop_tun_def by (rule wf_drop_tun_loop [OF assms])
  show "wf_state (final_state (drop_sock s))"
    unfolding drop_sock_def by (rule wf_drop_sock_loop [OF assms])
  show "wf_state (final_state (dequeue_tun s))"
    unfolding dequeue_tun_def
  proof (rule wf_and_then [OF wf_dequeue_tun_claim [OF assms]])
    fix a s1
    assume "dequeue_tun_claim s = Returned a s1" and w: "wf_state s1"
    from w show "wf_state (final_state (case a of None \<Rightarrow> Returned () s1
              | Some ptr \<Rightarrow> dequeue_tun_process ptr s1))"
      by (simp add: dequeue_tun_process_def wf_frame split: option.split)
  qed
  show "wf_state (final_state (dequeue_sock s))"
    unfolding dequeue_sock_def
  proof (rule wf_and_then [OF wf_dequeue_sock_claim [OF assms]])
    fix a s1
    assume "dequeue_sock_claim s = Returned a s1" and w: "wf_state s1"
    from w show "wf_state (final_state (case a of None \<Rightarrow> Returned () s1
              | Some ptr \<Rightarrow> dequeue_sock_process ptr s1))"
      by (simp add: dequeue_sock_process_def wf_frame split: option.split)
  qed
qed

subsection \<open>The full and empty tests\<close>

lemma isfull_tun:
  "\<not> lock_tunqueue s \<Longrightarrow>
   queue_tun_isfull s = Returned (of_bool (freeptr_tun s = curptr_tun s))
      (emit [MutexLock TunQ, MutexUnlock TunQ] s)"
  by (simp add: queue_tun_isfull_def prim_defs)

lemma isfull_sock:
  "\<not> lock_sockqueue s \<Longrightarrow>
   queue_sock_isfull s = Returned (of_bool (freeptr_sock s = curptr_sock s))
      (emit [MutexLock SockQ, MutexUnlock SockQ] s)"
  by (simp add: queue_sock_isfull_def prim_defs)

lemma isempty_tun:
  "-1 \<le> curptr_tun s \<Longrightarrow> \<not> lock_tunqueue s \<Longrightarrow>
   queue_tun_isempty s = Returned (of_bool ((curptr_tun s + 1) mod QUEUE_SIZE = freeptr_tun s))
      (emit [MutexLock TunQ, MutexUnlock TunQ] s)"
  by (simp add: queue_tun_isempty_def queue_tun_isempty_nolock_def smod_nonneg prim_defs)

lemma isempty_sock:
  "-1 \<le> curptr_sock s \<Longrightarrow> \<not> lock_sockqueue s \<Longrightarrow>
   queue_sock_isempty s = Returned (of_bool ((curptr_sock s + 1) mod QUEUE_SIZE = freeptr_sock s))
      (emit [MutexLock SockQ, MutexUnlock SockQ] s)"
  by (simp add: queue_sock_isempty_def queue_sock_isempty_nolock_def smod_nonneg prim_defs)

lemma isfull_tun_under: "queue_tun_isfull s = observed_under_lock TunQ (\<lambda>t. freeptr_tun t = curptr_tun t) s"
  by (simp add: queue_tun_isfull_def observed_under_lock_def Let_def split: option.split)

lemma isfull_sock_under: "queue_sock_isfull s = observed_under_lock SockQ (\<lambda>t. freeptr_sock t = curptr_sock t) s"
  by (simp add: queue_sock_isfull_def observed_under_lock_def Let_def split: option.split)

lemma isempty_tun_under: "-1 \<le> curptr_tun s \<Longrightarrow>
  queue_tun_isempty s = observed_under_lock TunQ (\<lambda>t. (curptr_tun t + 1) mod QUEUE_SIZE = freeptr_tun t) s"
  by (simp add: queue_tun_isempty_def observed_under_lock_def queue_tun_isempty_nolock_def
      smod_nonneg prim_defs)

lemma isempty_sock_under: "-1 \<le> curptr_sock s \<Longrightarrow>
  queue_sock_isempty s = observed_under_lock SockQ (\<lambda>t. (curptr_sock t + 1) mod QUEUE_SIZE = freeptr_sock t) s"
  by (simp add: queue_sock_isempty_def observed_under_lock_def queue_sock_isempty_nolock_def
      smod_nonneg prim_defs)

text \<open>
  C5. With the queue's mutex free, queue_tun_isfull and queue_sock_isfull return true
  exactly when the write cursor (freeptr) equals the read cursor (curptr), and
  queue_tun_isempty and queue_sock_isempty return true exactly when
  (curptr + 1) mod QUEUE_SIZE equals freeptr; each evaluates its condition between
  taking and releasing that queue's mutex and changes nothing but the trace.
\<close>

theorem isfull_isempty_under_lock:
  assumes "wf_state s" and "\<not> lock_tunqueue s" and "\<not> lock_sockqueue s"
  shows "queue_tun_isfull s = observed_under_lock TunQ (\<lambda>t. freeptr_tun t = curptr_tun t) s \<and>
         queue_sock_isfull s = observed_under_lock SockQ (\<lambda>t. freeptr_sock t = curptr_sock t) s \<and>
         queue_tun_isempty s =
           observed_under_lock TunQ (\<lambda>t. (curptr_tun t + 1) mod QUEUE_SIZE = freeptr_tun t) s \<and>
         queue_sock_isempty s =
           observed_under_lock SockQ (\<lambda>t. (curptr_sock t + 1) mod QUEUE_SIZE = freeptr_sock t) s \<and>
         queue_tun_isfull s =
           Returned (of_bool (freeptr_tun s = curptr_tun s))
             (emit [MutexLock TunQ, MutexUnlock TunQ] s) \<and>
         queue_sock_isfull s =
           Returned (of_bool (freeptr_sock s = curptr_sock s))
             (emit [MutexLock SockQ, MutexUnlock SockQ] s) \<and>
         queue_tun_isempty s =
           Returned (of_bool ((curptr_tun s + 1) mod QUEUE_SIZE = freeptr_tun s))
             (emit [MutexLock TunQ, MutexUnlock TunQ] s) \<and>
         queue_sock_isempty s =
           Returned (of_bool ((curptr_sock s + 1) mod QUEUE_SIZE = freeptr_sock s))
             (emit [MutexLock SockQ, MutexUnlock SockQ] s)"
proof -
  from assms(1) have c: "-1 \<le> curptr_tun s" "-1 \<le> curptr_sock s"
    by (simp_all add: wf_state_def)
  show ?thesis
    using isfull_tun_under [of s] isfull_sock_under [of s]
      isempty_tun_under [OF c(1)] isempty_sock_under [OF c(2)]
      isfull_tun [OF assms(2)] isfull_sock [OF assms(3)]
      isempty_tun [OF c(1) assms(2)] isempty_sock [OF c(2) assms(3)]
    by blast
qed

text \<open>At start the tunnel queue is not full and the socket queue is empty.\<close>

theorem isfull_isempty_under_lock_witness:
  "wf_state (init_state 2 [] []) \<and> \<not> lock_tunqueue (init_state 2 [] []) \<and>
   \<not> lock_sockqueue (init_state 2 [] []) \<and>
   queue_tun_isfull (init_state 2 [] []) =
     Returned 0 (emit [MutexLock TunQ, MutexUnlock TunQ] (init_state 2 [] [])) \<and>
   queue_sock_isempty (init_state 2 [] []) =
     Returned 1 (emit [MutexLock SockQ, MutexUnlock SockQ] (init_state 2 [] []))"
proof -
  have l: "\<not> lock_tunqueue (init_state 2 [] [])" "\<not> lock_sockqueue (init_state 2 [] [])"
    by (simp_all add: init_state_def)
  have v: "freeptr_tun (init_state 2 [] []) = 0" "curptr_tun (init_state 2 [] []) = -1"
    "freeptr_sock (init_state 2 [] []) = 0" "curptr_sock (init_state 2 [] []) = -1"
    by (simp_all add: init_state_def)
  note t = isfull_isempty_under_lock [OF wf_init l]
  from t have a: "queue_tun_isfull (init_state 2 [] []) =
      Returned (of_bool (freeptr_tun (init_state 2 [] []) = curptr_tun (init_state 2 [] [])))
        (emit [MutexLock TunQ, MutexUnlock TunQ] (init_state 2 [] []))"
    by blast
  from t have b: "queue_sock_isempty (init_state 2 [] []) =
      Returned (of_bool ((curptr_sock (init_state 2 [] []) + 1) mod QUEUE_SIZE =
                  freeptr_sock (init_state 2 [] [])))
        (emit [MutexLock SockQ, MutexUnlock SockQ] (init_state 2 [] []))"
    by blast
  show ?thesis
    using a b l wf_init [of 2 "[]" "[]"] by (simp add: v QUEUE_SIZE_def)
qed

subsection \<open>Reserving a slot\<close>

lemma reserve_tun_full:
  "\<not> lock_tunqueue s \<Longrightarrow> freeptr_tun s = curptr_tun s \<Longrightarrow>
   enqueue_tun_reserve s = Returned None (emit [MutexLock TunQ, MutexUnlock TunQ] s)"
  by (simp add: enqueue_tun_reserve_def enqueue_tun_locked_def prim_defs)

lemma reserve_tun_free:
  "\<not> lock_tunqueue s \<Longrightarrow> freeptr_tun s \<noteq> curptr_tun s \<Longrightarrow> 0 \<le> freeptr_tun s \<Longrightarrow>
   freeptr_tun s < QUEUE_SIZE \<Longrightarrow>
   enqueue_tun_reserve s = Returned (Some (freeptr_tun s))
     (pthread_mutex_unlock TunQ
        ((emit [MutexLock TunQ] s)\<lparr>lock_tunqueue := True,
            freeptr_tun := (freeptr_tun s + 1) mod QUEUE_SIZE\<rparr>))"
  by (simp add: enqueue_tun_reserve_def enqueue_tun_locked_def prim_defs Let_def smod_nonneg)

lemma enqueue_tun_full:
  "\<not> lock_tunqueue s \<Longrightarrow> freeptr_tun s = curptr_tun s \<Longrightarrow>
   enqueue_tun s = Returned () (emit [MutexLock TunQ, MutexUnlock TunQ] s)"
  by (simp add: enqueue_tun_def reserve_tun_full)

lemma reserve_sock_full:
  "\<not> lock_sockqueue s \<Longrightarrow> freeptr_sock s = curptr_sock s \<Longrightarrow>
   enqueue_sock_reserve s = Returned None (emit [MutexLock SockQ, MutexUnlock SockQ] s)"
  by (simp add: enqueue_sock_reserve_def enqueue_sock_locked_def prim_defs)

lemma reserve_sock_free:
  "\<not> lock_sockqueue s \<Longrightarrow> freeptr_sock s \<noteq> curptr_sock s \<Longrightarrow> 0 \<le> freeptr_sock s \<Longrightarrow>
   freeptr_sock s < QUEUE_SIZE \<Longrightarrow>
   enqueue_sock_reserve s = Returned (Some (freeptr_sock s))
     (pthread_mutex_unlock SockQ
        ((emit [MutexLock SockQ] s)\<lparr>lock_sockqueue := True,
            freeptr_sock := (freeptr_sock s + 1) mod QUEUE_SIZE\<rparr>))"
  by (simp add: enqueue_sock_reserve_def enqueue_sock_locked_def prim_defs Let_def smod_nonneg)

lemma enqueue_sock_full:
  "\<not> lock_sockqueue s \<Longrightarrow> freeptr_sock s = curptr_sock s \<Longrightarrow>
   enqueue_sock s = Returned () (emit [MutexLock SockQ, MutexUnlock SockQ] s)"
  by (simp add: enqueue_sock_def reserve_sock_full)

subsection \<open>Claiming a slot\<close>

lemma claim_tun_empty:
  "\<not> lock_tunqueue s \<Longrightarrow> -1 \<le> curptr_tun s \<Longrightarrow>
   (curptr_tun s + 1) mod QUEUE_SIZE = freeptr_tun s \<Longrightarrow>
   dequeue_tun_claim s = Returned None (emit [MutexLock TunQ, MutexUnlock TunQ] s)"
  by (simp add: dequeue_tun_claim_def dequeue_tun_locked_def queue_tun_isempty_nolock_def
      smod_nonneg prim_defs)

lemma claim_tun_item:
  "\<not> lock_tunqueue s \<Longrightarrow> -1 \<le> curptr_tun s \<Longrightarrow>
   (curptr_tun s + 1) mod QUEUE_SIZE \<noteq> freeptr_tun s \<Longrightarrow>
   dequeue_tun_claim s = Returned (Some ((curptr_tun s + 1) mod QUEUE_SIZE))
     (pthread_mutex_unlock TunQ
        ((emit [MutexLock TunQ] s)\<lparr>lock_tunqueue := True,
            curptr_tun := (curptr_tun s + 1) mod QUEUE_SIZE\<rparr>))"
  by (simp add: dequeue_tun_claim_def dequeue_tun_locked_def queue_tun_isempty_nolock_def
      smod_nonneg prim_defs Let_def)

lemma dequeue_tun_empty:
  "\<not> lock_tunqueue s \<Longrightarrow> -1 \<le> curptr_tun s \<Longrightarrow>
   (curptr_tun s + 1) mod QUEUE_SIZE = freeptr_tun s \<Longrightarrow>
   dequeue_tun s = Returned () (emit [MutexLock TunQ, MutexUnlock TunQ] s)"
  by (simp add: dequeue_tun_def claim_tun_empty)

lemma dequeue_tun_item:
  "\<not> lock_tunqueue s \<Longrightarrow> -1 \<le> curptr_tun s \<Longrightarrow>
   (curptr_tun s + 1) mod QUEUE_SIZE \<noteq> freeptr_tun s \<Longrightarrow>
   dequeue_tun s = Returned ()
     (emit [MutexLock TunQ, MutexUnlock TunQ,
            ProcessTunPacket (queue_tun s ! nat ((curptr_tun s + 1) mod QUEUE_SIZE))
              (length_tun s ! nat ((curptr_tun s + 1) mod QUEUE_SIZE))]
        (s\<lparr>curptr_tun := (curptr_tun s + 1) mod QUEUE_SIZE\<rparr>))"
  by (simp add: dequeue_tun_def claim_tun_item dequeue_tun_process_def in_array_mod)
     (simp add: prim_defs)

lemma claim_sock_empty:
  "\<not> lock_sockqueue s \<Longrightarrow> -1 \<le> curptr_sock s \<Longrightarrow>
   (curptr_sock s + 1) mod QUEUE_SIZE = freeptr_sock s \<Longrightarrow>
   dequeue_sock_claim s = Returned None (emit [MutexLock SockQ, MutexUnlock SockQ] s)"
  by (simp add: dequeue_sock_claim_def dequeue_sock_locked_def queue_sock_isempty_nolock_def
      smod_nonneg prim_defs)

lemma claim_sock_item:
  "\<not> lock_sockqueue s \<Longrightarrow> -1 \<le> curptr_sock s \<Longrightarrow>
   (curptr_sock s + 1) mod QUEUE_SIZE \<noteq> freeptr_sock s \<Longrightarrow>
   dequeue_sock_claim s = Returned (Some ((curptr_sock s + 1) mod QUEUE_SIZE))
     (pthread_mutex_unlock SockQ
        ((emit [MutexLock SockQ] s)\<lparr>lock_sockqueue := True,
            curptr_sock := (curptr_sock s + 1) mod QUEUE_SIZE\<rparr>))"
  by (simp add: dequeue_sock_claim_def dequeue_sock_locked_def queue_sock_isempty_nolock_def
      smod_nonneg prim_defs Let_def)

lemma dequeue_sock_empty:
  "\<not> lock_sockqueue s \<Longrightarrow> -1 \<le> curptr_sock s \<Longrightarrow>
   (curptr_sock s + 1) mod QUEUE_SIZE = freeptr_sock s \<Longrightarrow>
   dequeue_sock s = Returned () (emit [MutexLock SockQ, MutexUnlock SockQ] s)"
  by (simp add: dequeue_sock_def claim_sock_empty)

lemma dequeue_sock_item:
  "\<not> lock_sockqueue s \<Longrightarrow> -1 \<le> curptr_sock s \<Longrightarrow>
   (curptr_sock s + 1) mod QUEUE_SIZE \<noteq> freeptr_sock s \<Longrightarrow>
   dequeue_sock s = Returned ()
     (emit [MutexLock SockQ, MutexUnlock SockQ,
            ProcessSockPacket (client_addr s ! nat ((curptr_sock s + 1) mod QUEUE_SIZE))
              (queue_sock s ! nat ((curptr_sock s + 1) mod QUEUE_SIZE))
              (length_sock s ! nat ((curptr_sock s + 1) mod QUEUE_SIZE))]
        (s\<lparr>curptr_sock := (curptr_sock s + 1) mod QUEUE_SIZE\<rparr>))"
  by (simp add: dequeue_sock_def claim_sock_item dequeue_sock_process_def in_array_mod)
     (simp add: prim_defs)

text \<open>
  C7. dequeue_tun and dequeue_sock, mutex free at entry: when the queue is empty they
  return without calling the packet processor; otherwise they take slot
  (curptr + 1) mod QUEUE_SIZE, set curptr to it with the mutex held, release the mutex
  and then call the processor once, with that slot's buffer and recorded length (and,
  for the socket, the stored sender address).
\<close>

theorem dequeue_claims_next_slot:
  assumes "wf_state s" and "\<not> lock_tunqueue s" and "\<not> lock_sockqueue s"
  shows "(let p = (curptr_tun s + 1) mod QUEUE_SIZE in
          if p = freeptr_tun s
          then dequeue_tun_claim s =
                 Returned None (emit [MutexLock TunQ, MutexUnlock TunQ] s) \<and>
               dequeue_tun s = Returned () (emit [MutexLock TunQ, MutexUnlock TunQ] s)
          else dequeue_tun_claim s =
                 Returned (Some p)
                   (pthread_mutex_unlock TunQ
                      ((emit [MutexLock TunQ] s)\<lparr>lock_tunqueue := True, curptr_tun := p\<rparr>)) \<and>
               dequeue_tun s =
                 Returned ()
                   (emit [MutexLock TunQ, MutexUnlock TunQ,
                          ProcessTunPacket (queue_tun s ! nat p) (length_tun s ! nat p)]
                      (s\<lparr>curptr_tun := p\<rparr>))) \<and>
         (let p = (curptr_sock s + 1) mod QUEUE_SIZE in
          if p = freeptr_sock s
          then dequeue_sock_claim s =
                 Returned None (emit [MutexLock SockQ, MutexUnlock SockQ] s) \<and>
               dequeue_sock s = Returned () (emit [MutexLock SockQ, MutexUnlock SockQ] s)
          else dequeue_sock_claim s =
                 Returned (Some p)
                   (pthread_mutex_unlock SockQ
                      ((emit [MutexLock SockQ] s)\<lparr>lock_sockqueue := True, curptr_sock := p\<rparr>)) \<and>
               dequeue_sock s =
                 Returned ()
                   (emit [MutexLock SockQ, MutexUnlock SockQ,
                          ProcessSockPacket (client_addr s ! nat p) (queue_sock s ! nat p)
                            (length_sock s ! nat p)]
                      (s\<lparr>curptr_sock := p\<rparr>)))"
proof -
  from assms(1) have c: "-1 \<le> curptr_tun s" "-1 \<le> curptr_sock s"
    by (simp_all add: wf_state_def)
  show ?thesis
    unfolding Let_def if_bool_eq_conj
    using claim_tun_empty [OF assms(2) c(1)] claim_tun_item [OF assms(2) c(1)]
      dequeue_tun_empty [OF assms(2) c(1)] dequeue_tun_item [OF assms(2) c(1)]
      claim_sock_empty [OF assms(3) c(2)] claim_sock_item [OF assms(3) c(2)]
      dequeue_sock_empty [OF assms(3) c(2)] dequeue_sock_item [OF assms(3) c(2)]
    by blast
qed

text \<open>The empty tunnel queue gives nothing; the socket queue with slot 0 reserved gives
  slot 0 to process_sock_packet.\<close>

theorem dequeue_claims_next_slot_witness:
  "wf_state sock_one_state \<and> \<not> lock_tunqueue sock_one_state \<and>
   \<not> lock_sockqueue sock_one_state \<and>
   dequeue_tun sock_one_state =
     Returned () (emit [MutexLock TunQ, MutexUnlock TunQ] sock_one_state) \<and>
   dequeue_sock_claim sock_one_state =
     Returned (Some 0)
       (pthread_mutex_unlock SockQ
          ((emit [MutexLock SockQ] sock_one_state)\<lparr>lock_sockqueue := True,
             curptr_sock := 0\<rparr>)) \<and>
   dequeue_sock sock_one_state =
     Returned ()
       (emit [MutexLock SockQ, MutexUnlock SockQ, ProcessSockPacket zero_addr [0, 0] 0]
          (sock_one_state\<lparr>curptr_sock := 0\<rparr>))"
  using dequeue_claims_next_slot [OF sock_one_state_facts(1,2,3)] sock_one_state_facts(1,2,3)
  by (simp add: sock_one_state_facts(4-10) QUEUE_SIZE_def)

subsection \<open>Reading with retry\<close>

lemma decisive_Nil [simp]: "decisive [] = None"
  by (simp add: decisive_def)

lemma decisive_Cons [simp]:
  "decisive (r # rs) = (if transient r then decisive rs else Some r)"
  by (simp add: decisive_def)

lemma retried_Nil [simp]: "retried [] = []"
  by (simp add: retried_def)

lemma retried_Cons [simp]:
  "retried (r # rs) = (if transient r then r # retried rs else [])"
  by (simp add: retried_def)

lemma fatal_not_transient: "fatal r \<Longrightarrow> \<not> transient r"
  by (simp add: transient_def)

lemma fatal_not_packet: "fatal r \<Longrightarrow> \<not> 0 < io_ret r"
  by (simp add: fatal_def)

lemma not_transient_cases: "\<not> transient r \<Longrightarrow> \<not> fatal r \<Longrightarrow> 0 < io_ret r"
  by (simp add: transient_def)

lemma read_dummy_tun_effect:
  "tun_in (read_into_dummy_tun r s) = tl (tun_in s)"
  "trace (read_into_dummy_tun r s) = trace s @ [ReadTun (io_ret r)]"
  by (simp_all add: read_into_dummy_tun_def emit_def set_errno_def)

lemma recv_dummy_sock_effect:
  "sock_in (recvfrom_into_dummy_sock r s) = tl (sock_in s)"
  "trace (recvfrom_into_dummy_sock r s) = trace s @ [RecvfromSock (io_ret r)]"
  by (simp_all add: recvfrom_into_dummy_sock_def emit_def set_errno_def)

lemma read_slot_tun_effect:
  "trace (read_into_tun_slot p r s) = trace s @ [ReadTun (io_ret r)]"
  "length (length_tun (read_into_tun_slot p r s)) = length (length_tun s)"
  "p < length (length_tun s) \<Longrightarrow> length_tun (read_into_tun_slot p r s) ! p = io_ret r"
  "io_ret r = -1 \<Longrightarrow> errno (read_into_tun_slot p r s) = io_errno r"
  by (simp_all add: read_into_tun_slot_def emit_def set_errno_def)

lemma recv_slot_sock_effect:
  "trace (recvfrom_into_sock_slot p r s) = trace s @ [RecvfromSock (io_ret r)]"
  "length (length_sock (recvfrom_into_sock_slot p r s)) = length (length_sock s)"
  "p < length (length_sock s) \<Longrightarrow> length_sock (recvfrom_into_sock_slot p r s) ! p = io_ret r"
  "io_ret r = -1 \<Longrightarrow> errno (recvfrom_into_sock_slot p r s) = io_errno r"
  by (simp_all add: recvfrom_into_sock_slot_def emit_def set_errno_def)

text \<open>One pass of each loop, by the kind of the answer.\<close>

lemma drop_tun_loop_step:
  "drop_tun_loop (r # rs) s =
     (if fatal r
      then Exited (emit [Tspslog ''Read error'', Exit EXIT_FAILURE] (read_into_dummy_tun r s))
      else if transient r then drop_tun_loop rs (read_into_dummy_tun r s)
      else Returned () (read_into_dummy_tun r s))"
  by (auto simp: Let_def fatal_def transient_def read_into_dummy_tun_def set_errno_def
      emit_def exit_process_def tspslog_def)

lemma drop_sock_loop_step:
  "drop_sock_loop (r # rs) s =
     (if fatal r
      then Exited (emit [Tspslog ''Read error'', Exit EXIT_FAILURE]
                     (recvfrom_into_dummy_sock r s))
      else if transient r then drop_sock_loop rs (recvfrom_into_dummy_sock r s)
      else Returned () (recvfrom_into_dummy_sock r s))"
  by (auto simp: Let_def fatal_def transient_def recvfrom_into_dummy_sock_def set_errno_def
      emit_def exit_process_def tspslog_def)

lemma enqueue_tun_loop_step:
  "p < length (length_tun s) \<Longrightarrow>
   enqueue_tun_loop p (r # rs) s =
     (if fatal r
      then Exited (emit [Tspslog ''Read error'', Exit EXIT_FAILURE] (read_into_tun_slot p r s))
      else if transient r then enqueue_tun_loop p rs (read_into_tun_slot p r s)
      else Returned () (read_into_tun_slot p r s))"
  by (auto simp: Let_def fatal_def transient_def read_slot_tun_effect
      emit_def exit_process_def tspslog_def)

lemma enqueue_sock_loop_step:
  "p < length (length_sock s) \<Longrightarrow>
   enqueue_sock_loop p (r # rs) s =
     (if fatal r
      then Exited (emit [Tspslog ''Recvfrom error'', Exit EXIT_FAILURE]
                     (recvfrom_into_sock_slot p r s))
      else if transient r then enqueue_sock_loop p rs (recvfrom_into_sock_slot p r s)
      else Returned () (recvfrom_into_sock_slot p r s))"
  by (auto simp: Let_def fatal_def transient_def recv_slot_sock_effect
      emit_def exit_process_def tspslog_def)

text \<open>Each loop as a whole.\<close>

lemma drop_tun_loop_outcome:
  "is_Exited (drop_tun_loop rs s) = first_is_fatal rs \<and>
   is_Returned (drop_tun_loop rs s) = first_is_packet rs \<and>
   trace (final_state (drop_tun_loop rs s)) = trace s @ read_loop_trace ReadTun ''Read error'' rs"
proof (induction rs arbitrary: s)
  case Nil
  show ?case by (simp add: first_is_fatal_def first_is_packet_def read_loop_trace_def)
next
  case (Cons r rs)
  show ?case
    by (simp only: drop_tun_loop_step)
       (auto simp: Cons.IH first_is_fatal_def first_is_packet_def read_loop_trace_def
          read_dummy_tun_effect emit_def fatal_not_transient fatal_not_packet
          not_transient_cases)
qed

lemma drop_sock_loop_outcome:
  "is_Exited (drop_sock_loop rs s) = first_is_fatal rs \<and>
   is_Returned (drop_sock_loop rs s) = first_is_packet rs \<and>
   trace (final_state (drop_sock_loop rs s)) =
     trace s @ read_loop_trace RecvfromSock ''Read error'' rs"
proof (induction rs arbitrary: s)
  case Nil
  show ?case by (simp add: first_is_fatal_def first_is_packet_def read_loop_trace_def)
next
  case (Cons r rs)
  show ?case
    by (simp only: drop_sock_loop_step)
       (auto simp: Cons.IH first_is_fatal_def first_is_packet_def read_loop_trace_def
          recv_dummy_sock_effect emit_def fatal_not_transient fatal_not_packet
          not_transient_cases)
qed

lemma enqueue_tun_loop_outcome:
  "p < length (length_tun s) \<Longrightarrow>
   is_Exited (enqueue_tun_loop p rs s) = first_is_fatal rs \<and>
   is_Returned (enqueue_tun_loop p rs s) = first_is_packet rs \<and>
   trace (final_state (enqueue_tun_loop p rs s)) =
     trace s @ read_loop_trace ReadTun ''Read error'' rs \<and>
   (if first_is_packet rs then 0 < length_tun (final_state (enqueue_tun_loop p rs s)) ! p
    else True)"
proof (induction rs arbitrary: s)
  case Nil
  show ?case by (simp add: first_is_fatal_def first_is_packet_def read_loop_trace_def)
next
  case (Cons r rs)
  have len: "p < length (length_tun (read_into_tun_slot p r s))"
    using Cons.prems by (simp add: read_slot_tun_effect)
  show ?case
    using Cons.prems
    by (simp only: enqueue_tun_loop_step [OF Cons.prems])
       (auto simp: Cons.IH [OF len] first_is_fatal_def first_is_packet_def read_loop_trace_def
          read_slot_tun_effect emit_def fatal_not_transient fatal_not_packet
          not_transient_cases)
qed

lemma enqueue_sock_loop_outcome:
  "p < length (length_sock s) \<Longrightarrow>
   is_Exited (enqueue_sock_loop p rs s) = first_is_fatal rs \<and>
   is_Returned (enqueue_sock_loop p rs s) = first_is_packet rs \<and>
   trace (final_state (enqueue_sock_loop p rs s)) =
     trace s @ read_loop_trace RecvfromSock ''Recvfrom error'' rs \<and>
   (if first_is_packet rs then 0 < length_sock (final_state (enqueue_sock_loop p rs s)) ! p
    else True)"
proof (induction rs arbitrary: s)
  case Nil
  show ?case by (simp add: first_is_fatal_def first_is_packet_def read_loop_trace_def)
next
  case (Cons r rs)
  have len: "p < length (length_sock (recvfrom_into_sock_slot p r s))"
    using Cons.prems by (simp add: recv_slot_sock_effect)
  show ?case
    using Cons.prems
    by (simp only: enqueue_sock_loop_step [OF Cons.prems])
       (auto simp: Cons.IH [OF len] first_is_fatal_def first_is_packet_def read_loop_trace_def
          recv_slot_sock_effect emit_def fatal_not_transient fatal_not_packet
          not_transient_cases)
qed

text \<open>enqueue on a queue that is not full: the reservation, the loop, the signal.\<close>

lemma enqueue_tun_signal_fun:
  "enqueue_tun_signal = (\<lambda>s2. Returned () (emit [CondSignal TunQ] s2))"
  by (rule ext) (simp add: enqueue_tun_signal_def pthread_cond_signal_def)

lemma enqueue_sock_signal_fun:
  "enqueue_sock_signal = (\<lambda>s2. Returned () (emit [CondSignal SockQ] s2))"
  by (rule ext) (simp add: enqueue_sock_signal_def pthread_cond_signal_def)

lemma and_then_signal:
  "is_Exited (and_then x (\<lambda>_ s2. Returned () (emit es s2))) = is_Exited x \<and>
   is_Returned (and_then x (\<lambda>_ s2. Returned () (emit es s2))) = is_Returned x \<and>
   trace (final_state (and_then x (\<lambda>_ s2. Returned () (emit es s2)))) =
     trace (final_state x) @ (if is_Returned x then es else []) \<and>
   length_tun (final_state (and_then x (\<lambda>_ s2. Returned () (emit es s2)))) =
     length_tun (final_state x) \<and>
   length_sock (final_state (and_then x (\<lambda>_ s2. Returned () (emit es s2)))) =
     length_sock (final_state x)"
  by (cases x) (simp_all add: emit_def)

lemma enqueue_tun_not_full:
  assumes "wf_state s" and "\<not> lock_tunqueue s" and "freeptr_tun s \<noteq> curptr_tun s"
  shows "is_Exited (enqueue_tun s) = first_is_fatal (tun_in s) \<and>
         is_Returned (enqueue_tun s) = first_is_packet (tun_in s) \<and>
         trace (final_state (enqueue_tun s)) =
           trace s @ [MutexLock TunQ, MutexUnlock TunQ] @
           read_loop_trace ReadTun ''Read error'' (tun_in s) @
           (if first_is_packet (tun_in s) then [CondSignal TunQ] else []) \<and>
         (if first_is_packet (tun_in s)
          then 0 < length_tun (final_state (enqueue_tun s)) ! nat (freeptr_tun s)
          else True)"
proof -
  from assms(1) have r: "0 \<le> freeptr_tun s" "freeptr_tun s < QUEUE_SIZE"
    "length (length_tun s) = nat QUEUE_SIZE"
    by (simp_all add: wf_state_def)
  define s1 where "s1 = pthread_mutex_unlock TunQ
        ((emit [MutexLock TunQ] s)\<lparr>lock_tunqueue := True,
            freeptr_tun := (freeptr_tun s + 1) mod QUEUE_SIZE\<rparr>)"
  have s1: "tun_in s1 = tun_in s" "length_tun s1 = length_tun s"
    "trace s1 = trace s @ [MutexLock TunQ, MutexUnlock TunQ]"
    by (simp_all add: s1_def prim_defs)
  have p: "nat (freeptr_tun s) < length (length_tun s1)"
    using r by (simp add: s1)
  have e: "enqueue_tun s =
      and_then (enqueue_tun_loop (nat (freeptr_tun s)) (tun_in s) s1)
        (\<lambda>_ s2. Returned () (emit [CondSignal TunQ] s2))"
    using r
    by (simp add: enqueue_tun_def reserve_tun_free [OF assms(2,3) r(1,2)] s1_def [symmetric]
        enqueue_tun_fill_def in_array_def s1 enqueue_tun_signal_fun)
  show ?thesis
    using enqueue_tun_loop_outcome [OF p, of "tun_in s"]
    by (simp add: e and_then_signal s1)
qed

lemma enqueue_sock_not_full:
  assumes "wf_state s" and "\<not> lock_sockqueue s" and "freeptr_sock s \<noteq> curptr_sock s"
  shows "is_Exited (enqueue_sock s) = first_is_fatal (sock_in s) \<and>
         is_Returned (enqueue_sock s) = first_is_packet (sock_in s) \<and>
         trace (final_state (enqueue_sock s)) =
           trace s @ [MutexLock SockQ, MutexUnlock SockQ] @
           read_loop_trace RecvfromSock ''Recvfrom error'' (sock_in s) @
           (if first_is_packet (sock_in s) then [CondSignal SockQ] else []) \<and>
         (if first_is_packet (sock_in s)
          then 0 < length_sock (final_state (enqueue_sock s)) ! nat (freeptr_sock s)
          else True)"
proof -
  from assms(1) have r: "0 \<le> freeptr_sock s" "freeptr_sock s < QUEUE_SIZE"
    "length (length_sock s) = nat QUEUE_SIZE"
    by (simp_all add: wf_state_def)
  define s1 where "s1 = pthread_mutex_unlock SockQ
        ((emit [MutexLock SockQ] s)\<lparr>lock_sockqueue := True,
            freeptr_sock := (freeptr_sock s + 1) mod QUEUE_SIZE\<rparr>)"
  have s1: "sock_in s1 = sock_in s" "length_sock s1 = length_sock s"
    "trace s1 = trace s @ [MutexLock SockQ, MutexUnlock SockQ]"
    by (simp_all add: s1_def prim_defs)
  have p: "nat (freeptr_sock s) < length (length_sock s1)"
    using r by (simp add: s1)
  have e: "enqueue_sock s =
      and_then (enqueue_sock_loop (nat (freeptr_sock s)) (sock_in s) s1)
        (\<lambda>_ s2. Returned () (emit [CondSignal SockQ] s2))"
    using r
    by (simp add: enqueue_sock_def reserve_sock_free [OF assms(2,3) r(1,2)] s1_def [symmetric]
        enqueue_sock_fill_def in_array_def s1 enqueue_sock_signal_fun)
  show ?thesis
    using enqueue_sock_loop_outcome [OF p, of "sock_in s"]
    by (simp add: e and_then_signal s1)
qed

text \<open>
  C8. The read loop of drop_tun, drop_sock, enqueue_tun and enqueue_sock (the latter
  two on a queue that is not full) ends the process exactly when a read or recvfrom
  returns -1 with errno neither EAGAIN nor EINTR, and then the trace ends with that
  call, one log message and the exit, in this order. Every zero or negative answer
  before is followed by the same call again. The functions return exactly when a
  positive length comes first, and the length recorded for the slot is then positive.
\<close>

theorem read_loop_exits_iff_fatal:
  assumes "wf_state s" and "\<not> lock_tunqueue s" and "\<not> lock_sockqueue s"
  shows "is_Exited (drop_tun s) = first_is_fatal (tun_in s) \<and>
         is_Returned (drop_tun s) = first_is_packet (tun_in s) \<and>
         trace (final_state (drop_tun s)) =
           trace s @ read_loop_trace ReadTun ''Read error'' (tun_in s) \<and>
         is_Exited (drop_sock s) = first_is_fatal (sock_in s) \<and>
         is_Returned (drop_sock s) = first_is_packet (sock_in s) \<and>
         trace (final_state (drop_sock s)) =
           trace s @ read_loop_trace RecvfromSock ''Read error'' (sock_in s) \<and>
         (freeptr_tun s \<noteq> curptr_tun s \<longrightarrow>
            is_Exited (enqueue_tun s) = first_is_fatal (tun_in s) \<and>
            is_Returned (enqueue_tun s) = first_is_packet (tun_in s) \<and>
            trace (final_state (enqueue_tun s)) =
              trace s @ [MutexLock TunQ, MutexUnlock TunQ] @
              read_loop_trace ReadTun ''Read error'' (tun_in s) @
              (if first_is_packet (tun_in s) then [CondSignal TunQ] else []) \<and>
            (if first_is_packet (tun_in s)
             then 0 < length_tun (final_state (enqueue_tun s)) ! nat (freeptr_tun s)
             else True)) \<and>
         (freeptr_sock s \<noteq> curptr_sock s \<longrightarrow>
            is_Exited (enqueue_sock s) = first_is_fatal (sock_in s) \<and>
            is_Returned (enqueue_sock s) = first_is_packet (sock_in s) \<and>
            trace (final_state (enqueue_sock s)) =
              trace s @ [MutexLock SockQ, MutexUnlock SockQ] @
              read_loop_trace RecvfromSock ''Recvfrom error'' (sock_in s) @
              (if first_is_packet (sock_in s) then [CondSignal SockQ] else []) \<and>
            (if first_is_packet (sock_in s)
             then 0 < length_sock (final_state (enqueue_sock s)) ! nat (freeptr_sock s)
             else True))"
proof -
  have dt: "is_Exited (drop_tun s) = first_is_fatal (tun_in s) \<and>
         is_Returned (drop_tun s) = first_is_packet (tun_in s) \<and>
         trace (final_state (drop_tun s)) =
           trace s @ read_loop_trace ReadTun ''Read error'' (tun_in s)"
    unfolding drop_tun_def by (rule drop_tun_loop_outcome)
  have ds: "is_Exited (drop_sock s) = first_is_fatal (sock_in s) \<and>
         is_Returned (drop_sock s) = first_is_packet (sock_in s) \<and>
         trace (final_state (drop_sock s)) =
           trace s @ read_loop_trace RecvfromSock ''Read error'' (sock_in s)"
    unfolding drop_sock_def by (rule drop_sock_loop_outcome)
  show ?thesis
    using dt ds enqueue_tun_not_full [OF assms(1,2)] enqueue_sock_not_full [OF assms(1,3)]
    by blast
qed

text \<open>The tunnel answers EAGAIN, 0, EIO: three reads, one message, exit. The socket
  answers EINTR, then a packet: two calls and the function returns.\<close>

theorem read_loop_exits_iff_fatal_witness:
  "wf_state retry_state \<and> \<not> lock_tunqueue retry_state \<and> \<not> lock_sockqueue retry_state \<and>
   freeptr_tun retry_state \<noteq> curptr_tun retry_state \<and>
   freeptr_sock retry_state \<noteq> curptr_sock retry_state \<and>
   is_Exited (drop_tun retry_state) \<and>
   trace (final_state (drop_tun retry_state)) =
     [ReadTun (-1), ReadTun 0, ReadTun (-1), Tspslog ''Read error'', Exit 1] \<and>
   is_Exited (enqueue_tun retry_state) \<and>
   trace (final_state (enqueue_tun retry_state)) =
     [MutexLock TunQ, MutexUnlock TunQ, ReadTun (-1), ReadTun 0, ReadTun (-1),
      Tspslog ''Read error'', Exit 1] \<and>
   is_Returned (drop_sock retry_state) \<and>
   trace (final_state (drop_sock retry_state)) = [RecvfromSock (-1), RecvfromSock 1] \<and>
   is_Returned (enqueue_sock retry_state) \<and>
   trace (final_state (enqueue_sock retry_state)) =
     [MutexLock SockQ, MutexUnlock SockQ, RecvfromSock (-1), RecvfromSock 1,
      CondSignal SockQ] \<and>
   0 < length_sock (final_state (enqueue_sock retry_state)) ! 0"
  using read_loop_exits_iff_fatal [OF retry_state_facts(1,2,3)] retry_state_facts(1,2,3)
  by (simp add: retry_state_facts(4-10) first_is_fatal_def first_is_packet_def
      read_loop_trace_def example_answers EXIT_FAILURE_def)

subsection \<open>The slot an enqueue fills\<close>

text \<open>The read loop of enqueue changes nothing of the queues but the slot it was given.\<close>

lemma read_slot_tun_frame:
  "only_tun_slot_changed p s (read_into_tun_slot p r s)"
  by (simp add: only_tun_slot_changed_def read_into_tun_slot_def emit_def set_errno_def)

lemma recv_slot_sock_frame:
  "only_sock_slot_changed p s (recvfrom_into_sock_slot p r s)"
  by (simp add: only_sock_slot_changed_def recvfrom_into_sock_slot_def emit_def set_errno_def
      split: option.split)

lemma only_tun_slot_changed_emit:
  "only_tun_slot_changed p s (emit es t) = only_tun_slot_changed p s t"
  by (simp add: only_tun_slot_changed_def emit_def)

lemma only_sock_slot_changed_emit:
  "only_sock_slot_changed p s (emit es t) = only_sock_slot_changed p s t"
  by (simp add: only_sock_slot_changed_def emit_def)

lemma only_tun_slot_changed_trans:
  "only_tun_slot_changed p s t \<Longrightarrow> only_tun_slot_changed p t u \<Longrightarrow>
   only_tun_slot_changed p s u"
  by (simp add: only_tun_slot_changed_def)

lemma only_sock_slot_changed_trans:
  "only_sock_slot_changed p s t \<Longrightarrow> only_sock_slot_changed p t u \<Longrightarrow>
   only_sock_slot_changed p s u"
  by (simp add: only_sock_slot_changed_def)

lemma enqueue_tun_loop_frame:
  "only_tun_slot_changed p s (final_state (enqueue_tun_loop p rs s))"
proof (induction rs arbitrary: s)
  case Nil
  show ?case by (simp add: only_tun_slot_changed_def)
next
  case (Cons r rs)
  note a = read_slot_tun_frame [of p s r]
  have b: "only_tun_slot_changed p s
      (final_state (exit_process EXIT_FAILURE (tspslog ''Read error'' (read_into_tun_slot p r s))
         :: unit outcome))"
    using a by (simp add: exit_process_def tspslog_def only_tun_slot_changed_emit)
  have c: "only_tun_slot_changed p s
      (final_state (enqueue_tun_loop p rs (read_into_tun_slot p r s)))"
    by (rule only_tun_slot_changed_trans [OF a Cons.IH])
  show ?case
    using a b c by (simp add: Let_def)
qed

lemma enqueue_sock_loop_frame:
  "only_sock_slot_changed p s (final_state (enqueue_sock_loop p rs s))"
proof (induction rs arbitrary: s)
  case Nil
  show ?case by (simp add: only_sock_slot_changed_def)
next
  case (Cons r rs)
  note a = recv_slot_sock_frame [of p s r]
  have b: "only_sock_slot_changed p s
      (final_state (exit_process EXIT_FAILURE
         (tspslog ''Recvfrom error'' (recvfrom_into_sock_slot p r s)) :: unit outcome))"
    using a by (simp add: exit_process_def tspslog_def only_sock_slot_changed_emit)
  have c: "only_sock_slot_changed p s
      (final_state (enqueue_sock_loop p rs (recvfrom_into_sock_slot p r s)))"
    by (rule only_sock_slot_changed_trans [OF a Cons.IH])
  show ?case
    using a b c by (simp add: Let_def)
qed

lemma final_state_then_emit:
  "final_state (and_then x (\<lambda>_ s2. Returned () (emit es s2))) =
     (if is_Returned x then emit es (final_state x) else final_state x)"
  by (cases x) simp_all

lemma enqueue_tun_slices:
  assumes "wf_state s" and "\<not> lock_tunqueue s" and "freeptr_tun s \<noteq> curptr_tun s"
  shows "enqueue_tun s =
     and_then
       (enqueue_tun_loop (nat (freeptr_tun s)) (tun_in s)
          (pthread_mutex_unlock TunQ
             ((emit [MutexLock TunQ] s)\<lparr>lock_tunqueue := True,
                freeptr_tun := (freeptr_tun s + 1) mod QUEUE_SIZE\<rparr>)))
       (\<lambda>_ s2. Returned () (emit [CondSignal TunQ] s2))"
proof -
  from assms(1) have r: "0 \<le> freeptr_tun s" "freeptr_tun s < QUEUE_SIZE"
    by (simp_all add: wf_state_def)
  show ?thesis
    using r
    by (simp add: enqueue_tun_def reserve_tun_free [OF assms(2,3) r]
        enqueue_tun_fill_def in_array_def enqueue_tun_signal_fun)
       (simp add: prim_defs)
qed

lemma enqueue_sock_slices:
  assumes "wf_state s" and "\<not> lock_sockqueue s" and "freeptr_sock s \<noteq> curptr_sock s"
  shows "enqueue_sock s =
     and_then
       (enqueue_sock_loop (nat (freeptr_sock s)) (sock_in s)
          (pthread_mutex_unlock SockQ
             ((emit [MutexLock SockQ] s)\<lparr>lock_sockqueue := True,
                freeptr_sock := (freeptr_sock s + 1) mod QUEUE_SIZE\<rparr>)))
       (\<lambda>_ s2. Returned () (emit [CondSignal SockQ] s2))"
proof -
  from assms(1) have r: "0 \<le> freeptr_sock s" "freeptr_sock s < QUEUE_SIZE"
    by (simp_all add: wf_state_def)
  show ?thesis
    using r
    by (simp add: enqueue_sock_def reserve_sock_free [OF assms(2,3) r]
        enqueue_sock_fill_def in_array_def enqueue_sock_signal_fun)
       (simp add: prim_defs)
qed

lemma enqueue_tun_cursor:
  assumes "wf_state s" and "\<not> lock_tunqueue s" and "freeptr_tun s \<noteq> curptr_tun s"
  shows "only_tun_slot_changed (nat (freeptr_tun s))
           (s\<lparr>freeptr_tun := (freeptr_tun s + 1) mod QUEUE_SIZE\<rparr>)
           (final_state (enqueue_tun s))"
proof -
  let ?s1 = "pthread_mutex_unlock TunQ
             ((emit [MutexLock TunQ] s)\<lparr>lock_tunqueue := True,
                freeptr_tun := (freeptr_tun s + 1) mod QUEUE_SIZE\<rparr>)"
  let ?p = "nat (freeptr_tun s)"
  have a: "only_tun_slot_changed ?p (s\<lparr>freeptr_tun := (freeptr_tun s + 1) mod QUEUE_SIZE\<rparr>) ?s1"
    by (simp add: only_tun_slot_changed_def prim_defs)
  note b = only_tun_slot_changed_trans [OF a enqueue_tun_loop_frame [of ?p ?s1 "tun_in s"]]
  show ?thesis
    using b
    by (simp add: enqueue_tun_slices [OF assms] final_state_then_emit
        only_tun_slot_changed_emit)
qed

lemma enqueue_sock_cursor:
  assumes "wf_state s" and "\<not> lock_sockqueue s" and "freeptr_sock s \<noteq> curptr_sock s"
  shows "only_sock_slot_changed (nat (freeptr_sock s))
           (s\<lparr>freeptr_sock := (freeptr_sock s + 1) mod QUEUE_SIZE\<rparr>)
           (final_state (enqueue_sock s))"
proof -
  let ?s1 = "pthread_mutex_unlock SockQ
             ((emit [MutexLock SockQ] s)\<lparr>lock_sockqueue := True,
                freeptr_sock := (freeptr_sock s + 1) mod QUEUE_SIZE\<rparr>)"
  let ?p = "nat (freeptr_sock s)"
  have a: "only_sock_slot_changed ?p
      (s\<lparr>freeptr_sock := (freeptr_sock s + 1) mod QUEUE_SIZE\<rparr>) ?s1"
    by (simp add: only_sock_slot_changed_def prim_defs)
  note b = only_sock_slot_changed_trans [OF a enqueue_sock_loop_frame [of ?p ?s1 "sock_in s"]]
  show ?thesis
    using b
    by (simp add: enqueue_sock_slices [OF assms] final_state_then_emit
        only_sock_slot_changed_emit)
qed

lemma enqueue_tun_packet:
  assumes "wf_state s" and "\<not> lock_tunqueue s" and "freeptr_tun s \<noteq> curptr_tun s"
    and "tun_in s = r # rs" and "0 < io_ret r"
  shows "enqueue_tun s =
     Returned ()
       (emit [MutexLock TunQ, MutexUnlock TunQ, ReadTun (io_ret r), CondSignal TunQ]
          (s\<lparr>freeptr_tun := (freeptr_tun s + 1) mod QUEUE_SIZE,
             queue_tun := (queue_tun s)[nat (freeptr_tun s) :=
                store_buf (queue_tun s ! nat (freeptr_tun s)) (io_data r)],
             length_tun := (length_tun s)[nat (freeptr_tun s) := io_ret r],
             tun_in := rs\<rparr>))"
proof -
  from assms(1) have r: "0 \<le> freeptr_tun s" "freeptr_tun s < QUEUE_SIZE"
    "length (length_tun s) = nat QUEUE_SIZE"
    by (simp_all add: wf_state_def)
  have n: "nat (freeptr_tun s) < length (length_tun s)" using r by simp
  show ?thesis
    using assms(2,4,5) n
    by (simp add: enqueue_tun_slices [OF assms(1,2,3)] prim_defs Let_def
        read_into_tun_slot_def set_errno_def)
qed

lemma enqueue_sock_packet:
  assumes "wf_state s" and "\<not> lock_sockqueue s" and "freeptr_sock s \<noteq> curptr_sock s"
    and "sock_in s = r # rs" and "0 < io_ret r"
  shows "enqueue_sock s =
     Returned ()
       (emit [MutexLock SockQ, MutexUnlock SockQ, RecvfromSock (io_ret r), CondSignal SockQ]
          (s\<lparr>freeptr_sock := (freeptr_sock s + 1) mod QUEUE_SIZE,
             queue_sock := (queue_sock s)[nat (freeptr_sock s) :=
                store_buf (queue_sock s ! nat (freeptr_sock s)) (io_data r)],
             length_sock := (length_sock s)[nat (freeptr_sock s) := io_ret r],
             client_addr :=
               (case io_from r of
                  None \<Rightarrow> client_addr s
                | Some a \<Rightarrow> (client_addr s)[nat (freeptr_sock s) := a]),
             sock_in := rs\<rparr>))"
proof -
  from assms(1) have r: "0 \<le> freeptr_sock s" "freeptr_sock s < QUEUE_SIZE"
    "length (length_sock s) = nat QUEUE_SIZE"
    by (simp_all add: wf_state_def)
  have n: "nat (freeptr_sock s) < length (length_sock s)" using r by simp
  show ?thesis
    using assms(2,4,5) n
    by (simp add: enqueue_sock_slices [OF assms(1,2,3)] prim_defs Let_def
        recvfrom_into_sock_slot_def set_errno_def split: option.split)
qed

lemma answers_used_Nil [simp]: "answers_used [] = []"
  by (simp add: answers_used_def)

lemma answers_used_Cons [simp]:
  "answers_used (r # rs) = (if transient r then r # answers_used rs else [r])"
  by (simp add: answers_used_def)

lemma read_slot_tun_slot:
  "p < length (queue_tun s) \<Longrightarrow>
   queue_tun (read_into_tun_slot p r s) ! p = store_buf (queue_tun s ! p) (io_data r)"
  "length (queue_tun (read_into_tun_slot p r s)) = length (queue_tun s)"
  "tun_in (read_into_tun_slot p r s) = tl (tun_in s)"
  by (simp_all add: read_into_tun_slot_def emit_def set_errno_def)

lemma recv_slot_sock_slot:
  "p < length (queue_sock s) \<Longrightarrow>
   queue_sock (recvfrom_into_sock_slot p r s) ! p = store_buf (queue_sock s ! p) (io_data r)"
  "length (queue_sock (recvfrom_into_sock_slot p r s)) = length (queue_sock s)"
  "p < length (client_addr s) \<Longrightarrow>
   client_addr (recvfrom_into_sock_slot p r s) ! p =
     (case io_from r of None \<Rightarrow> client_addr s ! p | Some b \<Rightarrow> b)"
  "length (client_addr (recvfrom_into_sock_slot p r s)) = length (client_addr s)"
  "sock_in (recvfrom_into_sock_slot p r s) = tl (sock_in s)"
  by (simp_all add: recvfrom_into_sock_slot_def emit_def set_errno_def split: option.split)

lemma enqueue_tun_loop_slot:
  "p < length (queue_tun s) \<Longrightarrow> p < length (length_tun s) \<Longrightarrow>
   queue_tun (final_state (enqueue_tun_loop p rs s)) ! p =
     stored_bytes (queue_tun s ! p) (answers_used rs) \<and>
   length_tun (final_state (enqueue_tun_loop p rs s)) ! p =
     stored_length (length_tun s ! p) (answers_used rs)"
proof (induction rs arbitrary: s)
  case Nil
  show ?case by (simp add: stored_bytes_def stored_length_def)
next
  case (Cons r rs)
  have l: "p < length (queue_tun (read_into_tun_slot p r s))"
    "p < length (length_tun (read_into_tun_slot p r s))"
    using Cons.prems by (simp_all add: read_slot_tun_slot read_slot_tun_effect)
  show ?case
    using Cons.prems
    by (simp only: enqueue_tun_loop_step [OF Cons.prems(2)])
       (simp add: Cons.IH [OF l]
        read_slot_tun_slot read_slot_tun_effect stored_bytes_def stored_length_def emit_def
        fatal_not_transient)
qed

lemma enqueue_sock_loop_slot:
  "p < length (queue_sock s) \<Longrightarrow> p < length (length_sock s) \<Longrightarrow>
   p < length (client_addr s) \<Longrightarrow>
   queue_sock (final_state (enqueue_sock_loop p rs s)) ! p =
     stored_bytes (queue_sock s ! p) (answers_used rs) \<and>
   length_sock (final_state (enqueue_sock_loop p rs s)) ! p =
     stored_length (length_sock s ! p) (answers_used rs) \<and>
   client_addr (final_state (enqueue_sock_loop p rs s)) ! p =
     stored_addr (client_addr s ! p) (answers_used rs)"
proof (induction rs arbitrary: s)
  case Nil
  show ?case by (simp add: stored_bytes_def stored_length_def stored_addr_def)
next
  case (Cons r rs)
  have l: "p < length (queue_sock (recvfrom_into_sock_slot p r s))"
    "p < length (length_sock (recvfrom_into_sock_slot p r s))"
    "p < length (client_addr (recvfrom_into_sock_slot p r s))"
    using Cons.prems by (simp_all add: recv_slot_sock_slot recv_slot_sock_effect)
  show ?case
    using Cons.prems
    by (simp only: enqueue_sock_loop_step [OF Cons.prems(2)])
       (simp add: Cons.IH [OF l]
        recv_slot_sock_slot recv_slot_sock_effect stored_bytes_def stored_length_def
        stored_addr_def emit_def fatal_not_transient)
qed

lemma final_state_then_emit_fields:
  "queue_tun (final_state (and_then x (\<lambda>_ s2. Returned () (emit es s2)))) =
     queue_tun (final_state x)"
  "queue_sock (final_state (and_then x (\<lambda>_ s2. Returned () (emit es s2)))) =
     queue_sock (final_state x)"
  "client_addr (final_state (and_then x (\<lambda>_ s2. Returned () (emit es s2)))) =
     client_addr (final_state x)"
  "length_tun (final_state (and_then x (\<lambda>_ s2. Returned () (emit es s2)))) =
     length_tun (final_state x)"
  "length_sock (final_state (and_then x (\<lambda>_ s2. Returned () (emit es s2)))) =
     length_sock (final_state x)"
  by (cases x; simp add: emit_def)+

lemma enqueue_tun_slot:
  assumes "wf_state s" and "\<not> lock_tunqueue s" and "freeptr_tun s \<noteq> curptr_tun s"
  shows "queue_tun (final_state (enqueue_tun s)) ! nat (freeptr_tun s) =
           stored_bytes (queue_tun s ! nat (freeptr_tun s)) (answers_used (tun_in s)) \<and>
         length_tun (final_state (enqueue_tun s)) ! nat (freeptr_tun s) =
           stored_length (length_tun s ! nat (freeptr_tun s)) (answers_used (tun_in s))"
proof -
  let ?s1 = "pthread_mutex_unlock TunQ
             ((emit [MutexLock TunQ] s)\<lparr>lock_tunqueue := True,
                freeptr_tun := (freeptr_tun s + 1) mod QUEUE_SIZE\<rparr>)"
  from assms(1) have r: "0 \<le> freeptr_tun s" "freeptr_tun s < QUEUE_SIZE"
    "length (length_tun s) = nat QUEUE_SIZE" "length (queue_tun s) = nat QUEUE_SIZE"
    by (simp_all add: wf_state_def)
  have s1: "queue_tun ?s1 = queue_tun s" "length_tun ?s1 = length_tun s"
    by (simp_all add: prim_defs)
  have n: "nat (freeptr_tun s) < length (queue_tun ?s1)"
    "nat (freeptr_tun s) < length (length_tun ?s1)"
    using r by (simp_all add: s1)
  show ?thesis
    using enqueue_tun_loop_slot [OF n, of "tun_in s"]
    by (simp add: enqueue_tun_slices [OF assms] final_state_then_emit_fields s1)
qed

lemma enqueue_sock_slot:
  assumes "wf_state s" and "\<not> lock_sockqueue s" and "freeptr_sock s \<noteq> curptr_sock s"
  shows "queue_sock (final_state (enqueue_sock s)) ! nat (freeptr_sock s) =
           stored_bytes (queue_sock s ! nat (freeptr_sock s)) (answers_used (sock_in s)) \<and>
         length_sock (final_state (enqueue_sock s)) ! nat (freeptr_sock s) =
           stored_length (length_sock s ! nat (freeptr_sock s)) (answers_used (sock_in s)) \<and>
         client_addr (final_state (enqueue_sock s)) ! nat (freeptr_sock s) =
           stored_addr (client_addr s ! nat (freeptr_sock s)) (answers_used (sock_in s))"
proof -
  let ?s1 = "pthread_mutex_unlock SockQ
             ((emit [MutexLock SockQ] s)\<lparr>lock_sockqueue := True,
                freeptr_sock := (freeptr_sock s + 1) mod QUEUE_SIZE\<rparr>)"
  from assms(1) have r: "0 \<le> freeptr_sock s" "freeptr_sock s < QUEUE_SIZE"
    "length (length_sock s) = nat QUEUE_SIZE" "length (queue_sock s) = nat QUEUE_SIZE"
    "length (client_addr s) = nat QUEUE_SIZE"
    by (simp_all add: wf_state_def)
  have s1: "queue_sock ?s1 = queue_sock s" "length_sock ?s1 = length_sock s"
    "client_addr ?s1 = client_addr s"
    by (simp_all add: prim_defs)
  have n: "nat (freeptr_sock s) < length (queue_sock ?s1)"
    "nat (freeptr_sock s) < length (length_sock ?s1)"
    "nat (freeptr_sock s) < length (client_addr ?s1)"
    using r by (simp_all add: s1)
  show ?thesis
    using enqueue_sock_loop_slot [OF n, of "sock_in s"]
    by (simp add: enqueue_sock_slices [OF assms] final_state_then_emit_fields s1)
qed

lemma enqueue_tun_freeptr:
  assumes "wf_state s" and "\<not> lock_tunqueue s" and "freeptr_tun s \<noteq> curptr_tun s"
  shows "freeptr_tun (final_state (enqueue_tun s)) = (freeptr_tun s + 1) mod QUEUE_SIZE"
  using enqueue_tun_cursor [OF assms] by (simp add: only_tun_slot_changed_def)

lemma enqueue_sock_freeptr:
  assumes "wf_state s" and "\<not> lock_sockqueue s" and "freeptr_sock s \<noteq> curptr_sock s"
  shows "freeptr_sock (final_state (enqueue_sock s)) = (freeptr_sock s + 1) mod QUEUE_SIZE"
  using enqueue_sock_cursor [OF assms] by (simp add: only_sock_slot_changed_def)

lemma enqueue_tun_packet_imp:
  assumes "wf_state s" and "\<not> lock_tunqueue s" and "freeptr_tun s \<noteq> curptr_tun s"
  shows "tun_in s = r # rs \<and> 0 < io_ret r \<longrightarrow>
     enqueue_tun s =
     Returned ()
       (emit [MutexLock TunQ, MutexUnlock TunQ, ReadTun (io_ret r), CondSignal TunQ]
          (s\<lparr>freeptr_tun := (freeptr_tun s + 1) mod QUEUE_SIZE,
             queue_tun := (queue_tun s)[nat (freeptr_tun s) :=
                store_buf (queue_tun s ! nat (freeptr_tun s)) (io_data r)],
             length_tun := (length_tun s)[nat (freeptr_tun s) := io_ret r],
             tun_in := rs\<rparr>))"
  using enqueue_tun_packet [OF assms] by blast

lemma enqueue_sock_packet_imp:
  assumes "wf_state s" and "\<not> lock_sockqueue s" and "freeptr_sock s \<noteq> curptr_sock s"
  shows "sock_in s = r # rs \<and> 0 < io_ret r \<longrightarrow>
     enqueue_sock s =
     Returned ()
       (emit [MutexLock SockQ, MutexUnlock SockQ, RecvfromSock (io_ret r), CondSignal SockQ]
          (s\<lparr>freeptr_sock := (freeptr_sock s + 1) mod QUEUE_SIZE,
             queue_sock := (queue_sock s)[nat (freeptr_sock s) :=
                store_buf (queue_sock s ! nat (freeptr_sock s)) (io_data r)],
             length_sock := (length_sock s)[nat (freeptr_sock s) := io_ret r],
             client_addr :=
               (case io_from r of
                  None \<Rightarrow> client_addr s
                | Some a \<Rightarrow> (client_addr s)[nat (freeptr_sock s) := a]),
             sock_in := rs\<rparr>))"
  using enqueue_sock_packet [OF assms] by blast

text \<open>
  C6. Slot reservation by enqueue_tun and enqueue_sock (lines 99 to 106 and 125 to 132),
  mutex free at entry. When the queue is full no slot is reserved and the call returns
  having changed nothing but the trace of the lock and unlock. Otherwise the slot
  reserved is the current freeptr, and freeptr is (freeptr + 1) mod QUEUE_SIZE in the
  state the mutex is released from. Of the whole call on a queue that is not full,
  however it ends: freeptr is in the end (freeptr + 1) mod QUEUE_SIZE of its value at
  entry; nothing else of the two queues has changed but the slot at the old freeptr; and
  that slot holds what the calls of read or recvfrom have put there, answer after answer.
  With a packet pending the call returns after the lock, the unlock, one read and the
  signal, with the packet's bytes and length (and its sender address, for the socket) in
  the slot at the old freeptr.
\<close>

theorem reserve_slot_under_lock:
  assumes "wf_state s" and "\<not> lock_tunqueue s" and "\<not> lock_sockqueue s"
  shows "(if freeptr_tun s = curptr_tun s
          then enqueue_tun_reserve s =
                 Returned None (emit [MutexLock TunQ, MutexUnlock TunQ] s) \<and>
               enqueue_tun s = Returned () (emit [MutexLock TunQ, MutexUnlock TunQ] s)
          else enqueue_tun_reserve s =
                 Returned (Some (freeptr_tun s))
                   (pthread_mutex_unlock TunQ
                      ((emit [MutexLock TunQ] s)\<lparr>lock_tunqueue := True,
                         freeptr_tun := (freeptr_tun s + 1) mod QUEUE_SIZE\<rparr>)) \<and>
               freeptr_tun (final_state (enqueue_tun s)) =
                 (freeptr_tun s + 1) mod QUEUE_SIZE \<and>
               only_tun_slot_changed (nat (freeptr_tun s))
                 (s\<lparr>freeptr_tun := (freeptr_tun s + 1) mod QUEUE_SIZE\<rparr>)
                 (final_state (enqueue_tun s)) \<and>
               queue_tun (final_state (enqueue_tun s)) ! nat (freeptr_tun s) =
                 stored_bytes (queue_tun s ! nat (freeptr_tun s)) (answers_used (tun_in s)) \<and>
               length_tun (final_state (enqueue_tun s)) ! nat (freeptr_tun s) =
                 stored_length (length_tun s ! nat (freeptr_tun s))
                   (answers_used (tun_in s)) \<and>
               (tun_in s = r # rs \<and> 0 < io_ret r \<longrightarrow>
                  enqueue_tun s =
                  Returned ()
                    (emit [MutexLock TunQ, MutexUnlock TunQ, ReadTun (io_ret r),
                           CondSignal TunQ]
                       (s\<lparr>freeptr_tun := (freeptr_tun s + 1) mod QUEUE_SIZE,
                          queue_tun := (queue_tun s)[nat (freeptr_tun s) :=
                             store_buf (queue_tun s ! nat (freeptr_tun s)) (io_data r)],
                          length_tun := (length_tun s)[nat (freeptr_tun s) := io_ret r],
                          tun_in := rs\<rparr>)))) \<and>
         (if freeptr_sock s = curptr_sock s
          then enqueue_sock_reserve s =
                 Returned None (emit [MutexLock SockQ, MutexUnlock SockQ] s) \<and>
               enqueue_sock s = Returned () (emit [MutexLock SockQ, MutexUnlock SockQ] s)
          else enqueue_sock_reserve s =
                 Returned (Some (freeptr_sock s))
                   (pthread_mutex_unlock SockQ
                      ((emit [MutexLock SockQ] s)\<lparr>lock_sockqueue := True,
                         freeptr_sock := (freeptr_sock s + 1) mod QUEUE_SIZE\<rparr>)) \<and>
               freeptr_sock (final_state (enqueue_sock s)) =
                 (freeptr_sock s + 1) mod QUEUE_SIZE \<and>
               only_sock_slot_changed (nat (freeptr_sock s))
                 (s\<lparr>freeptr_sock := (freeptr_sock s + 1) mod QUEUE_SIZE\<rparr>)
                 (final_state (enqueue_sock s)) \<and>
               queue_sock (final_state (enqueue_sock s)) ! nat (freeptr_sock s) =
                 stored_bytes (queue_sock s ! nat (freeptr_sock s))
                   (answers_used (sock_in s)) \<and>
               length_sock (final_state (enqueue_sock s)) ! nat (freeptr_sock s) =
                 stored_length (length_sock s ! nat (freeptr_sock s))
                   (answers_used (sock_in s)) \<and>
               client_addr (final_state (enqueue_sock s)) ! nat (freeptr_sock s) =
                 stored_addr (client_addr s ! nat (freeptr_sock s))
                   (answers_used (sock_in s)) \<and>
               (sock_in s = q # qs \<and> 0 < io_ret q \<longrightarrow>
                  enqueue_sock s =
                  Returned ()
                    (emit [MutexLock SockQ, MutexUnlock SockQ, RecvfromSock (io_ret q),
                           CondSignal SockQ]
                       (s\<lparr>freeptr_sock := (freeptr_sock s + 1) mod QUEUE_SIZE,
                          queue_sock := (queue_sock s)[nat (freeptr_sock s) :=
                             store_buf (queue_sock s ! nat (freeptr_sock s)) (io_data q)],
                          length_sock := (length_sock s)[nat (freeptr_sock s) := io_ret q],
                          client_addr :=
                            (case io_from q of
                               None \<Rightarrow> client_addr s
                             | Some a \<Rightarrow> (client_addr s)[nat (freeptr_sock s) := a]),
                          sock_in := qs\<rparr>))))"
proof -
  from assms(1) have r: "0 \<le> freeptr_tun s" "freeptr_tun s < QUEUE_SIZE"
    "0 \<le> freeptr_sock s" "freeptr_sock s < QUEUE_SIZE"
    by (simp_all add: wf_state_def)
  have tun: "if freeptr_tun s = curptr_tun s
          then enqueue_tun_reserve s =
                 Returned None (emit [MutexLock TunQ, MutexUnlock TunQ] s) \<and>
               enqueue_tun s = Returned () (emit [MutexLock TunQ, MutexUnlock TunQ] s)
          else enqueue_tun_reserve s =
                 Returned (Some (freeptr_tun s))
                   (pthread_mutex_unlock TunQ
                      ((emit [MutexLock TunQ] s)\<lparr>lock_tunqueue := True,
                         freeptr_tun := (freeptr_tun s + 1) mod QUEUE_SIZE\<rparr>)) \<and>
               freeptr_tun (final_state (enqueue_tun s)) =
                 (freeptr_tun s + 1) mod QUEUE_SIZE \<and>
               only_tun_slot_changed (nat (freeptr_tun s))
                 (s\<lparr>freeptr_tun := (freeptr_tun s + 1) mod QUEUE_SIZE\<rparr>)
                 (final_state (enqueue_tun s)) \<and>
               queue_tun (final_state (enqueue_tun s)) ! nat (freeptr_tun s) =
                 stored_bytes (queue_tun s ! nat (freeptr_tun s)) (answers_used (tun_in s)) \<and>
               length_tun (final_state (enqueue_tun s)) ! nat (freeptr_tun s) =
                 stored_length (length_tun s ! nat (freeptr_tun s))
                   (answers_used (tun_in s)) \<and>
               (tun_in s = r # rs \<and> 0 < io_ret r \<longrightarrow>
                  enqueue_tun s =
                  Returned ()
                    (emit [MutexLock TunQ, MutexUnlock TunQ, ReadTun (io_ret r),
                           CondSignal TunQ]
                       (s\<lparr>freeptr_tun := (freeptr_tun s + 1) mod QUEUE_SIZE,
                          queue_tun := (queue_tun s)[nat (freeptr_tun s) :=
                             store_buf (queue_tun s ! nat (freeptr_tun s)) (io_data r)],
                          length_tun := (length_tun s)[nat (freeptr_tun s) := io_ret r],
                          tun_in := rs\<rparr>)))"
  proof (cases "freeptr_tun s = curptr_tun s")
    case True
    show ?thesis
      unfolding if_P [OF True]
      using reserve_tun_full [OF assms(2) True] enqueue_tun_full [OF assms(2) True] by blast
  next
    case False
    show ?thesis
      unfolding if_not_P [OF False]
      using reserve_tun_free [OF assms(2) False r(1,2)]
        enqueue_tun_freeptr [OF assms(1,2) False] enqueue_tun_cursor [OF assms(1,2) False]
        enqueue_tun_slot [OF assms(1,2) False]
        enqueue_tun_packet_imp [OF assms(1,2) False, of r rs]
      by blast
  qed
  have sock: "if freeptr_sock s = curptr_sock s
          then enqueue_sock_reserve s =
                 Returned None (emit [MutexLock SockQ, MutexUnlock SockQ] s) \<and>
               enqueue_sock s = Returned () (emit [MutexLock SockQ, MutexUnlock SockQ] s)
          else enqueue_sock_reserve s =
                 Returned (Some (freeptr_sock s))
                   (pthread_mutex_unlock SockQ
                      ((emit [MutexLock SockQ] s)\<lparr>lock_sockqueue := True,
                         freeptr_sock := (freeptr_sock s + 1) mod QUEUE_SIZE\<rparr>)) \<and>
               freeptr_sock (final_state (enqueue_sock s)) =
                 (freeptr_sock s + 1) mod QUEUE_SIZE \<and>
               only_sock_slot_changed (nat (freeptr_sock s))
                 (s\<lparr>freeptr_sock := (freeptr_sock s + 1) mod QUEUE_SIZE\<rparr>)
                 (final_state (enqueue_sock s)) \<and>
               queue_sock (final_state (enqueue_sock s)) ! nat (freeptr_sock s) =
                 stored_bytes (queue_sock s ! nat (freeptr_sock s))
                   (answers_used (sock_in s)) \<and>
               length_sock (final_state (enqueue_sock s)) ! nat (freeptr_sock s) =
                 stored_length (length_sock s ! nat (freeptr_sock s))
                   (answers_used (sock_in s)) \<and>
               client_addr (final_state (enqueue_sock s)) ! nat (freeptr_sock s) =
                 stored_addr (client_addr s ! nat (freeptr_sock s))
                   (answers_used (sock_in s)) \<and>
               (sock_in s = q # qs \<and> 0 < io_ret q \<longrightarrow>
                  enqueue_sock s =
                  Returned ()
                    (emit [MutexLock SockQ, MutexUnlock SockQ, RecvfromSock (io_ret q),
                           CondSignal SockQ]
                       (s\<lparr>freeptr_sock := (freeptr_sock s + 1) mod QUEUE_SIZE,
                          queue_sock := (queue_sock s)[nat (freeptr_sock s) :=
                             store_buf (queue_sock s ! nat (freeptr_sock s)) (io_data q)],
                          length_sock := (length_sock s)[nat (freeptr_sock s) := io_ret q],
                          client_addr :=
                            (case io_from q of
                               None \<Rightarrow> client_addr s
                             | Some a \<Rightarrow> (client_addr s)[nat (freeptr_sock s) := a]),
                          sock_in := qs\<rparr>)))"
  proof (cases "freeptr_sock s = curptr_sock s")
    case True
    show ?thesis
      unfolding if_P [OF True]
      using reserve_sock_full [OF assms(3) True] enqueue_sock_full [OF assms(3) True] by blast
  next
    case False
    show ?thesis
      unfolding if_not_P [OF False]
      using reserve_sock_free [OF assms(3) False r(3,4)]
        enqueue_sock_freeptr [OF assms(1,3) False] enqueue_sock_cursor [OF assms(1,3) False]
        enqueue_sock_slot [OF assms(1,3) False]
        enqueue_sock_packet_imp [OF assms(1,3) False, of q qs]
      by blast
  qed
  from tun sock show ?thesis by (rule conjI)
qed

text \<open>With the tunnel queue full nothing is reserved, and the socket queue beside it
  gives slot 0 and moves freeptr to 1. From the start, with a packet pending on each
  descriptor, each enqueue ends with freeptr 1 and the packet in slot 0.\<close>

theorem reserve_slot_under_lock_witness:
  "wf_state tun_full_state \<and> \<not> lock_tunqueue tun_full_state \<and>
   \<not> lock_sockqueue tun_full_state \<and>
   enqueue_tun_reserve tun_full_state =
     Returned None (emit [MutexLock TunQ, MutexUnlock TunQ] tun_full_state) \<and>
   enqueue_tun tun_full_state =
     Returned () (emit [MutexLock TunQ, MutexUnlock TunQ] tun_full_state) \<and>
   enqueue_sock_reserve tun_full_state =
     Returned (Some 0)
       (pthread_mutex_unlock SockQ
          ((emit [MutexLock SockQ] tun_full_state)\<lparr>lock_sockqueue := True,
             freeptr_sock := 1\<rparr>)) \<and>
   wf_state arrival_state \<and> \<not> lock_tunqueue arrival_state \<and>
   \<not> lock_sockqueue arrival_state \<and>
   freeptr_tun (final_state (enqueue_tun arrival_state)) = 1 \<and>
   freeptr_sock (final_state (enqueue_sock arrival_state)) = 1 \<and>
   enqueue_tun arrival_state =
     Returned ()
       (emit [MutexLock TunQ, MutexUnlock TunQ, ReadTun 1, CondSignal TunQ]
          (arrival_state\<lparr>freeptr_tun := 1,
             queue_tun := (queue_tun arrival_state)[0 := [7, 0]],
             length_tun := (length_tun arrival_state)[0 := 1],
             tun_in := []\<rparr>)) \<and>
   enqueue_sock arrival_state =
     Returned ()
       (emit [MutexLock SockQ, MutexUnlock SockQ, RecvfromSock 2, CondSignal SockQ]
          (arrival_state\<lparr>freeptr_sock := 1,
             queue_sock := (queue_sock arrival_state)[0 := [8, 9]],
             length_sock := (length_sock arrival_state)[0 := 2],
             client_addr := (client_addr arrival_state)[0 := sender],
             sock_in := []\<rparr>))"
proof -
  note F = reserve_slot_under_lock [OF tun_full_state_facts(1,2,3)]
  note A = reserve_slot_under_lock [OF arrival_state_facts(1,2,3),
      of "packet 7" "[]" "\<lparr>io_ret = 2, io_errno = 0, io_data = [8, 9], io_from = Some sender\<rparr>"
      "[]"]
  have full: "enqueue_tun_reserve tun_full_state =
     Returned None (emit [MutexLock TunQ, MutexUnlock TunQ] tun_full_state) \<and>
   enqueue_tun tun_full_state =
     Returned () (emit [MutexLock TunQ, MutexUnlock TunQ] tun_full_state) \<and>
   enqueue_sock_reserve tun_full_state =
     Returned (Some 0)
       (pthread_mutex_unlock SockQ
          ((emit [MutexLock SockQ] tun_full_state)\<lparr>lock_sockqueue := True,
             freeptr_sock := 1\<rparr>))"
    using F by (simp add: tun_full_state_facts(4-7) QUEUE_SIZE_def)
  have arr: "freeptr_tun (final_state (enqueue_tun arrival_state)) = 1 \<and>
   freeptr_sock (final_state (enqueue_sock arrival_state)) = 1 \<and>
   enqueue_tun arrival_state =
     Returned ()
       (emit [MutexLock TunQ, MutexUnlock TunQ, ReadTun 1, CondSignal TunQ]
          (arrival_state\<lparr>freeptr_tun := 1,
             queue_tun := (queue_tun arrival_state)[0 := [7, 0]],
             length_tun := (length_tun arrival_state)[0 := 1],
             tun_in := []\<rparr>)) \<and>
   enqueue_sock arrival_state =
     Returned ()
       (emit [MutexLock SockQ, MutexUnlock SockQ, RecvfromSock 2, CondSignal SockQ]
          (arrival_state\<lparr>freeptr_sock := 1,
             queue_sock := (queue_sock arrival_state)[0 := [8, 9]],
             length_sock := (length_sock arrival_state)[0 := 2],
             client_addr := (client_addr arrival_state)[0 := sender],
             sock_in := []\<rparr>))"
    using A
    by (simp add: arrival_state_facts(4-11) QUEUE_SIZE_def store_buf_def packet_def emit_def)
  show ?thesis
    using full arr tun_full_state_facts(1,2,3) arrival_state_facts(1,2,3) by blast
qed

subsection \<open>The overflow drain\<close>

lemma queues_of_emit [simp]: "queues_of (emit es s) = queues_of s"
  by (simp add: queues_of_def emit_def)

lemma queues_of_read_dummy_tun [simp]: "queues_of (read_into_dummy_tun r s) = queues_of s"
  by (simp add: queues_of_def read_into_dummy_tun_def emit_def set_errno_def)

lemma queues_of_recv_dummy_sock [simp]: "queues_of (recvfrom_into_dummy_sock r s) = queues_of s"
  by (simp add: queues_of_def recvfrom_into_dummy_sock_def emit_def set_errno_def)

lemma drop_tun_loop_frame: "queues_of (final_state (drop_tun_loop rs s)) = queues_of s"
  by (induction rs arbitrary: s) (simp_all add: Let_def exit_process_def tspslog_def)

lemma drop_sock_loop_frame: "queues_of (final_state (drop_sock_loop rs s)) = queues_of s"
  by (induction rs arbitrary: s) (simp_all add: Let_def exit_process_def tspslog_def)

text \<open>
  C9. When drop_tun or drop_sock returns, the cursors, slot payloads, lengths and
  sender addresses of both queues are what they were before the call.
\<close>

theorem drop_leaves_queues_unchanged:
  "(drop_tun s = Returned u s' \<longrightarrow> queues_of s' = queues_of s) \<and>
   (drop_sock s = Returned u s' \<longrightarrow> queues_of s' = queues_of s)"
  using drop_tun_loop_frame [of "tun_in s" s] drop_sock_loop_frame [of "sock_in s" s]
  by (auto simp: drop_tun_def drop_sock_def)

lemma drop_tun_pending:
  "drop_tun pending_state = Returned () (read_into_dummy_tun (packet 7) pending_state)"
  by (simp add: drop_tun_def pending_state_facts Let_def)

lemma drop_sock_pending:
  "drop_sock pending_state = Returned () (recvfrom_into_dummy_sock (packet 9) pending_state)"
  by (simp add: drop_sock_def pending_state_facts Let_def)

text \<open>With a packet pending, each drop returns and leaves both queues as they were.\<close>

theorem drop_leaves_queues_unchanged_witness:
  "drop_tun pending_state = Returned () (read_into_dummy_tun (packet 7) pending_state) \<and>
   queues_of (read_into_dummy_tun (packet 7) pending_state) = queues_of pending_state \<and>
   drop_sock pending_state = Returned () (recvfrom_into_dummy_sock (packet 9) pending_state) \<and>
   queues_of (recvfrom_into_dummy_sock (packet 9) pending_state) = queues_of pending_state"
  using drop_leaves_queues_unchanged
          [of pending_state "()" "read_into_dummy_tun (packet 7) pending_state"]
        drop_leaves_queues_unchanged
          [of pending_state "()" "recvfrom_into_dummy_sock (packet 9) pending_state"]
        drop_tun_pending drop_sock_pending
  by blast

lemma drop_tun_one:
  "tun_in s = r # rs \<Longrightarrow> 0 < io_ret r \<Longrightarrow> drop_tun s = Returned () (read_into_dummy_tun r s)"
  by (simp add: drop_tun_def Let_def)

lemma drop_sock_one:
  "sock_in s = r # rs \<Longrightarrow> 0 < io_ret r \<Longrightarrow>
   drop_sock s = Returned () (recvfrom_into_dummy_sock r s)"
  by (simp add: drop_sock_def Let_def)

text \<open>
  C10. Called on a full queue (mutex free), enqueue_tun and enqueue_sock return at
  once: the state after the call is the state before it with only the lock and unlock
  added to the trace, so nothing was read, no cursor, payload or length changed, and
  the condition variable was not signalled. A unit of pending input is taken off the
  descriptor by drop_tun or drop_sock, which enqueue does not call.
\<close>

theorem enqueue_on_full_queue_returns_untouched:
  assumes "\<not> lock_tunqueue s" and "\<not> lock_sockqueue s"
  shows "(freeptr_tun s = curptr_tun s \<longrightarrow>
            enqueue_tun s = Returned () (emit [MutexLock TunQ, MutexUnlock TunQ] s)) \<and>
         (freeptr_sock s = curptr_sock s \<longrightarrow>
            enqueue_sock s = Returned () (emit [MutexLock SockQ, MutexUnlock SockQ] s)) \<and>
         (tun_in s = r # rs \<and> 0 < io_ret r \<longrightarrow>
            drop_tun s = Returned () (read_into_dummy_tun r s) \<and>
            tun_in (read_into_dummy_tun r s) = rs \<and>
            trace (read_into_dummy_tun r s) = trace s @ [ReadTun (io_ret r)]) \<and>
         (sock_in s = q # qs \<and> 0 < io_ret q \<longrightarrow>
            drop_sock s = Returned () (recvfrom_into_dummy_sock q s) \<and>
            sock_in (recvfrom_into_dummy_sock q s) = qs \<and>
            trace (recvfrom_into_dummy_sock q s) = trace s @ [RecvfromSock (io_ret q)])"
  using assms
  by (simp add: enqueue_tun_full enqueue_sock_full drop_tun_one drop_sock_one
      read_dummy_tun_effect recv_dummy_sock_effect)

text \<open>The full tunnel queue, the full socket queue, and a drop of one pending packet
  from each descriptor.\<close>

theorem enqueue_on_full_queue_returns_untouched_witness:
  "\<not> lock_tunqueue tun_full_state \<and> \<not> lock_sockqueue tun_full_state \<and>
   freeptr_tun tun_full_state = curptr_tun tun_full_state \<and>
   enqueue_tun tun_full_state =
     Returned () (emit [MutexLock TunQ, MutexUnlock TunQ] tun_full_state) \<and>
   \<not> lock_tunqueue sock_full_state \<and> \<not> lock_sockqueue sock_full_state \<and>
   freeptr_sock sock_full_state = curptr_sock sock_full_state \<and>
   enqueue_sock sock_full_state =
     Returned () (emit [MutexLock SockQ, MutexUnlock SockQ] sock_full_state) \<and>
   \<not> lock_tunqueue pending_state \<and> \<not> lock_sockqueue pending_state \<and>
   tun_in pending_state = [packet 7] \<and> 0 < io_ret (packet 7) \<and>
   drop_tun pending_state = Returned () (read_into_dummy_tun (packet 7) pending_state) \<and>
   tun_in (read_into_dummy_tun (packet 7) pending_state) = [] \<and>
   sock_in pending_state = [packet 9] \<and> 0 < io_ret (packet 9) \<and>
   drop_sock pending_state = Returned () (recvfrom_into_dummy_sock (packet 9) pending_state) \<and>
   sock_in (recvfrom_into_dummy_sock (packet 9) pending_state) = []"
  using enqueue_on_full_queue_returns_untouched [OF tun_full_state_facts(2,3)]
    enqueue_on_full_queue_returns_untouched [OF sock_full_state_facts(2,3)]
    enqueue_on_full_queue_returns_untouched [OF pending_state_facts(2,3),
      of "packet 7" "[]" "packet 9" "[]"]
    tun_full_state_facts(2-5) sock_full_state_facts(2,3,6,7) pending_state_facts(2-5)
  by simp

subsection \<open>Waiting for a packet\<close>

lemma isempty_nolock_frame:
  "queue_tun_isempty_nolock (emit es s) = queue_tun_isempty_nolock s"
  "queue_tun_isempty_nolock (set_mutex q b s) = queue_tun_isempty_nolock s"
  "queue_tun_isempty_nolock (pthread_mutex_unlock q s) = queue_tun_isempty_nolock s"
  "queue_sock_isempty_nolock (emit es s) = queue_sock_isempty_nolock s"
  "queue_sock_isempty_nolock (set_mutex q b s) = queue_sock_isempty_nolock s"
  "queue_sock_isempty_nolock (pthread_mutex_unlock q s) = queue_sock_isempty_nolock s"
  "queue_tun_isempty_nolock (s\<lparr>lock_tunqueue := b\<rparr>) = queue_tun_isempty_nolock s"
  "queue_tun_isempty_nolock (s\<lparr>trace := tr\<rparr>) = queue_tun_isempty_nolock s"
  "queue_sock_isempty_nolock (s\<lparr>lock_sockqueue := b\<rparr>) = queue_sock_isempty_nolock s"
  "queue_sock_isempty_nolock (s\<lparr>trace := tr\<rparr>) = queue_sock_isempty_nolock s"
  by (cases q; simp add: queue_tun_isempty_nolock_def queue_sock_isempty_nolock_def
      emit_def pthread_mutex_unlock_def)+

lemma block_tun_loop_returned:
  "block_on_tun_empty_loop ws s = Returned u s' \<Longrightarrow>
   queue_tun_isempty_nolock s' = 0 \<and> \<not> lock_tunqueue s'"
proof (induction ws arbitrary: s)
  case Nil
  then show ?case
    by (auto simp: isempty_nolock_frame pthread_mutex_unlock_def emit_def split: if_splits)
next
  case (Cons w ws)
  show ?case
  proof (cases "queue_tun_isempty_nolock s \<noteq> 0")
    case True
    with Cons.prems
    have "block_on_tun_empty_loop ws
            (pthread_cond_timedwait TunQ ((w_now w)\<lparr>tv_sec := tv_sec (w_now w) + 1\<rparr>) w s)
          = Returned u s'"
      by (simp add: Let_def exit_process_def split: if_splits)
    then show ?thesis by (rule Cons.IH)
  next
    case False
    with Cons.prems show ?thesis
      by (auto simp: isempty_nolock_frame pthread_mutex_unlock_def emit_def)
  qed
qed

lemma block_tun_loop_nonempty:
  "queue_tun_isempty_nolock s = 0 \<Longrightarrow>
   block_on_tun_empty_loop ws s = Returned () (pthread_mutex_unlock TunQ s)"
  by (cases ws) simp_all

lemma timedwait_tun_leaves_alone:
  "leaves_alone w \<Longrightarrow>
   queue_tun_isempty_nolock (pthread_cond_timedwait TunQ ts w s) = queue_tun_isempty_nolock s \<and>
   trace (pthread_cond_timedwait TunQ ts w s) = trace s @ [CondTimedwait TunQ ts (w_rc w)]"
  by (simp add: leaves_alone_def pthread_cond_timedwait_def queue_tun_isempty_nolock_def
      emit_def)

lemma block_tun_loop_stays:
  "\<forall>w\<in>set ws. wait_ok w \<and> leaves_alone w \<Longrightarrow> queue_tun_isempty_nolock s \<noteq> 0 \<Longrightarrow>
   \<exists>b. block_on_tun_empty_loop ws s = Blocked b \<and>
       trace b = trace s @ map (wait_event TunQ) ws"
proof (induction ws arbitrary: s)
  case Nil
  then show ?case by simp
next
  case (Cons w ws)
  let ?s1 = "pthread_cond_timedwait TunQ ((w_now w)\<lparr>tv_sec := tv_sec (w_now w) + 1\<rparr>) w s"
  from Cons.prems have w: "wait_ok w" "leaves_alone w"
    and rest: "\<forall>w\<in>set ws. wait_ok w \<and> leaves_alone w"
    by simp_all
  have e: "queue_tun_isempty_nolock ?s1 \<noteq> 0"
    using timedwait_tun_leaves_alone [OF w(2)] Cons.prems(2) by simp
  have t: "trace ?s1 = trace s @ [wait_event TunQ w]"
    using timedwait_tun_leaves_alone [OF w(2)] by (simp add: wait_event_def)
  have step: "block_on_tun_empty_loop (w # ws) s = block_on_tun_empty_loop ws ?s1"
    using Cons.prems(2) w(1) by (auto simp: Let_def wait_ok_def)
  from Cons.IH [OF rest e] obtain b where
    "block_on_tun_empty_loop ws ?s1 = Blocked b" "trace b = trace ?s1 @ map (wait_event TunQ) ws"
    by blast
  then show ?case unfolding step by (simp add: t)
qed

lemma block_tun_loop_wakes:
  "queue_tun_isempty_nolock s \<noteq> 0 \<Longrightarrow> wait_ok w \<Longrightarrow>
   queue_tun_isempty_nolock (w_during w (set_mutex TunQ False s)) = 0 \<Longrightarrow>
   is_Returned (block_on_tun_empty_loop (w # ws) s)"
  by (auto simp: Let_def wait_ok_def block_tun_loop_nonempty pthread_cond_timedwait_def
      isempty_nolock_frame)

lemma block_sock_loop_returned:
  "block_on_sock_empty_loop ws s = Returned u s' \<Longrightarrow>
   queue_sock_isempty_nolock s' = 0 \<and> \<not> lock_sockqueue s'"
proof (induction ws arbitrary: s)
  case Nil
  then show ?case
    by (auto simp: isempty_nolock_frame pthread_mutex_unlock_def emit_def split: if_splits)
next
  case (Cons w ws)
  show ?case
  proof (cases "queue_sock_isempty_nolock s \<noteq> 0")
    case True
    with Cons.prems
    have "block_on_sock_empty_loop ws
            (pthread_cond_timedwait SockQ ((w_now w)\<lparr>tv_sec := tv_sec (w_now w) + 1\<rparr>) w s)
          = Returned u s'"
      by (simp add: Let_def exit_process_def split: if_splits)
    then show ?thesis by (rule Cons.IH)
  next
    case False
    with Cons.prems show ?thesis
      by (auto simp: isempty_nolock_frame pthread_mutex_unlock_def emit_def)
  qed
qed

lemma block_sock_loop_nonempty:
  "queue_sock_isempty_nolock s = 0 \<Longrightarrow>
   block_on_sock_empty_loop ws s = Returned () (pthread_mutex_unlock SockQ s)"
  by (cases ws) simp_all

lemma timedwait_sock_leaves_alone:
  "leaves_alone w \<Longrightarrow>
   queue_sock_isempty_nolock (pthread_cond_timedwait SockQ ts w s) = queue_sock_isempty_nolock s \<and>
   trace (pthread_cond_timedwait SockQ ts w s) = trace s @ [CondTimedwait SockQ ts (w_rc w)]"
  by (simp add: leaves_alone_def pthread_cond_timedwait_def queue_sock_isempty_nolock_def
      emit_def)

lemma block_sock_loop_stays:
  "\<forall>w\<in>set ws. wait_ok w \<and> leaves_alone w \<Longrightarrow> queue_sock_isempty_nolock s \<noteq> 0 \<Longrightarrow>
   \<exists>b. block_on_sock_empty_loop ws s = Blocked b \<and>
       trace b = trace s @ map (wait_event SockQ) ws"
proof (induction ws arbitrary: s)
  case Nil
  then show ?case by simp
next
  case (Cons w ws)
  let ?s1 = "pthread_cond_timedwait SockQ ((w_now w)\<lparr>tv_sec := tv_sec (w_now w) + 1\<rparr>) w s"
  from Cons.prems have w: "wait_ok w" "leaves_alone w"
    and rest: "\<forall>w\<in>set ws. wait_ok w \<and> leaves_alone w"
    by simp_all
  have e: "queue_sock_isempty_nolock ?s1 \<noteq> 0"
    using timedwait_sock_leaves_alone [OF w(2)] Cons.prems(2) by simp
  have t: "trace ?s1 = trace s @ [wait_event SockQ w]"
    using timedwait_sock_leaves_alone [OF w(2)] by (simp add: wait_event_def)
  have step: "block_on_sock_empty_loop (w # ws) s = block_on_sock_empty_loop ws ?s1"
    using Cons.prems(2) w(1) by (auto simp: Let_def wait_ok_def)
  from Cons.IH [OF rest e] obtain b where
    "block_on_sock_empty_loop ws ?s1 = Blocked b" "trace b = trace ?s1 @ map (wait_event SockQ) ws"
    by blast
  then show ?case unfolding step by (simp add: t)
qed

lemma block_sock_loop_wakes:
  "queue_sock_isempty_nolock s \<noteq> 0 \<Longrightarrow> wait_ok w \<Longrightarrow>
   queue_sock_isempty_nolock (w_during w (set_mutex SockQ False s)) = 0 \<Longrightarrow>
   is_Returned (block_on_sock_empty_loop (w # ws) s)"
  by (auto simp: Let_def wait_ok_def block_sock_loop_nonempty pthread_cond_timedwait_def
      isempty_nolock_frame)

lemma block_on_tun_empty_unfold:
  "\<not> lock_tunqueue s \<Longrightarrow>
   block_on_tun_empty ws s =
     block_on_tun_empty_loop ws (emit [MutexLock TunQ] (set_mutex TunQ True s))"
  by (simp add: block_on_tun_empty_def pthread_mutex_lock_def)

lemma block_on_sock_empty_unfold:
  "\<not> lock_sockqueue s \<Longrightarrow>
   block_on_sock_empty ws s =
     block_on_sock_empty_loop ws (emit [MutexLock SockQ] (set_mutex SockQ True s))"
  by (simp add: block_on_sock_empty_def pthread_mutex_lock_def)

lemma relock_tun:
  "\<not> lock_tunqueue s \<Longrightarrow>
   set_mutex TunQ False (emit [MutexLock TunQ] (set_mutex TunQ True s)) = emit [MutexLock TunQ] s"
  "\<not> lock_tunqueue s \<Longrightarrow>
   pthread_mutex_unlock TunQ (emit [MutexLock TunQ] (set_mutex TunQ True s)) =
     emit [MutexLock TunQ, MutexUnlock TunQ] s"
  by (simp_all add: emit_def pthread_mutex_unlock_def)

lemma relock_sock:
  "\<not> lock_sockqueue s \<Longrightarrow>
   set_mutex SockQ False (emit [MutexLock SockQ] (set_mutex SockQ True s)) =
     emit [MutexLock SockQ] s"
  "\<not> lock_sockqueue s \<Longrightarrow>
   pthread_mutex_unlock SockQ (emit [MutexLock SockQ] (set_mutex SockQ True s)) =
     emit [MutexLock SockQ, MutexUnlock SockQ] s"
  by (simp_all add: emit_def pthread_mutex_unlock_def)

lemma block_on_tun_empty_facts:
  assumes "\<not> lock_tunqueue s"
  shows "(block_on_tun_empty ws s = Returned u s' \<longrightarrow> queue_tun_isempty_nolock s' = 0) \<and>
    (queue_tun_isempty_nolock s = 0 \<longrightarrow>
       block_on_tun_empty ws s = Returned () (emit [MutexLock TunQ, MutexUnlock TunQ] s)) \<and>
    (queue_tun_isempty_nolock s \<noteq> 0 \<and> (\<forall>w\<in>set ws. wait_ok w \<and> leaves_alone w) \<longrightarrow>
       (\<exists>b. block_on_tun_empty ws s = Blocked b \<and>
            trace b = trace s @ MutexLock TunQ # map (wait_event TunQ) ws)) \<and>
    (queue_tun_isempty_nolock s \<noteq> 0 \<and> wait_ok w \<and>
     queue_tun_isempty_nolock (w_during w (emit [MutexLock TunQ] s)) = 0 \<longrightarrow>
       is_Returned (block_on_tun_empty (w # ws) s))"
proof (intro conjI impI)
  assume "block_on_tun_empty ws s = Returned u s'"
  then show "queue_tun_isempty_nolock s' = 0"
    using block_tun_loop_returned by (simp add: block_on_tun_empty_unfold [OF assms])
next
  assume "queue_tun_isempty_nolock s = 0"
  then show "block_on_tun_empty ws s = Returned () (emit [MutexLock TunQ, MutexUnlock TunQ] s)"
    using assms
    by (simp add: block_on_tun_empty_unfold block_tun_loop_nonempty
        isempty_nolock_frame pthread_mutex_unlock_def emit_def)
next
  assume a: "queue_tun_isempty_nolock s \<noteq> 0 \<and> (\<forall>w\<in>set ws. wait_ok w \<and> leaves_alone w)"
  then have e: "queue_tun_isempty_nolock (emit [MutexLock TunQ] (set_mutex TunQ True s)) \<noteq> 0"
    by (simp add: isempty_nolock_frame)
  from a have q: "\<forall>w\<in>set ws. wait_ok w \<and> leaves_alone w" by simp
  show "\<exists>b. block_on_tun_empty ws s = Blocked b \<and>
            trace b = trace s @ MutexLock TunQ # map (wait_event TunQ) ws"
    using block_tun_loop_stays [OF q e]
    by (simp add: block_on_tun_empty_unfold [OF assms] emit_def)
next
  assume a: "queue_tun_isempty_nolock s \<noteq> 0 \<and> wait_ok w \<and>
     queue_tun_isempty_nolock (w_during w (emit [MutexLock TunQ] s)) = 0"
  from a have p1: "queue_tun_isempty_nolock (emit [MutexLock TunQ] (set_mutex TunQ True s)) \<noteq> 0"
    by (simp add: isempty_nolock_frame)
  from a have p2: "wait_ok w" by simp
  from a have p3: "queue_tun_isempty_nolock
      (w_during w (set_mutex TunQ False (emit [MutexLock TunQ] (set_mutex TunQ True s)))) = 0"
    by (simp only: relock_tun(1) [OF assms])
  show "is_Returned (block_on_tun_empty (w # ws) s)"
    unfolding block_on_tun_empty_unfold [OF assms]
    by (rule block_tun_loop_wakes [OF p1 p2 p3])
qed

lemma block_on_sock_empty_facts:
  assumes "\<not> lock_sockqueue s"
  shows "(block_on_sock_empty ws s = Returned u s' \<longrightarrow> queue_sock_isempty_nolock s' = 0) \<and>
    (queue_sock_isempty_nolock s = 0 \<longrightarrow>
       block_on_sock_empty ws s = Returned () (emit [MutexLock SockQ, MutexUnlock SockQ] s)) \<and>
    (queue_sock_isempty_nolock s \<noteq> 0 \<and> (\<forall>w\<in>set ws. wait_ok w \<and> leaves_alone w) \<longrightarrow>
       (\<exists>b. block_on_sock_empty ws s = Blocked b \<and>
            trace b = trace s @ MutexLock SockQ # map (wait_event SockQ) ws)) \<and>
    (queue_sock_isempty_nolock s \<noteq> 0 \<and> wait_ok w \<and>
     queue_sock_isempty_nolock (w_during w (emit [MutexLock SockQ] s)) = 0 \<longrightarrow>
       is_Returned (block_on_sock_empty (w # ws) s))"
proof (intro conjI impI)
  assume "block_on_sock_empty ws s = Returned u s'"
  then show "queue_sock_isempty_nolock s' = 0"
    using block_sock_loop_returned by (simp add: block_on_sock_empty_unfold [OF assms])
next
  assume "queue_sock_isempty_nolock s = 0"
  then show "block_on_sock_empty ws s =
      Returned () (emit [MutexLock SockQ, MutexUnlock SockQ] s)"
    using assms
    by (simp add: block_on_sock_empty_unfold block_sock_loop_nonempty
        isempty_nolock_frame pthread_mutex_unlock_def emit_def)
next
  assume a: "queue_sock_isempty_nolock s \<noteq> 0 \<and> (\<forall>w\<in>set ws. wait_ok w \<and> leaves_alone w)"
  then have e: "queue_sock_isempty_nolock (emit [MutexLock SockQ] (set_mutex SockQ True s)) \<noteq> 0"
    by (simp add: isempty_nolock_frame)
  from a have q: "\<forall>w\<in>set ws. wait_ok w \<and> leaves_alone w" by simp
  show "\<exists>b. block_on_sock_empty ws s = Blocked b \<and>
            trace b = trace s @ MutexLock SockQ # map (wait_event SockQ) ws"
    using block_sock_loop_stays [OF q e]
    by (simp add: block_on_sock_empty_unfold [OF assms] emit_def)
next
  assume a: "queue_sock_isempty_nolock s \<noteq> 0 \<and> wait_ok w \<and>
     queue_sock_isempty_nolock (w_during w (emit [MutexLock SockQ] s)) = 0"
  from a have p1: "queue_sock_isempty_nolock (emit [MutexLock SockQ] (set_mutex SockQ True s)) \<noteq> 0"
    by (simp add: isempty_nolock_frame)
  from a have p2: "wait_ok w" by simp
  from a have p3: "queue_sock_isempty_nolock
      (w_during w (set_mutex SockQ False (emit [MutexLock SockQ] (set_mutex SockQ True s)))) = 0"
    by (simp only: relock_sock(1) [OF assms])
  show "is_Returned (block_on_sock_empty (w # ws) s)"
    unfolding block_on_sock_empty_unfold [OF assms]
    by (rule block_sock_loop_wakes [OF p1 p2 p3])
qed

text \<open>Any number of waits, one after the other.\<close>

lemma waits_done_append:
  "waits_done q (ws1 @ ws2) s = waits_done q ws2 (waits_done q ws1 s)"
  by (induction ws1 arbitrary: s) simp_all

lemma block_tun_loop_through:
  "waits_through_tun ws1 s \<Longrightarrow>
   block_on_tun_empty_loop (ws1 @ ws2) s = block_on_tun_empty_loop ws2 (waits_done TunQ ws1 s)"
proof (induction ws1 arbitrary: s)
  case Nil
  show ?case by simp
next
  case (Cons w ws1)
  let ?s1 = "pthread_cond_timedwait TunQ ((w_now w)\<lparr>tv_sec := tv_sec (w_now w) + 1\<rparr>) w s"
  from Cons.prems have e: "queue_tun_isempty_nolock s \<noteq> 0" and k: "wait_ok w"
    and t: "waits_through_tun ws1 ?s1"
    by simp_all
  have "block_on_tun_empty_loop ((w # ws1) @ ws2) s = block_on_tun_empty_loop (ws1 @ ws2) ?s1"
    using e k by (auto simp: Let_def wait_ok_def)
  also have "\<dots> = block_on_tun_empty_loop ws2 (waits_done TunQ ws1 ?s1)"
    by (rule Cons.IH [OF t])
  finally show ?case by simp
qed

lemma block_sock_loop_through:
  "waits_through_sock ws1 s \<Longrightarrow>
   block_on_sock_empty_loop (ws1 @ ws2) s =
     block_on_sock_empty_loop ws2 (waits_done SockQ ws1 s)"
proof (induction ws1 arbitrary: s)
  case Nil
  show ?case by simp
next
  case (Cons w ws1)
  let ?s1 = "pthread_cond_timedwait SockQ ((w_now w)\<lparr>tv_sec := tv_sec (w_now w) + 1\<rparr>) w s"
  from Cons.prems have e: "queue_sock_isempty_nolock s \<noteq> 0" and k: "wait_ok w"
    and t: "waits_through_sock ws1 ?s1"
    by simp_all
  have "block_on_sock_empty_loop ((w # ws1) @ ws2) s =
      block_on_sock_empty_loop (ws1 @ ws2) ?s1"
    using e k by (auto simp: Let_def wait_ok_def)
  also have "\<dots> = block_on_sock_empty_loop ws2 (waits_done SockQ ws1 ?s1)"
    by (rule Cons.IH [OF t])
  finally show ?case by simp
qed

lemma block_tun_loop_fails:
  "queue_tun_isempty_nolock s \<noteq> 0 \<Longrightarrow> \<not> wait_ok w \<Longrightarrow>
   block_on_tun_empty_loop (w # ws) s =
     Exited (emit [Tspslog ''Conditional wait error'', Exit 1] (waits_done TunQ [w] s))"
  by (simp add: Let_def wait_ok_def exit_process_def tspslog_def emit_def)

lemma block_sock_loop_fails:
  "queue_sock_isempty_nolock s \<noteq> 0 \<Longrightarrow> \<not> wait_ok w \<Longrightarrow>
   block_on_sock_empty_loop (w # ws) s =
     Exited (emit [Tspslog ''Conditional wait error'', Exit 1] (waits_done SockQ [w] s))"
  by (simp add: Let_def wait_ok_def exit_process_def tspslog_def emit_def)

lemma idle_waits_through_tun:
  "\<forall>w\<in>set ws. wait_ok w \<and> leaves_alone w \<Longrightarrow> queue_tun_isempty_nolock s \<noteq> 0 \<Longrightarrow>
   waits_through_tun ws s \<and> queue_tun_isempty_nolock (waits_done TunQ ws s) \<noteq> 0"
proof (induction ws arbitrary: s)
  case Nil
  then show ?case by simp
next
  case (Cons w ws)
  let ?s1 = "pthread_cond_timedwait TunQ ((w_now w)\<lparr>tv_sec := tv_sec (w_now w) + 1\<rparr>) w s"
  from Cons.prems have w: "wait_ok w" "leaves_alone w"
    and rest: "\<forall>w\<in>set ws. wait_ok w \<and> leaves_alone w"
    by simp_all
  have e: "queue_tun_isempty_nolock ?s1 \<noteq> 0"
    using timedwait_tun_leaves_alone [OF w(2)] Cons.prems(2) by simp
  show ?case
    using Cons.IH [OF rest e] Cons.prems(2) w(1) by simp
qed

lemma idle_waits_through_sock:
  "\<forall>w\<in>set ws. wait_ok w \<and> leaves_alone w \<Longrightarrow> queue_sock_isempty_nolock s \<noteq> 0 \<Longrightarrow>
   waits_through_sock ws s \<and> queue_sock_isempty_nolock (waits_done SockQ ws s) \<noteq> 0"
proof (induction ws arbitrary: s)
  case Nil
  then show ?case by simp
next
  case (Cons w ws)
  let ?s1 = "pthread_cond_timedwait SockQ ((w_now w)\<lparr>tv_sec := tv_sec (w_now w) + 1\<rparr>) w s"
  from Cons.prems have w: "wait_ok w" "leaves_alone w"
    and rest: "\<forall>w\<in>set ws. wait_ok w \<and> leaves_alone w"
    by simp_all
  have e: "queue_sock_isempty_nolock ?s1 \<noteq> 0"
    using timedwait_sock_leaves_alone [OF w(2)] Cons.prems(2) by simp
  show ?case
    using Cons.IH [OF rest e] Cons.prems(2) w(1) by simp
qed

lemma block_on_tun_empty_through:
  assumes "\<not> lock_tunqueue s"
  shows "(block_on_tun_empty ws s = Returned u s' \<longrightarrow> \<not> lock_tunqueue s') \<and>
    (waits_through_tun ws1 (emit [MutexLock TunQ] (set_mutex TunQ True s)) \<and>
     queue_tun_isempty_nolock
       (waits_done TunQ ws1 (emit [MutexLock TunQ] (set_mutex TunQ True s))) = 0 \<longrightarrow>
       block_on_tun_empty (ws1 @ ws2) s =
         Returned ()
           (pthread_mutex_unlock TunQ
              (waits_done TunQ ws1 (emit [MutexLock TunQ] (set_mutex TunQ True s))))) \<and>
    (waits_through_tun ws (emit [MutexLock TunQ] (set_mutex TunQ True s)) \<and>
     queue_tun_isempty_nolock
       (waits_done TunQ ws (emit [MutexLock TunQ] (set_mutex TunQ True s))) \<noteq> 0 \<longrightarrow>
       block_on_tun_empty ws s =
         Blocked
           (set_mutex TunQ False
              (waits_done TunQ ws (emit [MutexLock TunQ] (set_mutex TunQ True s))))) \<and>
    (waits_through_tun ws1 (emit [MutexLock TunQ] (set_mutex TunQ True s)) \<and>
     queue_tun_isempty_nolock
       (waits_done TunQ ws1 (emit [MutexLock TunQ] (set_mutex TunQ True s))) \<noteq> 0 \<and>
     \<not> wait_ok w \<longrightarrow>
       block_on_tun_empty (ws1 @ w # ws2) s =
         Exited
           (emit [Tspslog ''Conditional wait error'', Exit 1]
              (waits_done TunQ (ws1 @ [w])
                 (emit [MutexLock TunQ] (set_mutex TunQ True s)))))"
proof (intro conjI impI)
  assume "block_on_tun_empty ws s = Returned u s'"
  then show "\<not> lock_tunqueue s'"
    using block_tun_loop_returned by (simp add: block_on_tun_empty_unfold [OF assms])
next
  let ?L = "emit [MutexLock TunQ] (set_mutex TunQ True s)"
  assume a: "waits_through_tun ws1 ?L \<and> queue_tun_isempty_nolock (waits_done TunQ ws1 ?L) = 0"
  then have t: "waits_through_tun ws1 ?L"
    and n: "queue_tun_isempty_nolock (waits_done TunQ ws1 ?L) = 0"
    by blast+
  show "block_on_tun_empty (ws1 @ ws2) s =
      Returned () (pthread_mutex_unlock TunQ (waits_done TunQ ws1 ?L))"
    unfolding block_on_tun_empty_unfold [OF assms] block_tun_loop_through [OF t]
    by (rule block_tun_loop_nonempty [OF n])
next
  let ?L = "emit [MutexLock TunQ] (set_mutex TunQ True s)"
  assume a: "waits_through_tun ws ?L \<and> queue_tun_isempty_nolock (waits_done TunQ ws ?L) \<noteq> 0"
  then have t: "waits_through_tun ws ?L"
    and n: "queue_tun_isempty_nolock (waits_done TunQ ws ?L) \<noteq> 0"
    by blast+
  have "block_on_tun_empty_loop (ws @ []) ?L = block_on_tun_empty_loop [] (waits_done TunQ ws ?L)"
    by (rule block_tun_loop_through [OF t])
  then show "block_on_tun_empty ws s = Blocked (set_mutex TunQ False (waits_done TunQ ws ?L))"
    unfolding block_on_tun_empty_unfold [OF assms] using n by simp
next
  let ?L = "emit [MutexLock TunQ] (set_mutex TunQ True s)"
  assume a: "waits_through_tun ws1 ?L \<and>
     queue_tun_isempty_nolock (waits_done TunQ ws1 ?L) \<noteq> 0 \<and> \<not> wait_ok w"
  then have t: "waits_through_tun ws1 ?L"
    and n: "queue_tun_isempty_nolock (waits_done TunQ ws1 ?L) \<noteq> 0"
    and k: "\<not> wait_ok w"
    by blast+
  show "block_on_tun_empty (ws1 @ w # ws2) s =
      Exited (emit [Tspslog ''Conditional wait error'', Exit 1]
                (waits_done TunQ (ws1 @ [w]) ?L))"
    unfolding block_on_tun_empty_unfold [OF assms] block_tun_loop_through [OF t]
      block_tun_loop_fails [OF n k] waits_done_append
    by (rule refl)
qed

lemma block_on_sock_empty_through:
  assumes "\<not> lock_sockqueue s"
  shows "(block_on_sock_empty ws s = Returned u s' \<longrightarrow> \<not> lock_sockqueue s') \<and>
    (waits_through_sock ws1 (emit [MutexLock SockQ] (set_mutex SockQ True s)) \<and>
     queue_sock_isempty_nolock
       (waits_done SockQ ws1 (emit [MutexLock SockQ] (set_mutex SockQ True s))) = 0 \<longrightarrow>
       block_on_sock_empty (ws1 @ ws2) s =
         Returned ()
           (pthread_mutex_unlock SockQ
              (waits_done SockQ ws1 (emit [MutexLock SockQ] (set_mutex SockQ True s))))) \<and>
    (waits_through_sock ws (emit [MutexLock SockQ] (set_mutex SockQ True s)) \<and>
     queue_sock_isempty_nolock
       (waits_done SockQ ws (emit [MutexLock SockQ] (set_mutex SockQ True s))) \<noteq> 0 \<longrightarrow>
       block_on_sock_empty ws s =
         Blocked
           (set_mutex SockQ False
              (waits_done SockQ ws (emit [MutexLock SockQ] (set_mutex SockQ True s))))) \<and>
    (waits_through_sock ws1 (emit [MutexLock SockQ] (set_mutex SockQ True s)) \<and>
     queue_sock_isempty_nolock
       (waits_done SockQ ws1 (emit [MutexLock SockQ] (set_mutex SockQ True s))) \<noteq> 0 \<and>
     \<not> wait_ok w \<longrightarrow>
       block_on_sock_empty (ws1 @ w # ws2) s =
         Exited
           (emit [Tspslog ''Conditional wait error'', Exit 1]
              (waits_done SockQ (ws1 @ [w])
                 (emit [MutexLock SockQ] (set_mutex SockQ True s)))))"
proof (intro conjI impI)
  assume "block_on_sock_empty ws s = Returned u s'"
  then show "\<not> lock_sockqueue s'"
    using block_sock_loop_returned by (simp add: block_on_sock_empty_unfold [OF assms])
next
  let ?L = "emit [MutexLock SockQ] (set_mutex SockQ True s)"
  assume a: "waits_through_sock ws1 ?L \<and>
     queue_sock_isempty_nolock (waits_done SockQ ws1 ?L) = 0"
  then have t: "waits_through_sock ws1 ?L"
    and n: "queue_sock_isempty_nolock (waits_done SockQ ws1 ?L) = 0"
    by blast+
  show "block_on_sock_empty (ws1 @ ws2) s =
      Returned () (pthread_mutex_unlock SockQ (waits_done SockQ ws1 ?L))"
    unfolding block_on_sock_empty_unfold [OF assms] block_sock_loop_through [OF t]
    by (rule block_sock_loop_nonempty [OF n])
next
  let ?L = "emit [MutexLock SockQ] (set_mutex SockQ True s)"
  assume a: "waits_through_sock ws ?L \<and>
     queue_sock_isempty_nolock (waits_done SockQ ws ?L) \<noteq> 0"
  then have t: "waits_through_sock ws ?L"
    and n: "queue_sock_isempty_nolock (waits_done SockQ ws ?L) \<noteq> 0"
    by blast+
  have "block_on_sock_empty_loop (ws @ []) ?L =
      block_on_sock_empty_loop [] (waits_done SockQ ws ?L)"
    by (rule block_sock_loop_through [OF t])
  then show "block_on_sock_empty ws s =
      Blocked (set_mutex SockQ False (waits_done SockQ ws ?L))"
    unfolding block_on_sock_empty_unfold [OF assms] using n by simp
next
  let ?L = "emit [MutexLock SockQ] (set_mutex SockQ True s)"
  assume a: "waits_through_sock ws1 ?L \<and>
     queue_sock_isempty_nolock (waits_done SockQ ws1 ?L) \<noteq> 0 \<and> \<not> wait_ok w"
  then have t: "waits_through_sock ws1 ?L"
    and n: "queue_sock_isempty_nolock (waits_done SockQ ws1 ?L) \<noteq> 0"
    and k: "\<not> wait_ok w"
    by blast+
  show "block_on_sock_empty (ws1 @ w # ws2) s =
      Exited (emit [Tspslog ''Conditional wait error'', Exit 1]
                (waits_done SockQ (ws1 @ [w]) ?L))"
    unfolding block_on_sock_empty_unfold [OF assms] block_sock_loop_through [OF t]
      block_sock_loop_fails [OF n k] waits_done_append
    by (rule refl)
qed


text \<open>
  C2, as stated, fails: with the queue empty, a wait that runs into its deadline with
  the queue still empty does not make block_on_tun_empty or block_on_sock_empty return.
\<close>

theorem block_on_empty_timeout_counterexample:
  "\<not> is_Returned (block_on_tun_empty [timeout_wait] (init_state 2 [] [])) \<and>
   \<not> is_Returned (block_on_sock_empty [timeout_wait] (init_state 2 [] []))"
  by (simp add: block_on_tun_empty_def block_on_sock_empty_def pthread_mutex_lock_def
      init_state_def emit_def queue_tun_isempty_nolock_def queue_sock_isempty_nolock_def
      signed_modulo_int_def QUEUE_SIZE_def timeout_wait_def pthread_cond_timedwait_def
      ETIMEDOUT_def Let_def)

text \<open>
  C2, amended. block_on_tun_empty and block_on_sock_empty (mutex free at entry) return
  at once when the queue is not empty, and whenever they return the queue is not empty.
  While the queue is empty they wait with pthread_cond_timedwait, each wait with a
  deadline one second after the clock reading; after a wait that returns 0 or ETIMEDOUT
  they test emptiness again themselves: if the other threads left the queue alone they
  wait again, however many waits time out, and if the queue is no longer empty they
  return. In full, for any number of waits that return 0 or ETIMEDOUT and end with the
  queue still empty: when the queue is not empty after the last of them the call
  returns right then, from the state these waits have led to, with the mutex released,
  and makes no further wait; when it is still empty and no wait is left the caller is
  still waiting; and when the next wait returns anything else the process exits after
  one log message.
\<close>

theorem block_on_empty_returns_only_nonempty:
  assumes "\<not> lock_tunqueue s" and "\<not> lock_sockqueue s"
  shows "((block_on_tun_empty ws s = Returned u s' \<longrightarrow>
       queue_tun_isempty_nolock s' = 0 \<and> \<not> lock_tunqueue s') \<and>
    (queue_tun_isempty_nolock s = 0 \<longrightarrow>
       block_on_tun_empty ws s = Returned () (emit [MutexLock TunQ, MutexUnlock TunQ] s)) \<and>
    (queue_tun_isempty_nolock s \<noteq> 0 \<and> (\<forall>w\<in>set ws. wait_ok w \<and> leaves_alone w) \<longrightarrow>
       (\<exists>b. block_on_tun_empty ws s = Blocked b \<and>
            trace b = trace s @ MutexLock TunQ # map (wait_event TunQ) ws)) \<and>
    (queue_tun_isempty_nolock s \<noteq> 0 \<and> wait_ok w \<and>
     queue_tun_isempty_nolock (w_during w (emit [MutexLock TunQ] s)) = 0 \<longrightarrow>
       is_Returned (block_on_tun_empty (w # ws) s)) \<and>
    (waits_through_tun ws1 (emit [MutexLock TunQ] (set_mutex TunQ True s)) \<and>
     queue_tun_isempty_nolock
       (waits_done TunQ ws1 (emit [MutexLock TunQ] (set_mutex TunQ True s))) = 0 \<longrightarrow>
       block_on_tun_empty (ws1 @ ws2) s =
         Returned ()
           (pthread_mutex_unlock TunQ
              (waits_done TunQ ws1 (emit [MutexLock TunQ] (set_mutex TunQ True s))))) \<and>
    (waits_through_tun ws (emit [MutexLock TunQ] (set_mutex TunQ True s)) \<and>
     queue_tun_isempty_nolock
       (waits_done TunQ ws (emit [MutexLock TunQ] (set_mutex TunQ True s))) \<noteq> 0 \<longrightarrow>
       block_on_tun_empty ws s =
         Blocked
           (set_mutex TunQ False
              (waits_done TunQ ws (emit [MutexLock TunQ] (set_mutex TunQ True s))))) \<and>
    (waits_through_tun ws1 (emit [MutexLock TunQ] (set_mutex TunQ True s)) \<and>
     queue_tun_isempty_nolock
       (waits_done TunQ ws1 (emit [MutexLock TunQ] (set_mutex TunQ True s))) \<noteq> 0 \<and>
     \<not> wait_ok w \<longrightarrow>
       block_on_tun_empty (ws1 @ w # ws2) s =
         Exited
           (emit [Tspslog ''Conditional wait error'', Exit 1]
              (waits_done TunQ (ws1 @ [w])
                 (emit [MutexLock TunQ] (set_mutex TunQ True s)))))) \<and>
    ((block_on_sock_empty ws s = Returned u s' \<longrightarrow>
       queue_sock_isempty_nolock s' = 0 \<and> \<not> lock_sockqueue s') \<and>
    (queue_sock_isempty_nolock s = 0 \<longrightarrow>
       block_on_sock_empty ws s = Returned () (emit [MutexLock SockQ, MutexUnlock SockQ] s)) \<and>
    (queue_sock_isempty_nolock s \<noteq> 0 \<and> (\<forall>w\<in>set ws. wait_ok w \<and> leaves_alone w) \<longrightarrow>
       (\<exists>b. block_on_sock_empty ws s = Blocked b \<and>
            trace b = trace s @ MutexLock SockQ # map (wait_event SockQ) ws)) \<and>
    (queue_sock_isempty_nolock s \<noteq> 0 \<and> wait_ok w \<and>
     queue_sock_isempty_nolock (w_during w (emit [MutexLock SockQ] s)) = 0 \<longrightarrow>
       is_Returned (block_on_sock_empty (w # ws) s)) \<and>
    (waits_through_sock ws1 (emit [MutexLock SockQ] (set_mutex SockQ True s)) \<and>
     queue_sock_isempty_nolock
       (waits_done SockQ ws1 (emit [MutexLock SockQ] (set_mutex SockQ True s))) = 0 \<longrightarrow>
       block_on_sock_empty (ws1 @ ws2) s =
         Returned ()
           (pthread_mutex_unlock SockQ
              (waits_done SockQ ws1 (emit [MutexLock SockQ] (set_mutex SockQ True s))))) \<and>
    (waits_through_sock ws (emit [MutexLock SockQ] (set_mutex SockQ True s)) \<and>
     queue_sock_isempty_nolock
       (waits_done SockQ ws (emit [MutexLock SockQ] (set_mutex SockQ True s))) \<noteq> 0 \<longrightarrow>
       block_on_sock_empty ws s =
         Blocked
           (set_mutex SockQ False
              (waits_done SockQ ws (emit [MutexLock SockQ] (set_mutex SockQ True s))))) \<and>
    (waits_through_sock ws1 (emit [MutexLock SockQ] (set_mutex SockQ True s)) \<and>
     queue_sock_isempty_nolock
       (waits_done SockQ ws1 (emit [MutexLock SockQ] (set_mutex SockQ True s))) \<noteq> 0 \<and>
     \<not> wait_ok w \<longrightarrow>
       block_on_sock_empty (ws1 @ w # ws2) s =
         Exited
           (emit [Tspslog ''Conditional wait error'', Exit 1]
              (waits_done SockQ (ws1 @ [w])
                 (emit [MutexLock SockQ] (set_mutex SockQ True s))))))"
proof -
  have tun: "(block_on_tun_empty ws s = Returned u s' \<longrightarrow>
       queue_tun_isempty_nolock s' = 0 \<and> \<not> lock_tunqueue s') \<and>
    (queue_tun_isempty_nolock s = 0 \<longrightarrow>
       block_on_tun_empty ws s = Returned () (emit [MutexLock TunQ, MutexUnlock TunQ] s)) \<and>
    (queue_tun_isempty_nolock s \<noteq> 0 \<and> (\<forall>w\<in>set ws. wait_ok w \<and> leaves_alone w) \<longrightarrow>
       (\<exists>b. block_on_tun_empty ws s = Blocked b \<and>
            trace b = trace s @ MutexLock TunQ # map (wait_event TunQ) ws)) \<and>
    (queue_tun_isempty_nolock s \<noteq> 0 \<and> wait_ok w \<and>
     queue_tun_isempty_nolock (w_during w (emit [MutexLock TunQ] s)) = 0 \<longrightarrow>
       is_Returned (block_on_tun_empty (w # ws) s)) \<and>
    (waits_through_tun ws1 (emit [MutexLock TunQ] (set_mutex TunQ True s)) \<and>
     queue_tun_isempty_nolock
       (waits_done TunQ ws1 (emit [MutexLock TunQ] (set_mutex TunQ True s))) = 0 \<longrightarrow>
       block_on_tun_empty (ws1 @ ws2) s =
         Returned ()
           (pthread_mutex_unlock TunQ
              (waits_done TunQ ws1 (emit [MutexLock TunQ] (set_mutex TunQ True s))))) \<and>
    (waits_through_tun ws (emit [MutexLock TunQ] (set_mutex TunQ True s)) \<and>
     queue_tun_isempty_nolock
       (waits_done TunQ ws (emit [MutexLock TunQ] (set_mutex TunQ True s))) \<noteq> 0 \<longrightarrow>
       block_on_tun_empty ws s =
         Blocked
           (set_mutex TunQ False
              (waits_done TunQ ws (emit [MutexLock TunQ] (set_mutex TunQ True s))))) \<and>
    (waits_through_tun ws1 (emit [MutexLock TunQ] (set_mutex TunQ True s)) \<and>
     queue_tun_isempty_nolock
       (waits_done TunQ ws1 (emit [MutexLock TunQ] (set_mutex TunQ True s))) \<noteq> 0 \<and>
     \<not> wait_ok w \<longrightarrow>
       block_on_tun_empty (ws1 @ w # ws2) s =
         Exited
           (emit [Tspslog ''Conditional wait error'', Exit 1]
              (waits_done TunQ (ws1 @ [w])
                 (emit [MutexLock TunQ] (set_mutex TunQ True s)))))"
    using block_on_tun_empty_facts [OF assms(1), of ws u s' w]
      block_on_tun_empty_through [OF assms(1), of ws u s' ws1 ws2 w]
    by blast
  have sock: "(block_on_sock_empty ws s = Returned u s' \<longrightarrow>
       queue_sock_isempty_nolock s' = 0 \<and> \<not> lock_sockqueue s') \<and>
    (queue_sock_isempty_nolock s = 0 \<longrightarrow>
       block_on_sock_empty ws s = Returned () (emit [MutexLock SockQ, MutexUnlock SockQ] s)) \<and>
    (queue_sock_isempty_nolock s \<noteq> 0 \<and> (\<forall>w\<in>set ws. wait_ok w \<and> leaves_alone w) \<longrightarrow>
       (\<exists>b. block_on_sock_empty ws s = Blocked b \<and>
            trace b = trace s @ MutexLock SockQ # map (wait_event SockQ) ws)) \<and>
    (queue_sock_isempty_nolock s \<noteq> 0 \<and> wait_ok w \<and>
     queue_sock_isempty_nolock (w_during w (emit [MutexLock SockQ] s)) = 0 \<longrightarrow>
       is_Returned (block_on_sock_empty (w # ws) s)) \<and>
    (waits_through_sock ws1 (emit [MutexLock SockQ] (set_mutex SockQ True s)) \<and>
     queue_sock_isempty_nolock
       (waits_done SockQ ws1 (emit [MutexLock SockQ] (set_mutex SockQ True s))) = 0 \<longrightarrow>
       block_on_sock_empty (ws1 @ ws2) s =
         Returned ()
           (pthread_mutex_unlock SockQ
              (waits_done SockQ ws1 (emit [MutexLock SockQ] (set_mutex SockQ True s))))) \<and>
    (waits_through_sock ws (emit [MutexLock SockQ] (set_mutex SockQ True s)) \<and>
     queue_sock_isempty_nolock
       (waits_done SockQ ws (emit [MutexLock SockQ] (set_mutex SockQ True s))) \<noteq> 0 \<longrightarrow>
       block_on_sock_empty ws s =
         Blocked
           (set_mutex SockQ False
              (waits_done SockQ ws (emit [MutexLock SockQ] (set_mutex SockQ True s))))) \<and>
    (waits_through_sock ws1 (emit [MutexLock SockQ] (set_mutex SockQ True s)) \<and>
     queue_sock_isempty_nolock
       (waits_done SockQ ws1 (emit [MutexLock SockQ] (set_mutex SockQ True s))) \<noteq> 0 \<and>
     \<not> wait_ok w \<longrightarrow>
       block_on_sock_empty (ws1 @ w # ws2) s =
         Exited
           (emit [Tspslog ''Conditional wait error'', Exit 1]
              (waits_done SockQ (ws1 @ [w])
                 (emit [MutexLock SockQ] (set_mutex SockQ True s)))))"
    using block_on_sock_empty_facts [OF assms(2), of ws u s' w]
      block_on_sock_empty_through [OF assms(2), of ws u s' ws1 ws2 w]
    by blast
  from tun sock show ?thesis by (rule conjI)
qed

text \<open>Two timeouts on the empty tunnel queue leave the caller waiting, with two waits
  of deadline 101 for the clock reading 100; a wait during which a slot is reserved
  makes the call return with the queue not empty, also when it is the second wait,
  after a timeout, and then the third wait is not made; a wait that fails after a
  timeout ends the process.\<close>

theorem block_on_empty_returns_only_nonempty_witness:
  "\<not> lock_tunqueue (init_state 2 [] []) \<and> \<not> lock_sockqueue (init_state 2 [] []) \<and>
   queue_tun_isempty_nolock (init_state 2 [] []) \<noteq> 0 \<and>
   queue_sock_isempty_nolock (init_state 2 [] []) \<noteq> 0 \<and>
   wait_ok timeout_wait \<and> leaves_alone timeout_wait \<and>
   (\<exists>b. block_on_tun_empty [timeout_wait, timeout_wait] (init_state 2 [] []) = Blocked b \<and>
        trace b =
          [MutexLock TunQ,
           CondTimedwait TunQ \<lparr>tv_sec = 101, tv_nsec = 0\<rparr> ETIMEDOUT,
           CondTimedwait TunQ \<lparr>tv_sec = 101, tv_nsec = 0\<rparr> ETIMEDOUT]) \<and>
   is_Returned (block_on_tun_empty [tun_arrival_wait] (init_state 2 [] [])) \<and>
   is_Returned (block_on_sock_empty [sock_arrival_wait] (init_state 2 [] [])) \<and>
   (\<exists>s'. block_on_tun_empty [tun_arrival_wait] (init_state 2 [] []) = Returned () s' \<and>
         queue_tun_isempty_nolock s' = 0 \<and> \<not> lock_tunqueue s') \<and>
   is_Returned
     (block_on_tun_empty [timeout_wait, tun_arrival_wait, timeout_wait] (init_state 2 [] [])) \<and>
   trace (final_state
     (block_on_tun_empty [timeout_wait, tun_arrival_wait, timeout_wait] (init_state 2 [] []))) =
     [MutexLock TunQ,
      CondTimedwait TunQ \<lparr>tv_sec = 101, tv_nsec = 0\<rparr> ETIMEDOUT,
      CondTimedwait TunQ \<lparr>tv_sec = 101, tv_nsec = 0\<rparr> 0,
      MutexUnlock TunQ] \<and>
   is_Returned
     (block_on_sock_empty [timeout_wait, sock_arrival_wait] (init_state 2 [] [])) \<and>
   is_Exited
     (block_on_tun_empty [timeout_wait, failed_wait, timeout_wait] (init_state 2 [] [])) \<and>
   trace (final_state
     (block_on_tun_empty [timeout_wait, failed_wait, timeout_wait] (init_state 2 [] []))) =
     [MutexLock TunQ,
      CondTimedwait TunQ \<lparr>tv_sec = 101, tv_nsec = 0\<rparr> ETIMEDOUT,
      CondTimedwait TunQ \<lparr>tv_sec = 101, tv_nsec = 0\<rparr> 22,
      Tspslog ''Conditional wait error'', Exit 1]"
proof -
  note T = block_on_empty_returns_only_nonempty [OF start_state_facts(1,2)]
  have b: "\<exists>b. block_on_tun_empty [timeout_wait, timeout_wait] (init_state 2 [] []) = Blocked b \<and>
        trace b =
          [MutexLock TunQ,
           CondTimedwait TunQ \<lparr>tv_sec = 101, tv_nsec = 0\<rparr> ETIMEDOUT,
           CondTimedwait TunQ \<lparr>tv_sec = 101, tv_nsec = 0\<rparr> ETIMEDOUT]"
    using T [where ws = "[timeout_wait, timeout_wait]",
        THEN conjunct1, THEN conjunct2, THEN conjunct2,
        THEN conjunct1]
      start_state_facts(3,5) example_waits(1,2)
    by (simp add: example_waits(7))
  have r: "is_Returned (block_on_tun_empty [tun_arrival_wait] (init_state 2 [] []))"
    using T [where ws = "[]" and w = tun_arrival_wait,
        THEN conjunct1, THEN conjunct2, THEN conjunct2,
        THEN conjunct2, THEN conjunct1]
      start_state_facts(3) example_waits(3,5)
    by blast
  have q: "is_Returned (block_on_sock_empty [sock_arrival_wait] (init_state 2 [] []))"
    using T [where ws = "[]" and w = sock_arrival_wait,
        THEN conjunct2, THEN conjunct2, THEN conjunct2,
        THEN conjunct2, THEN conjunct1]
      start_state_facts(4) example_waits(4,6)
    by blast
  from r obtain s' where
    rs: "block_on_tun_empty [tun_arrival_wait] (init_state 2 [] []) = Returned () s'"
    by (cases "block_on_tun_empty [tun_arrival_wait] (init_state 2 [] [])") simp_all
  have "queue_tun_isempty_nolock s' = 0 \<and> \<not> lock_tunqueue s'"
    using T [where ws = "[tun_arrival_wait]" and u = "()" and s' = s',
        THEN conjunct1, THEN conjunct1]
      rs
    by blast
  with rs have n: "\<exists>s'. block_on_tun_empty [tun_arrival_wait] (init_state 2 [] []) =
      Returned () s' \<and> queue_tun_isempty_nolock s' = 0 \<and> \<not> lock_tunqueue s'"
    by blast
  have g: "block_on_tun_empty ([timeout_wait, tun_arrival_wait] @ [timeout_wait])
        (init_state 2 [] []) =
      Returned ()
        (pthread_mutex_unlock TunQ
           (waits_done TunQ [timeout_wait, tun_arrival_wait]
              (emit [MutexLock TunQ] (set_mutex TunQ True (init_state 2 [] [])))))"
    using T [where ?ws1.0 = "[timeout_wait, tun_arrival_wait]"
        and ?ws2.0 = "[timeout_wait]",
        THEN conjunct1, THEN conjunct2, THEN conjunct2,
        THEN conjunct2, THEN conjunct2, THEN conjunct1]
      example_wait_runs(1,2)
    by blast
  have h: "block_on_sock_empty ([timeout_wait, sock_arrival_wait] @ [])
        (init_state 2 [] []) =
      Returned ()
        (pthread_mutex_unlock SockQ
           (waits_done SockQ [timeout_wait, sock_arrival_wait]
              (emit [MutexLock SockQ] (set_mutex SockQ True (init_state 2 [] [])))))"
    using T [where ?ws1.0 = "[timeout_wait, sock_arrival_wait]" and ?ws2.0 = "[]",
        THEN conjunct2, THEN conjunct2, THEN conjunct2,
        THEN conjunct2, THEN conjunct2, THEN conjunct1]
      example_wait_runs(3,4)
    by blast
  have f: "block_on_tun_empty ([timeout_wait] @ failed_wait # [timeout_wait])
        (init_state 2 [] []) =
      Exited
        (emit [Tspslog ''Conditional wait error'', Exit 1]
           (waits_done TunQ ([timeout_wait] @ [failed_wait])
              (emit [MutexLock TunQ] (set_mutex TunQ True (init_state 2 [] [])))))"
    using T [where ?ws1.0 = "[timeout_wait]" and ?ws2.0 = "[timeout_wait]"
        and w = failed_wait,
        THEN conjunct1, THEN conjunct2, THEN conjunct2,
        THEN conjunct2, THEN conjunct2, THEN conjunct2,
        THEN conjunct2]
      example_wait_runs(5,6,7)
    by blast
  have g': "is_Returned
     (block_on_tun_empty [timeout_wait, tun_arrival_wait, timeout_wait] (init_state 2 [] [])) \<and>
   trace (final_state
     (block_on_tun_empty [timeout_wait, tun_arrival_wait, timeout_wait] (init_state 2 [] []))) =
     [MutexLock TunQ,
      CondTimedwait TunQ \<lparr>tv_sec = 101, tv_nsec = 0\<rparr> ETIMEDOUT,
      CondTimedwait TunQ \<lparr>tv_sec = 101, tv_nsec = 0\<rparr> 0,
      MutexUnlock TunQ]"
    using g example_wait_traces(1) by simp
  have h': "is_Returned
     (block_on_sock_empty [timeout_wait, sock_arrival_wait] (init_state 2 [] []))"
    using h by simp
  have f': "is_Exited
     (block_on_tun_empty [timeout_wait, failed_wait, timeout_wait] (init_state 2 [] [])) \<and>
   trace (final_state
     (block_on_tun_empty [timeout_wait, failed_wait, timeout_wait] (init_state 2 [] []))) =
     [MutexLock TunQ,
      CondTimedwait TunQ \<lparr>tv_sec = 101, tv_nsec = 0\<rparr> ETIMEDOUT,
      CondTimedwait TunQ \<lparr>tv_sec = 101, tv_nsec = 0\<rparr> 22,
      Tspslog ''Conditional wait error'', Exit 1]"
    using f example_wait_traces(2) by simp
  show ?thesis
    using start_state_facts(1-4) example_waits(1,2) b r q n g' h' f' by blast
qed

subsection \<open>What the code does where it departs from the specification\<close>

text \<open>While curptr_tun is -1, as it is until the first dequeue, the tunnel queue is never
  reported full and a slot is always reserved.\<close>

lemma never_full_before_first_dequeue:
  assumes "wf_state s" and "\<not> lock_tunqueue s" and "curptr_tun s = -1"
  shows "returned_value (queue_tun_isfull s) = Some 0"
    and "\<exists>s1. enqueue_tun_reserve s = Returned (Some (freeptr_tun s)) s1"
proof -
  from assms(1) have r: "0 \<le> freeptr_tun s" "freeptr_tun s < QUEUE_SIZE"
    by (simp_all add: wf_state_def)
  with assms(3) have n: "freeptr_tun s \<noteq> curptr_tun s" by simp
  show "returned_value (queue_tun_isfull s) = Some 0"
    using n by (simp add: isfull_tun [OF assms(2)])
  show "\<exists>s1. enqueue_tun_reserve s = Returned (Some (freeptr_tun s)) s1"
    using reserve_tun_free [OF assms(2) n r] by blast
qed

text \<open>On an empty queue the reservation alone, before anything is read into the slot,
  makes the queue count as not empty, and the slot the consumer can then claim is the
  one just reserved.\<close>

lemma reservation_alone_ends_emptiness:
  assumes "wf_state s" and "\<not> lock_tunqueue s"
    and "queue_tun_isempty_nolock s \<noteq> 0" and "freeptr_tun s \<noteq> curptr_tun s"
  shows "\<exists>s1 s2. enqueue_tun_reserve s = Returned (Some (freeptr_tun s)) s1 \<and>
           queue_tun s1 = queue_tun s \<and> length_tun s1 = length_tun s \<and>
           trace s1 = trace s @ [MutexLock TunQ, MutexUnlock TunQ] \<and>
           queue_tun_isempty_nolock s1 = 0 \<and>
           dequeue_tun_claim s1 = Returned (Some (freeptr_tun s)) s2"
proof -
  from assms(1) have r: "0 \<le> freeptr_tun s" "freeptr_tun s < QUEUE_SIZE"
    "-1 \<le> curptr_tun s"
    by (simp_all add: wf_state_def)
  define s1 where "s1 = pthread_mutex_unlock TunQ
        ((emit [MutexLock TunQ] s)\<lparr>lock_tunqueue := True,
            freeptr_tun := (freeptr_tun s + 1) mod QUEUE_SIZE\<rparr>)"
  have res: "enqueue_tun_reserve s = Returned (Some (freeptr_tun s)) s1"
    unfolding s1_def by (rule reserve_tun_free [OF assms(2,4) r(1,2)])
  have e: "(curptr_tun s + 1) mod QUEUE_SIZE = freeptr_tun s"
    using assms(3) r(3) by (simp add: queue_tun_isempty_nolock_def smod_nonneg split: if_splits)
  have f: "(freeptr_tun s + 1) mod QUEUE_SIZE \<noteq> freeptr_tun s"
    using r(1,2) unfolding QUEUE_SIZE_def by presburger
  have s1: "queue_tun s1 = queue_tun s" "length_tun s1 = length_tun s"
    "trace s1 = trace s @ [MutexLock TunQ, MutexUnlock TunQ]"
    "curptr_tun s1 = curptr_tun s" "freeptr_tun s1 = (freeptr_tun s + 1) mod QUEUE_SIZE"
    "\<not> lock_tunqueue s1"
    by (simp_all add: s1_def prim_defs)
  have ne: "(curptr_tun s1 + 1) mod QUEUE_SIZE \<noteq> freeptr_tun s1"
    using e f by (simp add: s1)
  have "queue_tun_isempty_nolock s1 = 0"
    using ne r(3) by (simp add: queue_tun_isempty_nolock_def smod_nonneg s1)
  moreover have "\<exists>s2. dequeue_tun_claim s1 = Returned (Some (freeptr_tun s)) s2"
    using claim_tun_item [OF s1(6) _ ne] r(3) e by (simp add: s1)
  ultimately show ?thesis using res s1(1,2,3) by blast
qed

text \<open>
  C1. From the initial state curptr_tun is -1 and freeptr_tun runs over 0 to 31, so the
  full test never holds before the first dequeue. After 31 calls of enqueue_tun
  queue_tun_isfull returns 0; the 32nd call reserves slot 31 and wraps freeptr_tun to 0,
  after which queue_tun_isempty returns 1 although 32 packets are stored; the 33rd call
  overwrites slot 0, which held the first packet and was never given to
  process_tun_packet. Once one packet has been dequeued (curptr_tun is 0) the same 31
  calls do make the queue full, and the next enqueue_tun reads nothing.
\<close>

theorem initial_queue_never_full:
  "is_Returned (repeat_call 31 enqueue_tun burst_state) \<and>
   (let s31 = final_state (repeat_call 31 enqueue_tun burst_state) in
      freeptr_tun s31 = 31 \<and> curptr_tun s31 = -1 \<and>
      returned_value (queue_tun_isfull s31) = Some 0 \<and>
      returned_value (queue_tun_isempty s31) = Some 0 \<and>
      is_Returned (enqueue_tun s31) \<and>
      (let s32 = final_state (enqueue_tun s31) in
         freeptr_tun s32 = 0 \<and> curptr_tun s32 = -1 \<and>
         queue_tun s32 ! 31 = [32] \<and> queue_tun s32 ! 0 = [1] \<and>
         returned_value (queue_tun_isfull s32) = Some 0 \<and>
         returned_value (queue_tun_isempty s32) = Some 1 \<and>
         is_Returned (enqueue_tun s32) \<and>
         (let s33 = final_state (enqueue_tun s32) in
            freeptr_tun s33 = 1 \<and> curptr_tun s33 = -1 \<and>
            queue_tun s33 ! 0 = [33] \<and> delivered_tun (trace s33) = []))) \<and>
   (case tun_run in_turn (burst_state, P_idle, C_idle) of
      None \<Rightarrow> False
    | Some (t, p, c) \<Rightarrow>
        curptr_tun t = 0 \<and> freeptr_tun t = 1 \<and>
        (let t31 = final_state (repeat_call 31 enqueue_tun t) in
           freeptr_tun t31 = 0 \<and> curptr_tun t31 = 0 \<and>
           returned_value (queue_tun_isfull t31) = Some 1 \<and>
           enqueue_tun t31 = Returned () (emit [MutexLock TunQ, MutexUnlock TunQ] t31)))"
  by code_simp

text \<open>
  C3. enqueue_tun advances freeptr_tun and releases the mutex before it reads into the
  slot. A consumer that runs in between finds the queue not empty in
  block_on_tun_empty, claims slot 0 and hands process_tun_packet the zeroed buffer and
  length 0, before any read has been made. The packet the producer reads afterwards
  into slot 0 is behind curptr_tun: the next claim finds the queue empty.
\<close>

theorem consumer_overtakes_producer_write:
  "map_option (\<lambda>(s, p, c). (io_events (trace s), p, c))
     (tun_run (take 4 overtaken) (single_state, P_idle, C_idle)) =
     Some ([ProcessTunPacket [0] 0], P_reserved 0, C_idle) \<and>
   map_option (\<lambda>(s, p, c). (io_events (trace s), queue_tun s ! 0, length_tun s ! 0, p, c))
     (tun_run (overtaken @ [ConsumerClaim]) (single_state, P_idle, C_idle)) =
     Some ([ProcessTunPacket [0] 0, ReadTun 1, CondSignal TunQ], [5], 1, P_idle, C_idle)"
  by code_simp

text \<open>
  C4. After thirty-two packets have passed in order, the producer reserves slot 0 for
  the thirty-third and is overtaken before its read: the consumer is handed the bytes
  still in slot 0, those of packet 1, after packets 2 to 32.
\<close>

theorem stale_slot_delivered_after_newer:
  "map_option (\<lambda>(s, p, c). delivered_tun (trace s))
     (tun_run lap_then_overtaken (burst_state, P_idle, C_idle)) =
     Some (map (\<lambda>k. ([of_nat k], 1)) [1..<33] @ [([1], 1)])"
  by code_simp



end
